(* ===== verification/Prelude.thy ===== *)
theory Prelude
  imports Main "HOL-Library.Word"
begin

text \<open>
  Shared vocabulary of the development: the machine integer types of the service, the casts
  between Rust's unsigned integers and the signed columns of Postgres, the decimal printing and
  parsing that Rust's \<^verbatim>\<open>to_string\<close> and \<^verbatim>\<open>parse\<close> perform, the
  ASCII string helpers of the standard library the sources call, and the SQL
  \<^verbatim>\<open>COALESCE\<close>. Every component theory builds on these.

  Conventions. A \<^verbatim>\<open>u64\<close> is a \<^typ>\<open>64 word\<close>; an \<^verbatim>\<open>i64\<close> or
  \<^verbatim>\<open>i32\<close> is an \<^typ>\<open>int\<close>, with the range written out at each cast; a
  \<^verbatim>\<open>u128\<close> amount is a \<^typ>\<open>nat\<close> with its bound \<open>2 ^ 128\<close> written out where
  it matters. Strings are lists of bytes and the text operations are the ASCII ones. A Rust
  \<^verbatim>\<open>Result\<close> is a sum with the error on the left.
\<close>

named_theorems int_cast "the casts between Rust integers and SQL integers"
named_theorems rust_str "the string operations of the standard library"

type_synonym u8 = "8 word"
type_synonym u64 = "64 word"
type_synonym ('e, 'a) result = "'e + 'a"

section \<open>Casts\<close>

text \<open>Rust's \<^verbatim>\<open>x as i64\<close> and \<^verbatim>\<open>i as u64\<close>: reinterpretation in two's complement.\<close>

definition as_i64 :: "u64 \<Rightarrow> int" where
  "as_i64 x = sint x"

definition as_u64 :: "int \<Rightarrow> u64" where
  "as_u64 i = word_of_int i"

definition i32_max :: int where
  "i32_max = 2147483647"

definition i64_max :: int where
  "i64_max = 9223372036854775807"

text \<open>\<^verbatim>\<open>u64 as i32\<close>: the low 32 bits, read as two's complement.\<close>

definition u64_as_i32 :: "u64 \<Rightarrow> int" where
  "u64_as_i32 x = signed_take_bit 31 (uint x)"

text \<open>\<^verbatim>\<open>i32::try_from(n).unwrap_or(i32::MAX)\<close> on an unsigned value.\<close>

definition i32_clamped :: "nat \<Rightarrow> int" where
  "i32_clamped n = (if int n \<le> i32_max then int n else i32_max)"

text \<open>\<^verbatim>\<open>i64::try_from(n).unwrap_or(i64::MAX)\<close> and \<^verbatim>\<open>i64::try_from(n).ok()\<close>.\<close>

definition i64_clamped :: "u64 \<Rightarrow> int" where
  "i64_clamped x = (if uint x \<le> i64_max then uint x else i64_max)"

definition i64_try_from :: "u64 \<Rightarrow> int option" where
  "i64_try_from x = (if uint x \<le> i64_max then Some (uint x) else None)"

lemma as_u64_as_i64 [simp, int_cast]: "as_u64 (as_i64 x) = x"
  by (simp add: as_u64_def as_i64_def)

lemma as_i64_inj: "as_i64 x = as_i64 y \<longleftrightarrow> x = y"
  by (metis as_u64_as_i64)

lemma as_i64_small [int_cast]:
  assumes "uint x \<le> i64_max"
  shows "as_i64 x = uint x"
proof -
  have "- (2 ^ 63) \<le> uint x"
    using order_trans [OF _ uint_ge_0 [of x], of "- (2 ^ 63)"] by simp
  then have "signed_take_bit 63 (uint x) = uint x"
    using assms by (intro signed_take_bit_int_eq_self) (auto simp: i64_max_def)
  then show ?thesis
    by (simp add: as_i64_def sint_uint)
qed

lemma as_i64_range: "- (2 ^ 63) \<le> as_i64 x \<and> as_i64 x \<le> i64_max"
  using sint_greater_eq [of x] sint_less [of x] by (simp add: as_i64_def i64_max_def)

lemma as_i64_mono:
  assumes "uint x < uint y" and "uint y \<le> i64_max"
  shows "as_i64 x < as_i64 y"
  using assms by (simp add: as_i64_small)

lemma i32_clamped_range: "0 \<le> i32_clamped n \<and> i32_clamped n \<le> i32_max"
  by (simp add: i32_clamped_def i32_max_def)

lemma i64_clamped_range: "0 \<le> i64_clamped x \<and> i64_clamped x \<le> i64_max"
  by (simp add: i64_clamped_def i64_max_def)

section \<open>Decimal numerals\<close>

text \<open>
  \<^verbatim>\<open>n.to_string()\<close> on an unsigned integer, and \<^verbatim>\<open>s.parse()\<close>: at least one
  digit, an optional leading plus sign, and no value at or above the bound of the target type.
\<close>

definition digit_char :: "nat \<Rightarrow> char" where
  "digit_char d = char_of (48 + d)"

definition digit_val :: "char \<Rightarrow> nat option" where
  "digit_val c = (let n = of_char c in if 48 \<le> n \<and> n \<le> 57 then Some (n - 48) else None)"

fun show_nat :: "nat \<Rightarrow> string" where
  "show_nat n = (if n < 10 then [digit_char n] else show_nat (n div 10) @ [digit_char (n mod 10)])"

declare show_nat.simps [simp del]

fun parse_digits :: "nat \<Rightarrow> string \<Rightarrow> nat option" where
  "parse_digits acc [] = Some acc"
| "parse_digits acc (c # cs) =
     (case digit_val c of None \<Rightarrow> None | Some d \<Rightarrow> parse_digits (10 * acc + d) cs)"

definition parse_uint :: "nat \<Rightarrow> string \<Rightarrow> nat option" where
  "parse_uint bound s =
     (let ds = (case s of [] \<Rightarrow> [] | c # cs \<Rightarrow> if c = CHR ''+'' then cs else s)
      in if ds = [] then None
         else case parse_digits 0 ds of
                None \<Rightarrow> None
              | Some n \<Rightarrow> if n < bound then Some n else None)"

definition parse_u64 :: "string \<Rightarrow> u64 option" where
  "parse_u64 s = map_option of_nat (parse_uint (2 ^ 64) s)"

definition show_u64 :: "u64 \<Rightarrow> string" where
  "show_u64 x = show_nat (unat x)"

definition parse_u128 :: "string \<Rightarrow> nat option" where
  "parse_u128 s = parse_uint (2 ^ 128) s"

lemma of_char_digit_char [simp]: "d < 10 \<Longrightarrow> of_char (digit_char d) = (48 + d :: nat)"
  by (simp add: digit_char_def)

lemma digit_val_digit_char [simp, rust_str]: "d < 10 \<Longrightarrow> digit_val (digit_char d) = Some d"
  by (simp add: digit_val_def)

lemma digit_char_neq_plus: "d < 10 \<Longrightarrow> digit_char d \<noteq> CHR ''+''"
proof
  assume d: "d < 10" and "digit_char d = CHR ''+''"
  then have "of_char (digit_char d) = (of_char (CHR ''+'') :: nat)" by simp
  with d show False by simp
qed

lemma parse_digits_append:
  "parse_digits acc (xs @ ys) = Option.bind (parse_digits acc xs) (\<lambda>n. parse_digits n ys)"
  by (induction xs arbitrary: acc) (auto split: option.splits)

lemma parse_digits_show_nat: "parse_digits 0 (show_nat n) = Some n"
proof (induction n rule: show_nat.induct)
  case (1 n)
  show ?case
  proof (cases "n < 10")
    case True
    then show ?thesis by (simp add: show_nat.simps [of n])
  next
    case False
    with "1.IH" have "parse_digits 0 (show_nat (n div 10)) = Some (n div 10)" by simp
    with False show ?thesis
      by (simp add: show_nat.simps [of n] parse_digits_append)
  qed
qed

lemma show_nat_nonempty [simp]: "show_nat n \<noteq> []"
  by (simp add: show_nat.simps [of n])

lemma hd_show_nat: "hd (show_nat n) \<noteq> CHR ''+''"
proof (induction n rule: show_nat.induct)
  case (1 n)
  then show ?case
    by (cases "n < 10") (simp_all add: show_nat.simps [of n] digit_char_neq_plus)
qed

lemma parse_uint_show_nat [rust_str]: "n < bound \<Longrightarrow> parse_uint bound (show_nat n) = Some n"
  using hd_show_nat [of n] parse_digits_show_nat [of n]
  by (cases "show_nat n") (auto simp: parse_uint_def)

lemma parse_u64_show_u64 [simp, rust_str]: "parse_u64 (show_u64 x) = Some x"
proof -
  have "unat x < 2 ^ 64"
    using unsigned_less [of x, where ?'a = nat] by simp
  then show ?thesis
    by (simp add: parse_u64_def show_u64_def parse_uint_show_nat)
qed

lemma parse_uint_bound: "parse_uint b s = Some n \<Longrightarrow> n < b"
  by (auto simp: parse_uint_def Let_def split: option.splits if_splits)

lemma parse_u128_show_nat [rust_str]: "n < 2 ^ 128 \<Longrightarrow> parse_u128 (show_nat n) = Some n"
  unfolding parse_u128_def by (rule parse_uint_show_nat)

lemma show_nat_inj: "show_nat m = show_nat n \<longleftrightarrow> m = n"
  by (metis option.inject parse_digits_show_nat)

lemma show_u64_inj: "show_u64 x = show_u64 y \<longleftrightarrow> x = y"
  by (metis option.inject parse_u64_show_u64)

text \<open>The monotonic clock counts nanoseconds.\<close>

definition NANOS_PER_SEC :: nat where
  "NANOS_PER_SEC = 1000000000"

section \<open>Strings\<close>

definition starts_with :: "string \<Rightarrow> string \<Rightarrow> bool" where
  "starts_with p s \<longleftrightarrow> take (length p) s = p"

definition ends_with :: "string \<Rightarrow> string \<Rightarrow> bool" where
  "ends_with p s \<longleftrightarrow> starts_with (rev p) (rev s)"

definition is_space :: "char \<Rightarrow> bool" where
  "is_space c \<longleftrightarrow> (let n = (of_char c :: nat) in (9 \<le> n \<and> n \<le> 13) \<or> n = 32)"

definition trim_end_matches :: "char \<Rightarrow> string \<Rightarrow> string" where
  "trim_end_matches c s = rev (dropWhile (\<lambda>x. x = c) (rev s))"

definition trim :: "string \<Rightarrow> string" where
  "trim s = rev (dropWhile is_space (rev (dropWhile is_space s)))"

definition lower_char :: "char \<Rightarrow> char" where
  "lower_char c = (let n = (of_char c :: nat) in if 65 \<le> n \<and> n \<le> 90 then char_of (n + 32) else c)"

definition to_lowercase :: "string \<Rightarrow> string" where
  "to_lowercase s = map lower_char s"

lemma starts_with_append [simp, rust_str]: "starts_with p (p @ s)"
  by (simp add: starts_with_def)

lemma starts_with_iff: "starts_with p s \<longleftrightarrow> (\<exists>t. s = p @ t)"
proof
  assume "starts_with p s"
  then have "s = p @ drop (length p) s"
    by (metis append_take_drop_id starts_with_def)
  then show "\<exists>t. s = p @ t" ..
qed (auto simp: starts_with_def)

lemma ends_with_append [simp, rust_str]: "ends_with p (s @ p)"
  by (simp add: ends_with_def)

lemma trim_end_matches_append_neq:
  "c \<noteq> d \<Longrightarrow> trim_end_matches c (s @ [d]) = s @ [d]"
  by (simp add: trim_end_matches_def)

lemma trim_end_matches_idem [simp]:
  "trim_end_matches c (trim_end_matches c s) = trim_end_matches c s"
  by (simp add: trim_end_matches_def dropWhile_idem comp_def)

lemma lower_char_idem [simp]: "lower_char (lower_char c) = lower_char c"
  by (auto simp: lower_char_def Let_def)

lemma to_lowercase_idem [simp]: "to_lowercase (to_lowercase s) = to_lowercase s"
  by (simp add: to_lowercase_def comp_def)

section \<open>SQL NULL handling\<close>

text \<open>\<^verbatim>\<open>COALESCE(a, b)\<close> on nullable columns, and \<^verbatim>\<open>Option::or\<close> in Rust.\<close>

definition coalesce :: "'a option \<Rightarrow> 'a option \<Rightarrow> 'a option" where
  "coalesce a b = (case a of Some x \<Rightarrow> Some x | None \<Rightarrow> b)"

lemma coalesce_simps [simp]:
  "coalesce (Some x) b = Some x"
  "coalesce None b = b"
  by (simp_all add: coalesce_def)

lemma coalesce_eq_None [simp]: "coalesce a b = None \<longleftrightarrow> a = None \<and> b = None"
  by (cases a) auto

lemma coalesce_Some_ex [simp]: "\<exists>y. coalesce a (Some x) = Some y"
  by (cases a) auto

section \<open>Loops with an early return\<close>

text \<open>\<^verbatim>\<open>for x in xs { if let Some(y) = f(x) { return Some(y) } }\<close>.\<close>

fun find_map :: "('a \<Rightarrow> 'b option) \<Rightarrow> 'a list \<Rightarrow> 'b option" where
  "find_map f [] = None"
| "find_map f (x # xs) = (case f x of Some y \<Rightarrow> Some y | None \<Rightarrow> find_map f xs)"

lemma find_map_None: "find_map f xs = None \<longleftrightarrow> (\<forall>x \<in> set xs. f x = None)"
  by (induction xs) (auto split: option.splits)

lemma find_map_ex: "(\<exists>x \<in> set xs. f x \<noteq> None) \<longleftrightarrow> find_map f xs \<noteq> None"
  by (auto simp: find_map_None)

lemma find_map_SomeD: "find_map f xs = Some y \<Longrightarrow> \<exists>x \<in> set xs. f x = Some y"
  by (induction xs) (auto split: option.splits)

lemma find_map_eq_hd:
  "find_map f xs = (case List.map_filter f xs of [] \<Rightarrow> None | y # _ \<Rightarrow> Some y)"
  by (induction xs) (auto simp: List.map_filter_simps split: option.splits)

lemma map_filter_Nil_iff: "List.map_filter f xs = [] \<longleftrightarrow> (\<forall>x \<in> set xs. f x = None)"
  by (induction xs) (auto simp: List.map_filter_simps split: option.splits)

section \<open>Results\<close>

definition bind_result :: "('e, 'a) result \<Rightarrow> ('a \<Rightarrow> ('e, 'b) result) \<Rightarrow> ('e, 'b) result" where
  "bind_result r f = (case r of Inl e \<Rightarrow> Inl e | Inr a \<Rightarrow> f a)"

definition ok_or :: "'e \<Rightarrow> 'a option \<Rightarrow> ('e, 'a) result" where
  "ok_or e x = (case x of None \<Rightarrow> Inl e | Some a \<Rightarrow> Inr a)"

lemma bind_result_simps [simp]:
  "bind_result (Inl e) f = Inl e"
  "bind_result (Inr a) f = f a"
  by (simp_all add: bind_result_def)

lemma bind_result_Inr_iff:
  "bind_result r f = Inr b \<longleftrightarrow> (\<exists>a. r = Inr a \<and> f a = Inr b)"
  by (cases r) auto

lemma ok_or_simps [simp]:
  "ok_or e None = Inl e"
  "ok_or e (Some a) = Inr a"
  by (simp_all add: ok_or_def)

lemma ok_or_Inr_iff [simp]: "ok_or e x = Inr a \<longleftrightarrow> x = Some a"
  by (cases x) auto

end
