(* ===== verification/Router.thy ===== *)
theory Router
  imports Prelude
begin

text \<open>
  The route table of \<^verbatim>\<open>crates/api/src/main.rs\<close>. How a path is looked up among the patterns is the
  business of axum: the lookup is a parameter, and the locale \<open>path_router\<close> states what its documentation
  promises: a capture stands for one non-empty segment, a path without a matching pattern is not found,
  and where a literal and a capture both match, the literal has priority. The literal text before it
  decides first. The table is shown to give every endpoint its paths under any such lookup.
\<close>

section \<open>Patterns\<close>

datatype http_method = GET | HEAD | POST | Other_method string

datatype segment =
    Lit string
  | Cap string

fun split_on :: "char \<Rightarrow> string \<Rightarrow> string list" where
  "split_on c [] = [[]]"
| "split_on c (x # xs) =
     (if x = c then [] # split_on c xs
      else (case split_on c xs of [] \<Rightarrow> [[x]] | w # ws \<Rightarrow> (x # w) # ws))"

fun join_with :: "char \<Rightarrow> string list \<Rightarrow> string" where
  "join_with c [] = []"
| "join_with c [s] = s"
| "join_with c (s # t # ts) = s @ c # join_with c (t # ts)"

definition segment_of :: "string \<Rightarrow> segment" where
  "segment_of s =
     (if 2 \<le> length s \<and> hd s = CHR ''{'' \<and> last s = CHR ''}'' then Cap (butlast (tl s)) else Lit s)"

definition pattern_of :: "string \<Rightarrow> segment list" where
  "pattern_of path = map segment_of (split_on (CHR ''/'') path)"

fun seg_match :: "segment \<Rightarrow> string \<Rightarrow> bool" where
  "seg_match (Lit s) x = (x = s)"
| "seg_match (Cap _) x = (x \<noteq> [])"

fun captured :: "segment list \<Rightarrow> string list \<Rightarrow> (string \<times> string) list" where
  "captured (Cap n # ps) (x # xs) = (n, x) # captured ps xs"
| "captured (Lit _ # ps) (x # xs) = captured ps xs"
| "captured _ _ = []"

text \<open>At the first position where two patterns differ in kind, the one with the literal has priority.\<close>

fun more_specific :: "segment list \<Rightarrow> segment list \<Rightarrow> bool" where
  "more_specific (Lit _ # _) (Cap _ # _) = True"
| "more_specific (Cap _ # _) (Lit _ # _) = False"
| "more_specific (_ # ps) (_ # qs) = more_specific ps qs"
| "more_specific _ _ = False"

section \<open>The table\<close>

datatype endpoint =
  H_health | H_info | H_drip | H_drip_status | H_drip_bot | H_blocks_list | H_block_by_height |
  H_txs_list | H_tx_by_hash | H_address_summary | H_address_txs | H_schemas_list | H_schema_by_id |
  H_attestor_sets_list | H_attestor_sets_by_member | H_attestor_set_by_id |
  H_attestations_by_attestor_set | H_attestations_by_schema | H_attestations_list |
  H_attestation_by_id | H_bounties_list | H_bounties_matching | H_bounty_detail | H_contracts_list |
  H_contract_detail | H_search | H_totals | H_finality | H_next_block_eta | H_active_addresses |
  H_new_wallets_daily | H_tx_rate_daily | H_attestations_daily | H_drips_daily | H_top_holders |
  H_top_attesters | H_top_schema_owners | H_top_attestor_sets | H_cluster_nodes

type_synonym route = "string \<times> http_method \<times> endpoint"

definition routes :: "route list" where
  "routes =
    [(''/health'', GET, H_health),
     (''/v1/health'', GET, H_health),
     (''/v1/info'', GET, H_info),
     (''/v1/drip'', POST, H_drip),
     (''/v1/drip/status'', GET, H_drip_status),
     (''/v1/drip-bot'', POST, H_drip_bot),
     (''/v1/blocks'', GET, H_blocks_list),
     (''/v1/blocks/{height}'', GET, H_block_by_height),
     (''/v1/txs'', GET, H_txs_list),
     (''/v1/txs/{hash}'', GET, H_tx_by_hash),
     (''/v1/addresses/{addr}'', GET, H_address_summary),
     (''/v1/addresses/{addr}/txs'', GET, H_address_txs),
     (''/v1/schemas'', GET, H_schemas_list),
     (''/v1/schemas/{id}'', GET, H_schema_by_id),
     (''/v1/attestor-sets'', GET, H_attestor_sets_list),
     (''/v1/attestor-sets/by-member/{pubkey}'', GET, H_attestor_sets_by_member),
     (''/v1/attestor-sets/{id}'', GET, H_attestor_set_by_id),
     (''/v1/attestor-sets/{id}/attestations'', GET, H_attestations_by_attestor_set),
     (''/v1/schemas/{id}/attestations'', GET, H_attestations_by_schema),
     (''/v1/attestations'', GET, H_attestations_list),
     (''/v1/attestations/{id}'', GET, H_attestation_by_id),
     (''/v1/bounties'', GET, H_bounties_list),
     (''/v1/bounties/matching/{address}'', GET, H_bounties_matching),
     (''/v1/bounties/{bountyId}'', GET, H_bounty_detail),
     (''/v1/contracts'', GET, H_contracts_list),
     (''/v1/contracts/{contractId}'', GET, H_contract_detail),
     (''/v1/search'', GET, H_search),
     (''/v1/stats/totals'', GET, H_totals),
     (''/v1/stats/finality'', GET, H_finality),
     (''/v1/stats/next-block-eta'', GET, H_next_block_eta),
     (''/v1/stats/active-addresses'', GET, H_active_addresses),
     (''/v1/stats/new-wallets-daily'', GET, H_new_wallets_daily),
     (''/v1/stats/tx-rate-daily'', GET, H_tx_rate_daily),
     (''/v1/stats/attestations-daily'', GET, H_attestations_daily),
     (''/v1/stats/drips-daily'', GET, H_drips_daily),
     (''/v1/stats/top-holders'', GET, H_top_holders),
     (''/v1/stats/top-attesters'', GET, H_top_attesters),
     (''/v1/stats/top-schema-owners'', GET, H_top_schema_owners),
     (''/v1/stats/top-attestor-sets'', GET, H_top_attestor_sets),
     (''/v1/cluster/nodes'', GET, H_cluster_nodes)]"

definition route_matches :: "route \<Rightarrow> string \<Rightarrow> bool" where
  "route_matches r path \<longleftrightarrow> list_all2 seg_match (pattern_of (fst r)) (split_on (CHR ''/'') path)"

definition serves :: "http_method \<Rightarrow> http_method \<Rightarrow> bool" where
  "serves declared asked \<longleftrightarrow> asked = declared \<or> (declared = GET \<and> asked = HEAD)"

datatype dispatched =
    No_route
  | Method_not_allowed
  | Call endpoint "(string \<times> string) list"

definition dispatch :: "(route list \<Rightarrow> string \<Rightarrow> route option) \<Rightarrow> http_method \<Rightarrow> string \<Rightarrow> dispatched" where
  "dispatch lookup asked path =
     (case lookup routes path of
        None \<Rightarrow> No_route
      | Some (pat, declared, e) \<Rightarrow>
          if serves declared asked then Call e (captured (pattern_of pat) (split_on (CHR ''/'') path))
          else Method_not_allowed)"

section \<open>What the lookup promises\<close>

locale path_router =
  fixes lookup :: "route list \<Rightarrow> string \<Rightarrow> route option"
  assumes found: "lookup rs path = Some r \<Longrightarrow> r \<in> set rs \<and> route_matches r path"
    and missed: "lookup rs path = None \<Longrightarrow> r \<in> set rs \<Longrightarrow> \<not> route_matches r path"
    and priority: "lookup rs path = Some r \<Longrightarrow> r' \<in> set rs \<Longrightarrow> route_matches r' path \<Longrightarrow>
      \<not> more_specific (pattern_of (fst r')) (pattern_of (fst r))"
begin

text \<open>The only matching route is found; of several, the one with priority over all others.\<close>

lemma lookup_best:
  assumes "r \<in> set rs" and "route_matches r path"
    and "\<And>r'. r' \<in> set rs \<Longrightarrow> route_matches r' path \<Longrightarrow> r' \<noteq> r \<Longrightarrow> more_specific (pattern_of (fst r)) (pattern_of (fst r'))"
  shows "lookup rs path = Some r"
proof (cases "lookup rs path")
  case None
  then show ?thesis using missed assms(1,2) by blast
next
  case (Some r')
  then show ?thesis using found priority assms by blast
qed

end

text \<open>A lookup that satisfies the contract: a linear scan that keeps the best match so far.\<close>

definition scan_step :: "string \<Rightarrow> route \<Rightarrow> route option \<Rightarrow> route option" where
  "scan_step path r best =
     (if route_matches r path \<and> (case best of None \<Rightarrow> True | Some b \<Rightarrow> more_specific (pattern_of (fst r)) (pattern_of (fst b)))
      then Some r else best)"

definition scan :: "route list \<Rightarrow> string \<Rightarrow> route option" where
  "scan rs path = fold (scan_step path) rs None"

lemma more_specific_trans:
  "more_specific p q \<Longrightarrow> \<not> more_specific r q \<Longrightarrow> length p = length r \<Longrightarrow> length q = length r \<Longrightarrow> \<not> more_specific r p"
proof (induction p q arbitrary: r rule: more_specific.induct)
  case (1 a ps b qs)
  then show ?case by (cases r; cases "hd r") auto
qed (case_tac r; case_tac "hd r"; auto)+

lemma more_specific_irrefl [simp]: "\<not> more_specific p p"
proof (induction p)
  case (Cons a p)
  then show ?case by (cases a) auto
qed simp

lemma route_matches_length: "route_matches r path \<Longrightarrow> length (pattern_of (fst r)) = length (split_on (CHR ''/'') path)"
  by (simp add: route_matches_def list_all2_lengthD)

definition best_of :: "string \<Rightarrow> route set \<Rightarrow> route option \<Rightarrow> bool" where
  "best_of path R best \<longleftrightarrow>
     (case best of
        None \<Rightarrow> (\<forall>r \<in> R. \<not> route_matches r path)
      | Some b \<Rightarrow> b \<in> R \<and> route_matches b path \<and>
          (\<forall>r \<in> R. route_matches r path \<longrightarrow> \<not> more_specific (pattern_of (fst r)) (pattern_of (fst b))))"

lemma best_of_step:
  assumes "best_of path R best"
  shows "best_of path (insert r R) (scan_step path r best)"
proof (cases best)
  case None
  then show ?thesis using assms by (auto simp: best_of_def scan_step_def)
next
  case (Some b)
  then show ?thesis
    using assms more_specific_trans [of "pattern_of (fst r)" "pattern_of (fst b)"] route_matches_length
    by (auto simp: best_of_def scan_step_def)
qed

lemma best_of_scan: "best_of path (set rs) (scan rs path)"
proof -
  have "best_of path (R \<union> set rs) (fold (scan_step path) rs best)" if "best_of path R best" for R best
    using that
  proof (induction rs arbitrary: R best)
    case (Cons r rs)
    then show ?case using Cons.IH [OF best_of_step [OF Cons.prems], of r] by simp
  qed simp
  from this [of "{}" None] show ?thesis by (simp add: scan_def best_of_def)
qed

interpretation scan: path_router scan
proof
  fix rs path r r'
  note b = best_of_scan [of path rs, unfolded best_of_def]
  show "r \<in> set rs \<and> route_matches r path" if "scan rs path = Some r" using that b by simp
  show "\<not> route_matches r path" if "scan rs path = None" "r \<in> set rs" using that b by simp
  show "\<not> more_specific (pattern_of (fst r')) (pattern_of (fst r))"
    if "scan rs path = Some r" "r' \<in> set rs" "route_matches r' path" using that b by simp
qed

section \<open>Overlaps\<close>

text \<open>Two patterns with different literals at some position, or of different length, share no path.\<close>

fun apart :: "segment list \<Rightarrow> segment list \<Rightarrow> bool" where
  "apart [] [] = False"
| "apart (Lit s # ps) (Lit t # qs) = (s \<noteq> t \<or> apart ps qs)"
| "apart (_ # ps) (_ # qs) = apart ps qs"
| "apart _ _ = True"

lemma apart_sound: "apart p q \<Longrightarrow> list_all2 seg_match p xs \<Longrightarrow> \<not> list_all2 seg_match q xs"
proof (induction p q arbitrary: xs rule: apart.induct)
  case (2 s ps t qs)
  then show ?case by (auto simp: list_all2_Cons1)
qed (auto simp: list_all2_Cons1)

text \<open>
  Only one pair of the table overlaps: the attestations of a set whose identifier is the word
  \<^verbatim>\<open>by-member\<close>, and the sets of a member whose key is the word \<^verbatim>\<open>attestations\<close>.
\<close>

definition overlap_pair :: "endpoint \<Rightarrow> endpoint \<Rightarrow> bool" where
  "overlap_pair e e' \<longleftrightarrow>
     (e = H_attestor_sets_by_member \<and> e' = H_attestations_by_attestor_set) \<or>
     (e = H_attestations_by_attestor_set \<and> e' = H_attestor_sets_by_member)"

definition route_patterns :: "(segment list \<times> endpoint) list" where
  "route_patterns = map (\<lambda>r. (pattern_of (fst r), snd (snd r))) routes"

lemma route_patterns_code:
  "route_patterns =
    [([Lit [], Lit ''health''], H_health),
     ([Lit [], Lit ''v1'', Lit ''health''], H_health),
     ([Lit [], Lit ''v1'', Lit ''info''], H_info),
     ([Lit [], Lit ''v1'', Lit ''drip''], H_drip),
     ([Lit [], Lit ''v1'', Lit ''drip'', Lit ''status''], H_drip_status),
     ([Lit [], Lit ''v1'', Lit ''drip-bot''], H_drip_bot),
     ([Lit [], Lit ''v1'', Lit ''blocks''], H_blocks_list),
     ([Lit [], Lit ''v1'', Lit ''blocks'', Cap ''height''], H_block_by_height),
     ([Lit [], Lit ''v1'', Lit ''txs''], H_txs_list),
     ([Lit [], Lit ''v1'', Lit ''txs'', Cap ''hash''], H_tx_by_hash),
     ([Lit [], Lit ''v1'', Lit ''addresses'', Cap ''addr''], H_address_summary),
     ([Lit [], Lit ''v1'', Lit ''addresses'', Cap ''addr'', Lit ''txs''], H_address_txs),
     ([Lit [], Lit ''v1'', Lit ''schemas''], H_schemas_list),
     ([Lit [], Lit ''v1'', Lit ''schemas'', Cap ''id''], H_schema_by_id),
     ([Lit [], Lit ''v1'', Lit ''attestor-sets''], H_attestor_sets_list),
     ([Lit [], Lit ''v1'', Lit ''attestor-sets'', Lit ''by-member'', Cap ''pubkey''], H_attestor_sets_by_member),
     ([Lit [], Lit ''v1'', Lit ''attestor-sets'', Cap ''id''], H_attestor_set_by_id),
     ([Lit [], Lit ''v1'', Lit ''attestor-sets'', Cap ''id'', Lit ''attestations''], H_attestations_by_attestor_set),
     ([Lit [], Lit ''v1'', Lit ''schemas'', Cap ''id'', Lit ''attestations''], H_attestations_by_schema),
     ([Lit [], Lit ''v1'', Lit ''attestations''], H_attestations_list),
     ([Lit [], Lit ''v1'', Lit ''attestations'', Cap ''id''], H_attestation_by_id),
     ([Lit [], Lit ''v1'', Lit ''bounties''], H_bounties_list),
     ([Lit [], Lit ''v1'', Lit ''bounties'', Lit ''matching'', Cap ''address''], H_bounties_matching),
     ([Lit [], Lit ''v1'', Lit ''bounties'', Cap ''bountyId''], H_bounty_detail),
     ([Lit [], Lit ''v1'', Lit ''contracts''], H_contracts_list),
     ([Lit [], Lit ''v1'', Lit ''contracts'', Cap ''contractId''], H_contract_detail),
     ([Lit [], Lit ''v1'', Lit ''search''], H_search),
     ([Lit [], Lit ''v1'', Lit ''stats'', Lit ''totals''], H_totals),
     ([Lit [], Lit ''v1'', Lit ''stats'', Lit ''finality''], H_finality),
     ([Lit [], Lit ''v1'', Lit ''stats'', Lit ''next-block-eta''], H_next_block_eta),
     ([Lit [], Lit ''v1'', Lit ''stats'', Lit ''active-addresses''], H_active_addresses),
     ([Lit [], Lit ''v1'', Lit ''stats'', Lit ''new-wallets-daily''], H_new_wallets_daily),
     ([Lit [], Lit ''v1'', Lit ''stats'', Lit ''tx-rate-daily''], H_tx_rate_daily),
     ([Lit [], Lit ''v1'', Lit ''stats'', Lit ''attestations-daily''], H_attestations_daily),
     ([Lit [], Lit ''v1'', Lit ''stats'', Lit ''drips-daily''], H_drips_daily),
     ([Lit [], Lit ''v1'', Lit ''stats'', Lit ''top-holders''], H_top_holders),
     ([Lit [], Lit ''v1'', Lit ''stats'', Lit ''top-attesters''], H_top_attesters),
     ([Lit [], Lit ''v1'', Lit ''stats'', Lit ''top-schema-owners''], H_top_schema_owners),
     ([Lit [], Lit ''v1'', Lit ''stats'', Lit ''top-attestor-sets''], H_top_attestor_sets),
     ([Lit [], Lit ''v1'', Lit ''cluster'', Lit ''nodes''], H_cluster_nodes)]"
  by (simp add: route_patterns_def routes_def pattern_of_def segment_of_def)

fun all_apart :: "(segment list \<times> endpoint) list \<Rightarrow> bool" where
  "all_apart [] = True"
| "all_apart (x # xs) = (list_all (\<lambda>y. apart (fst x) (fst y) \<or> overlap_pair (snd x) (snd y)) xs \<and> all_apart xs)"

lemma routes_apart: "all_apart route_patterns"
  unfolding route_patterns_code by (simp add: overlap_pair_def)

lemma apart_of_routes:
  assumes "r \<in> set rs" "r' \<in> set rs" "r \<noteq> r'" "all_apart (map (\<lambda>r. (pattern_of (fst r), snd (snd r))) rs)"
  shows "apart (pattern_of (fst r)) (pattern_of (fst r')) \<or> apart (pattern_of (fst r')) (pattern_of (fst r)) \<or>
    overlap_pair (snd (snd r)) (snd (snd r'))"
  using assms by (induction rs) (auto simp: list_all_iff overlap_pair_def)

section \<open>Paths\<close>

fun fill :: "segment list \<Rightarrow> string list \<Rightarrow> string list" where
  "fill (Lit s # ps) args = s # fill ps args"
| "fill (Cap _ # ps) (a # args) = a # fill ps args"
| "fill _ _ = []"

fun capture_names :: "segment list \<Rightarrow> string list" where
  "capture_names [] = []"
| "capture_names (Lit _ # ps) = capture_names ps"
| "capture_names (Cap n # ps) = n # capture_names ps"

definition arg_ok :: "string \<Rightarrow> bool" where
  "arg_ok a \<longleftrightarrow> a \<noteq> [] \<and> CHR ''/'' \<notin> set a"

definition path_with :: "string \<Rightarrow> string list \<Rightarrow> string" where
  "path_with pat args = join_with (CHR ''/'') (fill (pattern_of pat) args)"

lemma split_on_nonempty [simp]: "split_on c s \<noteq> []"
  by (induction s) (auto split: list.split)

lemma split_on_free: "c \<notin> set s \<Longrightarrow> split_on c s = [s]"
  by (induction s) auto

lemma split_on_append: "c \<notin> set s \<Longrightarrow> split_on c (s @ c # t) = s # split_on c t"
  by (induction s) auto

lemma split_join: "segs \<noteq> [] \<Longrightarrow> \<forall>s \<in> set segs. c \<notin> set s \<Longrightarrow> split_on c (join_with c segs) = segs"
  by (induction c segs rule: join_with.induct) (simp_all add: split_on_free split_on_append)

lemma split_on_parts: "s \<in> set (split_on c t) \<Longrightarrow> c \<notin> set s"
  by (induction t arbitrary: s) (auto split: if_splits list.splits)

lemma pattern_lit_free: "Lit s \<in> set (pattern_of p) \<Longrightarrow> CHR ''/'' \<notin> set s"
  by (auto simp: pattern_of_def segment_of_def split_on_parts split: if_splits)

lemma pattern_nonempty [simp]: "pattern_of p \<noteq> []"
  by (simp add: pattern_of_def)

lemma fill_free:
  "list_all arg_ok args \<Longrightarrow> s \<in> set (fill ps args) \<Longrightarrow> (\<And>t. Lit t \<in> set ps \<Longrightarrow> CHR ''/'' \<notin> set t) \<Longrightarrow> CHR ''/'' \<notin> set s"
  by (induction ps args rule: fill.induct) (auto simp: arg_ok_def)

lemma fill_matches:
  "length args = length (capture_names ps) \<Longrightarrow> list_all arg_ok args \<Longrightarrow> list_all2 seg_match ps (fill ps args)"
  by (induction ps args rule: fill.induct) (auto simp: arg_ok_def)

lemma captured_fill:
  "length args = length (capture_names ps) \<Longrightarrow> captured ps (fill ps args) = zip (capture_names ps) args"
  by (induction ps args rule: fill.induct) auto

lemma fill_nonempty: "length args = length (capture_names ps) \<Longrightarrow> ps \<noteq> [] \<Longrightarrow> fill ps args \<noteq> []"
  by (cases "(ps, args)" rule: fill.cases) auto

lemma split_path_with:
  assumes "length args = length (capture_names (pattern_of pat))" and "list_all arg_ok args"
  shows "split_on (CHR ''/'') (path_with pat args) = fill (pattern_of pat) args"
  unfolding path_with_def using assms
  by (intro split_join fill_nonempty ballI) (auto dest: fill_free [OF _ _ pattern_lit_free])

lemma overlapping_routes:
  assumes "(pat, m, e) \<in> set routes"
  shows "e = H_attestor_sets_by_member \<Longrightarrow> pat = ''/v1/attestor-sets/by-member/{pubkey}''"
    and "e = H_attestations_by_attestor_set \<Longrightarrow> pat = ''/v1/attestor-sets/{id}/attestations''"
  using assms by (auto simp: routes_def)

lemma overlapping_patterns:
  "pattern_of ''/v1/attestor-sets/by-member/{pubkey}'' =
     [Lit [], Lit ''v1'', Lit ''attestor-sets'', Lit ''by-member'', Cap ''pubkey'']"
  "pattern_of ''/v1/attestor-sets/{id}/attestations'' =
     [Lit [], Lit ''v1'', Lit ''attestor-sets'', Cap ''id'', Lit ''attestations'']"
  by (simp_all add: pattern_of_def segment_of_def)

lemma route_wins:
  assumes "r \<in> set routes" "r' \<in> set routes" "r \<noteq> r'" and "route_matches r path" "route_matches r' path"
    and "\<not> (snd (snd r) = H_attestations_by_attestor_set \<and> split_on (CHR ''/'') path ! 3 = ''by-member'')"
  shows "more_specific (pattern_of (fst r)) (pattern_of (fst r'))"
proof -
  obtain p m e p' m' e' where r: "r = (p, m, e)" "r' = (p', m', e')" by (cases r, cases r') auto
  have "overlap_pair e e'"
    using apart_of_routes [OF assms(1-3)] routes_apart assms(4,5) apart_sound
    by (auto simp: route_patterns_def route_matches_def r)
  moreover have False if "e = H_attestations_by_attestor_set" "e' = H_attestor_sets_by_member"
    using assms that overlapping_routes [of p' m' e']
    by (auto simp: r route_matches_def overlapping_patterns list_all2_Cons1)
  ultimately have e: "e = H_attestor_sets_by_member" "e' = H_attestations_by_attestor_set"
    by (auto simp: overlap_pair_def)
  have "p = ''/v1/attestor-sets/by-member/{pubkey}''" "p' = ''/v1/attestor-sets/{id}/attestations''"
    using overlapping_routes(1) [of p m e] overlapping_routes(2) [of p' m' e'] assms(1,2) e r by simp_all
  then show ?thesis by (simp add: r overlapping_patterns)
qed

section \<open>Properties\<close>

text \<open>C9. The route table is complete and unambiguous under any lookup that keeps axum's promises. Every
  declared path, with captures filled by non-empty segments, reaches its own handler with exactly
  these arguments when the method fits (a GET route also answers HEAD) and is refused with 405
  otherwise; the one exception is the set identifier \<^verbatim>\<open>by-member\<close>, whose attestations are
  shadowed by the member route. A path is answered with 404 exactly when no declared pattern matches.\<close>

theorem routes_dispatch:
  assumes "path_router lookup" and "(pat, declared, e) \<in> set routes"
    and "length args = length (capture_names (pattern_of pat))" and "list_all arg_ok args"
  shows "(\<not> (e = H_attestations_by_attestor_set \<and> args = [''by-member'']) \<longrightarrow>
      dispatch lookup asked (path_with pat args) =
        (if serves declared asked then Call e (zip (capture_names (pattern_of pat)) args) else Method_not_allowed)) \<and>
    dispatch lookup GET (path_with ''/v1/attestor-sets/{id}/attestations'' [''by-member'']) =
      Call H_attestor_sets_by_member [(''pubkey'', ''attestations'')] \<and>
    (dispatch lookup asked path = No_route \<longleftrightarrow> list_all (\<lambda>r. \<not> route_matches r path) routes)"
proof (intro conjI impI)
  let ?path = "path_with pat args" and ?r = "(pat, declared, e)"
  note segs = split_path_with [OF assms(3,4)]
  have m: "route_matches ?r ?path" using fill_matches [OF assms(3,4)] by (simp add: route_matches_def segs)
  assume free: "\<not> (e = H_attestations_by_attestor_set \<and> args = [''by-member''])"
  have shadow: "split_on (CHR ''/'') ?path ! 3 \<noteq> ''by-member''" if "e = H_attestations_by_attestor_set"
  proof -
    have p: "pat = ''/v1/attestor-sets/{id}/attestations''" using overlapping_routes(2) [OF assms(2) that] .
    with assms(3) obtain a where "args = [a]" by (auto simp: overlapping_patterns length_Suc_conv)
    with free that p show ?thesis unfolding segs by (simp add: overlapping_patterns)
  qed
  have "lookup routes ?path = Some ?r"
  proof (rule path_router.lookup_best [OF assms(1,2) m])
    fix r' assume "r' \<in> set routes" "route_matches r' ?path" "r' \<noteq> ?r"
    then show "more_specific (pattern_of (fst ?r)) (pattern_of (fst r'))"
      using route_wins [OF assms(2), of r' ?path] m shadow by auto
  qed
  then show "dispatch lookup asked ?path =
      (if serves declared asked then Call e (zip (capture_names (pattern_of pat)) args) else Method_not_allowed)"
    by (simp add: dispatch_def segs captured_fill [OF assms(3)])
next
  let ?path = "path_with ''/v1/attestor-sets/{id}/attestations'' [''by-member'']"
  let ?r = "(''/v1/attestor-sets/by-member/{pubkey}'', GET, H_attestor_sets_by_member)"
  have segs: "split_on (CHR ''/'') ?path = [[], ''v1'', ''attestor-sets'', ''by-member'', ''attestations'']"
    by (simp add: path_with_def overlapping_patterns)
  have r: "?r \<in> set routes" by (simp add: routes_def)
  have m: "route_matches ?r ?path" by (simp add: route_matches_def overlapping_patterns segs)
  have "lookup routes ?path = Some ?r"
    by (rule path_router.lookup_best [OF assms(1) r m], rule route_wins [OF r _ _ m]) simp_all
  then show "dispatch lookup GET ?path = Call H_attestor_sets_by_member [(''pubkey'', ''attestations'')]"
    by (simp add: dispatch_def serves_def segs overlapping_patterns)
next
  show "dispatch lookup asked path = No_route \<longleftrightarrow> list_all (\<lambda>r. \<not> route_matches r path) routes"
    using path_router.missed [OF assms(1), of routes path] path_router.found [OF assms(1), of routes path]
    by (auto simp: dispatch_def list_all_iff split: option.split)
qed

theorem routes_dispatch_witness:
  "dispatch scan HEAD ''/v1/addresses/lig1a/txs'' = Call H_address_txs [(''addr'', ''lig1a'')] \<and>
   dispatch scan POST ''/v1/addresses/lig1a/txs'' = Method_not_allowed \<and>
   dispatch scan GET ''/v1/drip/'' = No_route"
proof -
  have r: "(''/v1/addresses/{addr}/txs'', GET, H_address_txs) \<in> set routes" by (simp add: routes_def)
  have p: "pattern_of ''/v1/addresses/{addr}/txs'' = [Lit [], Lit ''v1'', Lit ''addresses'', Cap ''addr'', Lit ''txs'']"
    by (simp add: pattern_of_def segment_of_def)
  have a: "list_all arg_ok [''lig1a'']" by (simp add: arg_ok_def)
  have l: "length [''lig1a''] = length (capture_names (pattern_of ''/v1/addresses/{addr}/txs''))" by (simp add: p)
  have w: "path_with ''/v1/addresses/{addr}/txs'' [''lig1a''] = ''/v1/addresses/lig1a/txs''"
    by (simp add: path_with_def p)
  have none: "list_all (\<lambda>r. \<not> route_matches r ''/v1/drip/'') routes"
    by (simp add: routes_def route_matches_def pattern_of_def segment_of_def)
  show ?thesis
    using routes_dispatch [OF scan.path_router_axioms r l a, of HEAD "''/v1/drip/''"]
      routes_dispatch [OF scan.path_router_axioms r l a, of POST "''/v1/drip/''"]
      routes_dispatch [OF scan.path_router_axioms r l a, of GET "''/v1/drip/''"] none
    unfolding w by (simp add: serves_def p)
qed

end
