(* ===== verification/Cooldown.thy ===== *)
theory Cooldown
  imports Prelude
begin

text \<open>
  The contract both faucets rely on: a cooldown gate that answers whether a key may be served at
  an instant and marks every grant. The web faucet implements it with an in-memory map
  (\<^verbatim>\<open>crates/drip/src/ratelimit.rs\<close>), the Discord faucet with two lookups in the
  \<^verbatim>\<open>bot_drips\<close> table (\<^verbatim>\<open>crates/api/src/bot_drip.rs\<close>); the response caches
  of the read side are such gates for their computations. The consequence proved once here is that
  grants made one after another to the same key are at least one window of that key apart.
\<close>

text \<open>
  A sequential history of grants: each grant \<open>(d, tc, tr)\<close> was checked at \<open>tc\<close> in the state the
  earlier grants left and marked at \<open>tr\<close>, and no grant starts before the previous one is marked.
\<close>

fun grants_ok ::
  "('d \<Rightarrow> 'k) \<Rightarrow> ('s \<Rightarrow> 'k \<Rightarrow> nat \<Rightarrow> bool) \<Rightarrow> ('d \<Rightarrow> nat \<Rightarrow> 's \<Rightarrow> 's) \<Rightarrow>
   nat \<Rightarrow> 's \<Rightarrow> ('d \<times> nat \<times> nat) list \<Rightarrow> bool" where
  "grants_ok key allowed mark t s [] = True"
| "grants_ok key allowed mark t s ((d, tc, tr) # gs) =
     (t \<le> tc \<and> tc \<le> tr \<and> allowed s (key d) tc \<and> grants_ok key allowed mark tr (mark d tr s) gs)"

definition spaced :: "('d \<Rightarrow> 'k) \<Rightarrow> ('k \<Rightarrow> nat) \<Rightarrow> 'd \<times> nat \<times> nat \<Rightarrow> 'd \<times> nat \<times> nat \<Rightarrow> bool" where
  "spaced key w g g' \<longleftrightarrow> key (fst g) = key (fst g') \<longrightarrow> snd (snd g) + w (key (fst g)) \<le> fst (snd g')"

locale cooldown_gate =
  fixes key :: "'d \<Rightarrow> 'k"
    and allowed :: "'s \<Rightarrow> 'k \<Rightarrow> nat \<Rightarrow> bool"
    and mark :: "'d \<Rightarrow> nat \<Rightarrow> 's \<Rightarrow> 's"
    and window :: "'s \<Rightarrow> 'k \<Rightarrow> nat"
  assumes mark_window: "window (mark d t s) = window s"
    and mark_blocks: "t \<le> t' \<Longrightarrow> t' < t + window s (key d) \<Longrightarrow> \<not> allowed (mark d t s) (key d) t'"
    and mark_clears:
      "allowed s (key d) tc \<Longrightarrow> tc \<le> t \<Longrightarrow> t + window s (key d) \<le> t' \<Longrightarrow> allowed (mark d t s) (key d) t'"
    and mark_other: "key d \<noteq> k \<Longrightarrow> allowed (mark d t s) k t' = allowed s k t'"
begin

lemma blocked_until:
  assumes "grants_ok key allowed mark t s gs"
    and "\<And>t'. t \<le> t' \<Longrightarrow> t' < b \<Longrightarrow> \<not> allowed s k t'"
    and "(d, tc, tr) \<in> set gs" and "key d = k"
  shows "b \<le> tc"
  using assms
proof (induction gs arbitrary: t s)
  case Nil
  then show ?case by simp
next
  case (Cons g gs)
  obtain d0 tc0 tr0 where g: "g = (d0, tc0, tr0)" by (cases g) auto
  from Cons.prems(1) have ord: "t \<le> tc0" "tc0 \<le> tr0" and al: "allowed s (key d0) tc0"
    and rest: "grants_ok key allowed mark tr0 (mark d0 tr0 s) gs"
    by (simp_all add: g)
  consider (here) "(d, tc, tr) = g" | (there) "(d, tc, tr) \<in> set gs"
    using Cons.prems(3) by auto
  then show ?case
  proof cases
    case here
    then have "\<not> tc < b"
      using Cons.prems(2) [of tc0] Cons.prems(4) al ord g by auto
    then show ?thesis by simp
  next
    case there
    show ?thesis
    proof (cases "key d0 = k")
      case True
      with Cons.prems(2) [of tc0] al ord have "\<not> tc0 < b" by auto
      then have "b \<le> tc0" by simp
      moreover have "\<not> allowed (mark d0 tr0 s) k t'" if "tr0 \<le> t'" "t' < b" for t'
        using that \<open>b \<le> tc0\<close> ord by simp
      ultimately show ?thesis
        using Cons.IH [OF rest _ there Cons.prems(4)] by blast
    next
      case False
      have "\<not> allowed (mark d0 tr0 s) k t'" if "tr0 \<le> t'" "t' < b" for t'
        using Cons.prems(2) [of t'] that ord mark_other [OF False] by simp
      then show ?thesis
        using Cons.IH [OF rest _ there Cons.prems(4)] by blast
    qed
  qed
qed

lemma grants_spaced:
  assumes "grants_ok key allowed mark t s gs"
  shows "sorted_wrt (spaced key (window s)) gs"
  using assms
proof (induction gs arbitrary: t s)
  case Nil
  then show ?case by simp
next
  case (Cons g gs)
  obtain d tc tr where g: "g = (d, tc, tr)" by (cases g) auto
  with Cons.prems have rest: "grants_ok key allowed mark tr (mark d tr s) gs" by simp
  have "spaced key (window s) g g'" if g': "g' \<in> set gs" for g'
  proof -
    obtain d' tc' tr' where e: "g' = (d', tc', tr')" by (cases g') auto
    have "tr + window s (key d) \<le> tc'" if "key d' = key d"
      using blocked_until [OF rest, of "tr + window s (key d)" "key d" d' tc' tr'] g' that
        mark_blocks [of tr _ s d] by (auto simp: e)
    then show ?thesis by (auto simp: spaced_def g e)
  qed
  then show ?case
    using Cons.IH [OF rest] by (simp add: mark_window)
qed

end

end
