(* ===== verification/Table.thy ===== *)
theory Table
  imports Prelude
begin

text \<open>
  Keyed tables: a Postgres table (or a \<^verbatim>\<open>DashMap\<close>) is the list of its rows, and a
  unique key is a projection no two rows share. The three statements the sources issue against
  such a table are a lookup by key, \<^verbatim>\<open>UPDATE ... WHERE\<close>, and
  \<^verbatim>\<open>INSERT ... ON CONFLICT (key) DO UPDATE\<close>.
\<close>

named_theorems table_simps "lookups after the statements on keyed tables"

definition find_row :: "('r \<Rightarrow> 'k) \<Rightarrow> 'k \<Rightarrow> 'r list \<Rightarrow> 'r option" where
  "find_row key k rows = List.find (\<lambda>r. key r = k) rows"

definition update_where :: "('r \<Rightarrow> bool) \<Rightarrow> ('r \<Rightarrow> 'r) \<Rightarrow> 'r list \<Rightarrow> 'r list" where
  "update_where P f rows = map (\<lambda>r. if P r then f r else r) rows"

definition upsert :: "('r \<Rightarrow> 'k) \<Rightarrow> 'r \<Rightarrow> ('r \<Rightarrow> 'r) \<Rightarrow> 'r list \<Rightarrow> 'r list" where
  "upsert key new merge rows =
     (case find_row key (key new) rows of
        None \<Rightarrow> rows @ [new]
      | Some _ \<Rightarrow> update_where (\<lambda>r. key r = key new) merge rows)"

definition unique_key :: "('r \<Rightarrow> 'k) \<Rightarrow> 'r list \<Rightarrow> bool" where
  "unique_key key rows \<longleftrightarrow> distinct (map key rows)"

lemma find_row_Nil [simp]: "find_row key k [] = None"
  by (simp add: find_row_def)

lemma find_row_Cons [simp]:
  "find_row key k (r # rows) = (if key r = k then Some r else find_row key k rows)"
  by (simp add: find_row_def)

lemma find_row_append [table_simps]:
  "find_row key k (xs @ ys) = (case find_row key k xs of None \<Rightarrow> find_row key k ys | Some r \<Rightarrow> Some r)"
  by (induction xs) auto

lemma find_row_None [table_simps]: "find_row key k rows = None \<longleftrightarrow> k \<notin> key ` set rows"
  by (induction rows) auto

lemma find_row_SomeD: "find_row key k rows = Some r \<Longrightarrow> r \<in> set rows \<and> key r = k"
  by (induction rows) (auto split: if_splits)

lemma find_row_Some_iff:
  "unique_key key rows \<Longrightarrow> find_row key k rows = Some r \<longleftrightarrow> r \<in> set rows \<and> key r = k"
  by (induction rows) (force simp: unique_key_def)+

lemma update_where_Nil [simp]: "update_where P f [] = []"
  by (simp add: update_where_def)

lemma update_where_Cons [simp]:
  "update_where P f (r # rows) = (if P r then f r else r) # update_where P f rows"
  by (simp add: update_where_def)

lemma length_update_where [simp]: "length (update_where P f rows) = length rows"
  by (simp add: update_where_def)

lemma map_update_where:
  "(\<And>r. g (f r) = g r) \<Longrightarrow> map g (update_where P f rows) = map g rows"
  by (simp add: update_where_def)

lemma find_row_update_where [table_simps]:
  assumes "\<And>r. key (f r) = key r"
  shows "find_row key k (update_where P f rows) =
    map_option (\<lambda>r. if P r then f r else r) (find_row key k rows)"
  using assms by (induction rows) auto

lemma find_row_update_key [table_simps]:
  assumes "\<And>r. key r = i \<Longrightarrow> key (f r) = i"
  shows "find_row key j (update_where (\<lambda>r. key r = i) f rows) =
    (if j = i then map_option f (find_row key i rows) else find_row key j rows)"
  using assms by (induction rows) auto

lemma unique_key_update_where:
  "(\<And>r. key (f r) = key r) \<Longrightarrow> unique_key key (update_where P f rows) = unique_key key rows"
  by (simp add: unique_key_def map_update_where)

lemma find_row_upsert [table_simps]:
  assumes "\<And>r. key (merge r) = key r"
  shows "find_row key k (upsert key new merge rows) =
    (if k = key new
     then Some (case find_row key k rows of None \<Rightarrow> new | Some r \<Rightarrow> merge r)
     else find_row key k rows)"
proof (cases "find_row key (key new) rows")
  case None
  then show ?thesis
    by (auto simp: upsert_def find_row_append split: option.splits)
next
  case (Some r)
  then show ?thesis
    using assms find_row_SomeD [of key "key new" rows] find_row_SomeD [of key k rows]
    by (cases "find_row key k rows") (auto simp: upsert_def find_row_update_where)
qed

lemma unique_key_upsert:
  assumes "\<And>r. key (merge r) = key r" and "unique_key key rows"
  shows "unique_key key (upsert key new merge rows)"
  using assms
  by (auto simp: upsert_def unique_key_update_where find_row_None unique_key_def
      map_update_where image_iff split: option.splits)

lemma upsert_set_keys:
  assumes "\<And>r. key (merge r) = key r"
  shows "key ` set (upsert key new merge rows) = insert (key new) (key ` set rows)"
proof -
  have "key ` set rows' = {k. find_row key k rows' \<noteq> None}" for rows'
    by (auto simp: find_row_None)
  then show ?thesis
    using assms by (auto simp: find_row_upsert)
qed

lemma length_upsert:
  "length (upsert key new merge rows) =
     (if key new \<in> key ` set rows then length rows else Suc (length rows))"
proof (cases "find_row key (key new) rows")
  case None
  then have "key new \<notin> key ` set rows" by (simp add: find_row_None)
  with None show ?thesis by (simp add: upsert_def)
next
  case (Some r)
  then have "key new \<in> key ` set rows" by (metis find_row_None option.distinct(1))
  with Some show ?thesis by (simp add: upsert_def)
qed

lemma upsert_idem:
  assumes "\<And>r. key (merge r) = key r" and "merge new = new" and "\<And>r. merge (merge r) = merge r"
  shows "upsert key new merge (upsert key new merge rows) = upsert key new merge rows"
proof (cases "find_row key (key new) rows")
  case None
  then have "\<forall>r \<in> set rows. key r \<noteq> key new" by (metis find_row_None image_eqI)
  then have "update_where (\<lambda>r. key r = key new) merge rows = rows"
    by (auto simp: update_where_def map_idI)
  with None assms(2) show ?thesis
    by (simp add: upsert_def find_row_append update_where_def)
next
  case (Some r)
  have "update_where (\<lambda>r. key r = key new) merge (update_where (\<lambda>r. key r = key new) merge rows) =
      update_where (\<lambda>r. key r = key new) merge rows"
    using assms by (simp add: update_where_def)
  with Some assms(1) show ?thesis
    by (simp add: upsert_def find_row_update_where)
qed

text \<open>What holds of all rows, after a statement.\<close>

lemma upsert_members:
  "r \<in> set (upsert key new merge rows) \<Longrightarrow> r \<in> set rows \<or> r = new \<or> (\<exists>old \<in> set rows. r = merge old)"
  by (auto simp: upsert_def update_where_def split: option.splits if_splits)

lemma all_upsert:
  "\<forall>r \<in> set rows. Q r \<Longrightarrow> Q new \<Longrightarrow> (\<And>r. Q r \<Longrightarrow> Q (merge r)) \<Longrightarrow> \<forall>r \<in> set (upsert key new merge rows). Q r"
  by (auto dest!: upsert_members)

lemma all_update_where:
  "\<forall>r \<in> set rows. Q r \<Longrightarrow> (\<And>r. r \<in> set rows \<Longrightarrow> S r \<Longrightarrow> Q r \<Longrightarrow> Q (f r)) \<Longrightarrow>
     \<forall>r \<in> set (update_where S f rows). Q r"
  by (auto simp: update_where_def)

lemma update_where_keys:
  "(\<And>r. key (f r) = key r) \<Longrightarrow> key ` set (update_where S f rows) = key ` set rows"
  by (metis map_update_where set_map)

lemma unique_key_append1:
  "unique_key key (rows @ [r]) \<longleftrightarrow> unique_key key rows \<and> key r \<notin> key ` set rows"
  by (auto simp: unique_key_def)

end
