(* ===== verification/Ratelimit.thy ===== *)
theory Ratelimit
  imports Cooldown Table
begin

text \<open>
  The per-address rate limiter of the web faucet, \<^verbatim>\<open>crates/drip/src/ratelimit.rs\<close>.
  Instants and durations are nanosecond counts of the monotonic clock; the clock reading an
  operation takes is its argument \<open>now\<close>. The concurrent map is the list of its entries, one per
  address.
\<close>

type_synonym instant = nat
type_synonym duration = nat

record rate_limiter =
  last_drip :: "(string \<times> instant) list"
  rl_window :: duration

datatype rate_check = Allowed | Blocked (retry_after: duration)

definition rl_new :: "duration \<Rightarrow> rate_limiter" where
  "rl_new w = \<lparr>last_drip = [], rl_window = w\<rparr>"

text \<open>\<^verbatim>\<open>Instant::duration_since\<close> saturates at zero; so does subtraction on \<^typ>\<open>nat\<close>.\<close>

definition duration_since :: "instant \<Rightarrow> instant \<Rightarrow> duration" where
  "duration_since later earlier = later - earlier"

definition peek :: "rate_limiter \<Rightarrow> string \<Rightarrow> instant \<Rightarrow> rate_check" where
  "peek rl address now =
     (case find_row fst address (last_drip rl) of
        Some e \<Rightarrow>
          (let elapsed = duration_since now (snd e)
           in if elapsed \<ge> rl_window rl then Allowed else Blocked (rl_window rl - elapsed))
      | None \<Rightarrow> Allowed)"

definition check :: "rate_limiter \<Rightarrow> string \<Rightarrow> instant \<Rightarrow> rate_check" where
  "check rl address now =
     (case find_row fst address (last_drip rl) of
        Some e \<Rightarrow>
          (let elapsed = duration_since now (snd e)
           in if elapsed \<ge> rl_window rl then Allowed else Blocked (rl_window rl - elapsed))
      | None \<Rightarrow> Allowed)"

definition record_drip :: "string \<Rightarrow> instant \<Rightarrow> rate_limiter \<Rightarrow> rate_limiter" where
  "record_drip address now rl =
     rl\<lparr>last_drip := upsert fst (address, now) (\<lambda>e. (fst e, now)) (last_drip rl)\<rparr>"

definition drip_count :: "rate_limiter \<Rightarrow> nat" where
  "drip_count rl = length (last_drip rl)"

definition rl_wf :: "rate_limiter \<Rightarrow> bool" where
  "rl_wf rl \<longleftrightarrow> unique_key fst (last_drip rl)"

section \<open>Behaviour\<close>

definition rl_allowed :: "rate_limiter \<Rightarrow> string \<Rightarrow> instant \<Rightarrow> bool" where
  "rl_allowed rl address now \<longleftrightarrow> check rl address now = Allowed"

lemma rl_wf_new [simp]: "rl_wf (rl_new w)"
  by (simp add: rl_wf_def rl_new_def unique_key_def)

lemma rl_wf_record: "rl_wf rl \<Longrightarrow> rl_wf (record_drip a t rl)"
  by (simp add: rl_wf_def record_drip_def unique_key_upsert)

lemma rl_window_record [simp]: "rl_window (record_drip a t rl) = rl_window rl"
  by (simp add: record_drip_def)

lemma find_last_drip_record:
  "find_row fst a' (last_drip (record_drip a t rl)) =
     (if a' = a then Some (a, t) else find_row fst a' (last_drip rl))"
  by (auto simp: record_drip_def find_row_upsert dest: find_row_SomeD split: option.splits)

lemma check_record_same:
  "check (record_drip a t rl) a now =
     (if t + rl_window rl \<le> now \<or> rl_window rl = 0 then Allowed
      else Blocked (rl_window rl - (now - t)))"
  by (auto simp: check_def find_last_drip_record duration_since_def Let_def)

lemma check_record_other:
  "a' \<noteq> a \<Longrightarrow> check (record_drip a t rl) a' now = check rl a' now"
  by (simp add: check_def find_last_drip_record Let_def split: option.split)

lemma peek_eq_check: "peek rl a now = check rl a now"
  by (simp add: peek_def check_def)

definition recorded_before :: "rate_limiter \<Rightarrow> instant \<Rightarrow> bool" where
  "recorded_before rl now \<longleftrightarrow> (\<forall>e \<in> set (last_drip rl). snd e \<le> now)"

lemma recorded_before_record:
  "recorded_before rl t \<Longrightarrow> t \<le> t' \<Longrightarrow> recorded_before (record_drip a t rl) t'"
  by (auto simp: recorded_before_def record_drip_def upsert_def update_where_def
      split: option.splits if_splits)

lemma check_Blocked_bounds:
  assumes "check rl a now = Blocked r" and "recorded_before rl now"
  shows "0 < r \<and> r \<le> rl_window rl \<and> check rl a (now + r) = Allowed \<and>
    (\<forall>t. now \<le> t \<and> t < now + r \<longrightarrow> check rl a t = Blocked (r - (t - now)))"
proof -
  from assms(1) obtain e where e: "find_row fst a (last_drip rl) = Some e"
    and lt: "now - snd e < rl_window rl" and r: "r = rl_window rl - (now - snd e)"
    by (auto simp: check_def duration_since_def Let_def split: option.splits if_splits)
  have "snd e \<le> now"
    using assms(2) find_row_SomeD [OF e] by (auto simp: recorded_before_def)
  with e lt r show ?thesis
    by (auto simp: check_def duration_since_def Let_def)
qed

lemma drip_count_record:
  "drip_count (record_drip a t rl) =
     (if a \<in> fst ` set (last_drip rl) then drip_count rl else Suc (drip_count rl))"
  by (simp add: drip_count_def record_drip_def length_upsert)

section \<open>The limiter is a cooldown gate\<close>

interpretation web: cooldown_gate "\<lambda>a. a" rl_allowed record_drip "\<lambda>rl _. rl_window rl"
  by unfold_locales (auto simp: rl_allowed_def check_record_same check_record_other)

end
