(* ===== verification/Signer.thy ===== *)
theory Signer
  imports Prelude
begin

text \<open>
  The hot-key signer of the faucet, \<^verbatim>\<open>crates/drip/src/signer.rs\<close>. The chain SDK it
  wraps (key parsing, address parsing, signing, borsh encoding, submission, the node's HTTP
  answers) is not part of the repository: it is the record of functions \<open>sdk\<close> every operation
  takes. The atomic nonce counter is a 64-bit word that \<^verbatim>\<open>fetch_add\<close> wraps.
\<close>

section \<open>Data\<close>

datatype signer_error =
    InvalidAddress string
  | InvalidSignerKey string
  | SubmitFailed string

record drip_receipt =
  rc_tx_hash :: string
  rc_amount_nano :: nat

text \<open>The unsigned envelope: a \<^verbatim>\<open>bank.transfer\<close> with its fees, nonce and gas limit.\<close>

record 'addr unsigned_tx =
  tx_to :: 'addr
  tx_amount :: nat
  tx_token_id :: "u8 list"
  tx_chain_id :: u64
  tx_max_priority_fee_bips :: nat
  tx_max_fee :: nat
  tx_nonce :: u64
  tx_gas_limit :: "(nat \<times> nat) option"

record ('key, 'addr) sdk =
  hex_decode :: "string \<Rightarrow> (string, u8 list) result"
  key_try_from :: "u8 list \<Rightarrow> (string, 'key) result"
  addr_from_str :: "string \<Rightarrow> (string, 'addr) result"
  addr_of_key :: "'key \<Rightarrow> string"
  sign_and_encode :: "'key \<Rightarrow> u8 list \<Rightarrow> 'addr unsigned_tx \<Rightarrow> (string, u8 list) result"
  submit_raw_tx :: "u8 list \<Rightarrow> (string, string) result"
  get_nonce_for_key :: "'key \<Rightarrow> (string, u64) result"

record 'key signer =
  private_key :: 'key
  chain_rpc_with_v1 :: string
  sg_chain_hash :: "u8 list"
  sg_chain_id :: u64
  avow_token_id :: "u8 list"
  nonce :: u64

definition DEFAULT_MAX_FEE_NANO :: nat where
  "DEFAULT_MAX_FEE_NANO = 100000000"

section \<open>Construction\<close>

definition normalise_rpc :: "string \<Rightarrow> string" where
  "normalise_rpc chain_rpc =
     (let trimmed = trim_end_matches (CHR ''/'') chain_rpc
      in if ends_with ''/v1'' trimmed then trimmed else trimmed @ ''/v1'')"

definition signer_new ::
  "('key, 'addr) sdk \<Rightarrow> string \<Rightarrow> string \<Rightarrow> u64 \<Rightarrow> u8 list \<Rightarrow> u8 list \<Rightarrow> u64 \<Rightarrow>
   (signer_error, 'key signer) result" where
  "signer_new S signing_key_hex chain_rpc cid chash token starting_nonce =
     (if length signing_key_hex \<noteq> 64
      then Inl (InvalidSignerKey (''expected 64 hex chars, got '' @ show_nat (length signing_key_hex)))
      else case hex_decode S signing_key_hex of
        Inl e \<Rightarrow> Inl (InvalidSignerKey (''hex decode: '' @ e))
      | Inr key_bytes \<Rightarrow>
        (case key_try_from S key_bytes of
           Inl e \<Rightarrow> Inl (InvalidSignerKey (''key shape: '' @ e))
         | Inr key \<Rightarrow>
             Inr \<lparr>private_key = key, chain_rpc_with_v1 = normalise_rpc chain_rpc,
                  sg_chain_hash = chash, sg_chain_id = cid, avow_token_id = token,
                  nonce = starting_nonce\<rparr>))"

text \<open>
  The seeded constructor: the nonce is the operator's override, or else the chain's. Its errors are
  the rendered text of the underlying one (\<^verbatim>\<open>anyhow::Error\<close>).
\<close>

definition signer_error_text :: "signer_error \<Rightarrow> string" where
  "signer_error_text e =
     (case e of
        InvalidAddress m \<Rightarrow> ''invalid recipient address: '' @ m
      | InvalidSignerKey m \<Rightarrow> ''invalid signer key: '' @ m
      | SubmitFailed m \<Rightarrow> ''chain submission failed: '' @ m)"

definition new_with_chain_seed ::
  "('key, 'addr) sdk \<Rightarrow> string \<Rightarrow> string \<Rightarrow> u64 \<Rightarrow> u8 list \<Rightarrow> u8 list \<Rightarrow> u64 option \<Rightarrow>
   (string, 'key signer \<times> u64) result" where
  "new_with_chain_seed S signing_key_hex chain_rpc cid chash token override =
     (case signer_new S signing_key_hex chain_rpc cid chash token 0 of
        Inl e \<Rightarrow> Inl (signer_error_text e)
      | Inr sg \<Rightarrow>
        (case (case override of
                 Some n \<Rightarrow> Inr n
               | None \<Rightarrow> get_nonce_for_key S (private_key sg)) of
           Inl e \<Rightarrow> Inl (''fetching on-chain nonce at signer init: '' @ e)
         | Inr resolved \<Rightarrow> Inr (sg\<lparr>nonce := resolved\<rparr>, resolved)))"

definition signer_address :: "('key, 'addr) sdk \<Rightarrow> 'key signer \<Rightarrow> string" where
  "signer_address S sg = addr_of_key S (private_key sg)"

section \<open>Drip\<close>

text \<open>\<^verbatim>\<open>self.nonce.fetch_add(1, SeqCst)\<close>: the old value, and the counter advanced.\<close>

definition fetch_add_nonce :: "'key signer \<Rightarrow> u64 \<times> 'key signer" where
  "fetch_add_nonce sg = (nonce sg, sg\<lparr>nonce := nonce sg + 1\<rparr>)"

definition build_unsigned :: "'key signer \<Rightarrow> 'addr \<Rightarrow> nat \<Rightarrow> u64 \<Rightarrow> 'addr unsigned_tx" where
  "build_unsigned sg to amount n =
     \<lparr>tx_to = to, tx_amount = amount, tx_token_id = avow_token_id sg, tx_chain_id = sg_chain_id sg,
      tx_max_priority_fee_bips = 0, tx_max_fee = DEFAULT_MAX_FEE_NANO, tx_nonce = n,
      tx_gas_limit = None\<rparr>"

definition signer_drip ::
  "('key, 'addr) sdk \<Rightarrow> string \<Rightarrow> nat \<Rightarrow> 'key signer \<Rightarrow>
   (signer_error, drip_receipt) result \<times> 'key signer" where
  "signer_drip S recipient amount sg =
     (case addr_from_str S recipient of
        Inl e \<Rightarrow> (Inl (InvalidAddress (recipient @ '': '' @ e)), sg)
      | Inr to \<Rightarrow>
        (let (n, sg') = fetch_add_nonce sg
         in case sign_and_encode S (private_key sg) (sg_chain_hash sg) (build_unsigned sg to amount n) of
              Inl e \<Rightarrow> (Inl (SubmitFailed (''encoding signed tx: '' @ e)), sg')
            | Inr bytes \<Rightarrow>
              (case submit_raw_tx S bytes of
                 Inl e \<Rightarrow> (Inl (SubmitFailed (''submit: '' @ e)), sg')
               | Inr h \<Rightarrow> (Inr \<lparr>rc_tx_hash = h, rc_amount_nano = amount\<rparr>, sg'))))"

text \<open>
  The best-effort inclusion poll that follows a submission. Iteration \<open>i\<close> reads the elapsed time
  \<open>fst (polls i)\<close> in milliseconds and, when the deadline has not passed, the node's answer
  \<open>snd (polls i)\<close>; the fuel counts iterations and \<^const>\<open>None\<close> is a poll still running. The
  caller discards the result, so it is not part of \<^const>\<open>signer_drip\<close>.
\<close>

definition MAX_WAIT_MS :: nat where
  "MAX_WAIT_MS = 12000"

definition POLL_INTERVAL_MS :: nat where
  "POLL_INTERVAL_MS = 500"

fun wait_for_inclusion ::
  "(nat \<Rightarrow> nat \<times> (string, string) result) \<Rightarrow> string \<Rightarrow> nat \<Rightarrow> nat \<Rightarrow>
   (signer_error, unit) result option" where
  "wait_for_inclusion polls h i 0 = None"
| "wait_for_inclusion polls h i (Suc fuel) =
     (if fst (polls i) > MAX_WAIT_MS
      then Some (Inl (SubmitFailed (''timed out waiting for tx '' @ h)))
      else case snd (polls i) of
             Inr body \<Rightarrow>
               if trim body \<noteq> [] then Some (Inr ()) else wait_for_inclusion polls h (Suc i) fuel
           | Inl _ \<Rightarrow> wait_for_inclusion polls h (Suc i) fuel)"

definition polls_advance :: "(nat \<Rightarrow> nat \<times> (string, string) result) \<Rightarrow> bool" where
  "polls_advance polls \<longleftrightarrow> (\<forall>i. fst (polls i) + POLL_INTERVAL_MS \<le> fst (polls (Suc i)))"

section \<open>Lemmas\<close>

lemma normalise_rpc_ends: "ends_with ''/v1'' (normalise_rpc u)"
  by (simp add: normalise_rpc_def Let_def)

lemma trim_end_normalised:
  assumes "ends_with ''/v1'' s"
  shows "trim_end_matches (CHR ''/'') s = s"
proof -
  from assms obtain t where "rev s = rev ''/v1'' @ t"
    unfolding ends_with_def starts_with_iff by blast
  then have "s = rev (rev ''/v1'' @ t)"
    by (metis rev_rev_ident)
  then show ?thesis
    by (simp add: trim_end_matches_def)
qed

lemma normalise_rpc_idem: "normalise_rpc (normalise_rpc u) = normalise_rpc u"
  using normalise_rpc_ends [of u]
  by (simp add: normalise_rpc_def [of "normalise_rpc u"] trim_end_normalised)

lemma signer_drip_frame:
  "private_key (snd (signer_drip S r a sg)) = private_key sg"
  "sg_chain_id (snd (signer_drip S r a sg)) = sg_chain_id sg"
  "avow_token_id (snd (signer_drip S r a sg)) = avow_token_id sg"
  by (auto simp: signer_drip_def fetch_add_nonce_def Let_def split: sum.splits)

lemma signer_drip_receipt:
  "fst (signer_drip S r a sg) = Inr rc \<Longrightarrow> rc_amount_nano rc = a"
  by (auto simp: signer_drip_def fetch_add_nonce_def Let_def split: sum.splits)

lemma signer_drip_nonce:
  "nonce (snd (signer_drip S r a sg)) =
     (case addr_from_str S r of Inl _ \<Rightarrow> nonce sg | Inr _ \<Rightarrow> nonce sg + 1)"
  by (auto simp: signer_drip_def fetch_add_nonce_def Let_def split: sum.splits)

lemma signer_drip_not_key_error:
  "fst (signer_drip S r a sg) \<noteq> Inl (InvalidSignerKey m)"
  by (auto simp: signer_drip_def fetch_add_nonce_def Let_def split: sum.splits)

lemma polls_advance_lower: "polls_advance polls \<Longrightarrow> i * POLL_INTERVAL_MS \<le> fst (polls i)"
proof (induction i)
  case 0
  then show ?case by simp
next
  case (Suc i)
  then have "fst (polls i) + POLL_INTERVAL_MS \<le> fst (polls (Suc i))"
    by (auto simp: polls_advance_def)
  with Suc show ?case by simp
qed

lemma wait_for_inclusion_returns_from:
  "polls_advance polls \<Longrightarrow> 25 < i + fuel \<Longrightarrow> i \<le> 25 \<Longrightarrow>
   \<exists>r. wait_for_inclusion polls h i fuel = Some r"
proof (induction fuel arbitrary: i)
  case 0
  then show ?case by simp
next
  case (Suc fuel)
  show ?case
  proof (cases "i = 25")
    case True
    with polls_advance_lower [OF Suc.prems(1), of i] show ?thesis
      by (simp add: MAX_WAIT_MS_def POLL_INTERVAL_MS_def)
  next
    case False
    with Suc.prems have "\<exists>r. wait_for_inclusion polls h (Suc i) fuel = Some r"
      by (intro Suc.IH) auto
    then show ?thesis by (auto split: sum.splits)
  qed
qed

section \<open>A concrete signer\<close>

definition demo_sdk :: "(unit, string) sdk" where
  "demo_sdk =
     \<lparr>hex_decode = (\<lambda>s. Inr []), key_try_from = (\<lambda>b. Inr ()),
      addr_from_str = (\<lambda>s. if s = [] then Inl ''empty'' else Inr s), addr_of_key = (\<lambda>_. ''lig1f''),
      sign_and_encode = (\<lambda>k h u. Inr []), submit_raw_tx = (\<lambda>b. Inr ''ltx1''),
      get_nonce_for_key = (\<lambda>k. Inr 7)\<rparr>"

definition demo_signer :: "unit signer" where
  "demo_signer =
     \<lparr>private_key = (), chain_rpc_with_v1 = ''/v1'', sg_chain_hash = [], sg_chain_id = 4242,
      avow_token_id = [], nonce = 7\<rparr>"

end
