(* ===== verification/Faucet.thy ===== *)
theory Faucet
  imports Ratelimit Signer
begin

text \<open>
  The web faucet endpoints of \<^verbatim>\<open>crates/api/src/handlers.rs\<close>: \<^verbatim>\<open>POST /v1/drip\<close>
  and \<^verbatim>\<open>GET /v1/drip/status\<close>, over the rate limiter and the signer. The first part is
  the handler as one call; the second is the handler as the runtime interleaves it, with the rate
  check, the nonce reservation, the submission and the recording as separate steps. The
  floating-point convenience fields of the responses are left out.
\<close>

section \<open>The handler as one call\<close>

record drip_response =
  dr_address :: string
  dr_tx_hash :: string
  dr_amount_nano :: nat

record error_response =
  er_status :: nat
  er_error :: string
  er_retry_after_secs :: "nat option"

definition as_secs :: "duration \<Rightarrow> nat" where
  "as_secs d = d div 1000000000"

definition map_signer_error :: "signer_error \<Rightarrow> error_response" where
  "map_signer_error e =
     (case e of
        InvalidAddress msg \<Rightarrow>
          \<lparr>er_status = 400, er_error = msg, er_retry_after_secs = None\<rparr>
      | InvalidSignerKey msg \<Rightarrow>
          \<lparr>er_status = 500, er_error = ''operator misconfig: '' @ msg, er_retry_after_secs = None\<rparr>
      | SubmitFailed msg \<Rightarrow>
          \<lparr>er_status = 502, er_error = ''chain submission failed: '' @ msg, er_retry_after_secs = None\<rparr>)"

text \<open>The clock is read at the rate check (\<open>tc\<close>) and again when the grant is recorded (\<open>tr\<close>).\<close>

definition drip ::
  "('key, 'addr) sdk \<Rightarrow> nat \<Rightarrow> string \<Rightarrow> instant \<Rightarrow> instant \<Rightarrow> rate_limiter \<times> 'key signer \<Rightarrow>
   (error_response, drip_response) result \<times> rate_limiter \<times> 'key signer" where
  "drip S drip_amount address tc tr st =
     (case check (fst st) address tc of
        Blocked r \<Rightarrow>
          (Inl \<lparr>er_status = 429,
                er_error = ''address rate-limited; retry in '' @ show_nat (as_secs r) @ '' seconds'',
                er_retry_after_secs = Some (as_secs r)\<rparr>, st)
      | Allowed \<Rightarrow>
          (case signer_drip S address drip_amount (snd st) of
             (Inl e, sg') \<Rightarrow> (Inl (map_signer_error e), fst st, sg')
           | (Inr rc, sg') \<Rightarrow>
               (Inr \<lparr>dr_address = address, dr_tx_hash = rc_tx_hash rc, dr_amount_nano = rc_amount_nano rc\<rparr>,
                record_drip address tr (fst st), sg')))"

text \<open>
  The status endpoint. The per-address branch is taken for a non-empty \<^verbatim>\<open>address\<close>
  parameter; \<open>next_drip_at\<close> is the wall-clock reading plus the residual cooldown, both in
  nanoseconds here (the response renders it as RFC 3339).
\<close>

datatype drip_status_body =
    Global (gs_drip_amount: nat) (gs_rate_limit_secs: nat) (gs_addresses_dripped: nat) (gs_faucet_address: string)
  | PerAddress (pa_can_drip: bool) (pa_next_drip_at: "nat option")

definition drip_status ::
  "nat \<Rightarrow> nat \<Rightarrow> string \<Rightarrow> string option \<Rightarrow> instant \<Rightarrow> nat \<Rightarrow> rate_limiter \<Rightarrow> drip_status_body" where
  "drip_status drip_amount rate_limit_secs faucet_address param now wall rl =
     (case param of
        Some addr \<Rightarrow>
          if addr \<noteq> [] then
            (case peek rl addr now of
               Allowed \<Rightarrow> PerAddress True None
             | Blocked r \<Rightarrow> PerAddress False (Some (wall + r)))
          else Global drip_amount rate_limit_secs (drip_count rl) faucet_address
      | None \<Rightarrow> Global drip_amount rate_limit_secs (drip_count rl) faucet_address)"

text \<open>Requests handled one after another, with the grants they produced.\<close>

fun serve ::
  "('key, 'addr) sdk \<Rightarrow> nat \<Rightarrow> (string \<times> instant \<times> instant) list \<Rightarrow> rate_limiter \<times> 'key signer \<Rightarrow>
   (string \<times> instant \<times> instant) list \<times> rate_limiter \<times> 'key signer" where
  "serve S amt [] st = ([], st)"
| "serve S amt ((a, tc, tr) # rs) st =
     (case drip S amt a tc tr st of
        (r, st') \<Rightarrow>
          (case serve S amt rs st' of
             (gs, st'') \<Rightarrow> (case r of Inr _ \<Rightarrow> ((a, tc, tr) # gs, st'') | Inl _ \<Rightarrow> (gs, st''))))"

fun requests_ordered :: "instant \<Rightarrow> (string \<times> instant \<times> instant) list \<Rightarrow> bool" where
  "requests_ordered t [] = True"
| "requests_ordered t ((a, tc, tr) # rs) = (t \<le> tc \<and> tc \<le> tr \<and> requests_ordered tr rs)"

lemma drip_Inr_iff:
  "(\<exists>r. fst (drip S amt a tc tr st) = Inr r) \<longleftrightarrow>
     rl_allowed (fst st) a tc \<and> (\<exists>rc. fst (signer_drip S a amt (snd st)) = Inr rc)"
  by (auto simp: drip_def rl_allowed_def split: rate_check.splits prod.splits sum.splits)

lemma drip_limiter:
  "fst (snd (drip S amt a tc tr st)) =
     (case fst (drip S amt a tc tr st) of
        Inr _ \<Rightarrow> record_drip a tr (fst st) | Inl _ \<Rightarrow> fst st)"
  by (auto simp: drip_def split: rate_check.splits prod.splits sum.splits)

lemma grants_ok_weaken:
  "grants_ok key al mark t s gs \<Longrightarrow> t' \<le> t \<Longrightarrow> grants_ok key al mark t' s gs"
  by (cases gs) auto

lemma serve_grants_ok:
  "requests_ordered t rs \<Longrightarrow> grants_ok (\<lambda>a. a) rl_allowed record_drip t (fst st) (fst (serve S amt rs st))"
proof (induction rs arbitrary: t st)
  case Nil
  then show ?case by simp
next
  case (Cons q rs)
  obtain a tc tr where q: "q = (a, tc, tr)" by (cases q) auto
  obtain r st' where d: "drip S amt a tc tr st = (r, st')" by (cases "drip S amt a tc tr st") auto
  have IH: "grants_ok (\<lambda>a. a) rl_allowed record_drip tr (fst st') (fst (serve S amt rs st'))"
    using Cons by (simp add: q)
  have lim: "fst st' = (case r of Inr _ \<Rightarrow> record_drip a tr (fst st) | Inl _ \<Rightarrow> fst st)"
    using drip_limiter [of S amt a tc tr st] by (simp add: d)
  show ?case
  proof (cases r)
    case (Inl e)
    with IH lim Cons.prems show ?thesis
      by (auto simp: q d split: prod.splits intro: grants_ok_weaken)
  next
    case (Inr ok)
    then have "rl_allowed (fst st) a tc"
      using drip_Inr_iff [of S amt a tc tr st] by (auto simp: d)
    with Inr IH lim Cons.prems show ?thesis
      by (auto simp: q d split: prod.splits)
  qed
qed

lemma web_serve_spaced:
  "requests_ordered t rs \<Longrightarrow>
   sorted_wrt (spaced (\<lambda>a. a) (\<lambda>_. rl_window (fst st))) (fst (serve S amt rs st))"
  by (rule web.grants_spaced [OF serve_grants_ok])

section \<open>The handler as interleaved steps\<close>

text \<open>
  Requests run as tasks on a multi-threaded runtime, so the steps of different requests interleave.
  A task that passed the rate check reserves a nonce, submits, and records the grant; time passes
  between any two steps. The log \<open>issued\<close> keeps every nonce handed out and \<open>submitted\<close> every
  transfer the chain accepted, with the instant of its acceptance.
\<close>

datatype task =
    NotStarted
  | Checked string
  | Reserved string u64
  | Accepted string
  | Finished

record faucet_sys =
  fs_now :: instant
  fs_limiter :: rate_limiter
  fs_nonce :: u64
  fs_tasks :: "nat \<Rightarrow> task"
  fs_issued :: "u64 list"
  fs_submitted :: "(string \<times> instant) list"

definition faucet_init :: "duration \<Rightarrow> u64 \<Rightarrow> faucet_sys" where
  "faucet_init w n =
     \<lparr>fs_now = 0, fs_limiter = rl_new w, fs_nonce = n, fs_tasks = (\<lambda>_. NotStarted),
      fs_issued = [], fs_submitted = []\<rparr>"

inductive faucet_step :: "(string \<Rightarrow> bool) \<Rightarrow> faucet_sys \<Rightarrow> faucet_sys \<Rightarrow> bool"
  for valid_addr :: "string \<Rightarrow> bool" where
  tick: "faucet_step valid_addr s (s\<lparr>fs_now := fs_now s + d\<rparr>)"
| check_ok:
    "fs_tasks s i = NotStarted \<Longrightarrow> check (fs_limiter s) a (fs_now s) = Allowed \<Longrightarrow>
     faucet_step valid_addr s (s\<lparr>fs_tasks := (fs_tasks s)(i := Checked a)\<rparr>)"
| check_blocked:
    "fs_tasks s i = NotStarted \<Longrightarrow> check (fs_limiter s) a (fs_now s) = Blocked r \<Longrightarrow>
     faucet_step valid_addr s (s\<lparr>fs_tasks := (fs_tasks s)(i := Finished)\<rparr>)"
| bad_address:
    "fs_tasks s i = Checked a \<Longrightarrow> \<not> valid_addr a \<Longrightarrow>
     faucet_step valid_addr s (s\<lparr>fs_tasks := (fs_tasks s)(i := Finished)\<rparr>)"
| reserve:
    "fs_tasks s i = Checked a \<Longrightarrow> valid_addr a \<Longrightarrow>
     faucet_step valid_addr s
       (s\<lparr>fs_tasks := (fs_tasks s)(i := Reserved a (fs_nonce s)),
          fs_nonce := fs_nonce s + 1, fs_issued := fs_issued s @ [fs_nonce s]\<rparr>)"
| submit_failed:
    "fs_tasks s i = Reserved a n \<Longrightarrow>
     faucet_step valid_addr s (s\<lparr>fs_tasks := (fs_tasks s)(i := Finished)\<rparr>)"
| submit_ok:
    "fs_tasks s i = Reserved a n \<Longrightarrow>
     faucet_step valid_addr s
       (s\<lparr>fs_tasks := (fs_tasks s)(i := Accepted a), fs_submitted := fs_submitted s @ [(a, fs_now s)]\<rparr>)"
| record_grant:
    "fs_tasks s i = Accepted a \<Longrightarrow>
     faucet_step valid_addr s
       (s\<lparr>fs_tasks := (fs_tasks s)(i := Finished),
          fs_limiter := record_drip a (fs_now s) (fs_limiter s)\<rparr>)"

inductive faucet_reach :: "(string \<Rightarrow> bool) \<Rightarrow> duration \<Rightarrow> u64 \<Rightarrow> faucet_sys \<Rightarrow> bool"
  for valid_addr w n0 where
  start: "faucet_reach valid_addr w n0 (faucet_init w n0)"
| step: "faucet_reach valid_addr w n0 s \<Longrightarrow> faucet_step valid_addr s s' \<Longrightarrow>
         faucet_reach valid_addr w n0 s'"

inductive_cases faucet_stepE: "faucet_step valid_addr s s'"






section \<open>Properties\<close>

text \<open>C11. Handled one after another, the web faucet's grants to the same address are at least one
  rate-limit window apart: the later request passed its check no earlier than a full window after
  the earlier grant was recorded. Rejected and failed requests in between change nothing.\<close>

theorem web_faucet_spacing:
  assumes "requests_ordered t rs"
  shows "sorted_wrt (spaced (\<lambda>a. a) (\<lambda>_. rl_window (fst st))) (fst (serve S amt rs st))"
  using assms by (rule web_serve_spaced)

lemmas demo_drip_simps =
  drip_def check_def record_drip_def rl_new_def duration_since_def upsert_def signer_drip_def
  demo_sdk_def demo_signer_def fetch_add_nonce_def build_unsigned_def

theorem web_faucet_spacing_witness:
  "requests_ordered 0 [(''a'', 1, 2), (''a'', 5, 6), (''b'', 6, 7), (''a'', 12, 13)] \<and>
   fst (serve demo_sdk 100 [(''a'', 1, 2), (''a'', 5, 6), (''b'', 6, 7), (''a'', 12, 13)]
     (rl_new 10, demo_signer)) = [(''a'', 1, 2), (''b'', 6, 7), (''a'', 12, 13)] \<and>
   sorted_wrt (spaced (\<lambda>a. a) (\<lambda>_. 10))
     (fst (serve demo_sdk 100 [(''a'', 1, 2), (''a'', 5, 6), (''b'', 6, 7), (''a'', 12, 13)]
       (rl_new 10, demo_signer)))"
proof -
  let ?rs = "[(''a'', 1, 2), (''a'', 5, 6), (''b'', 6, 7), (''a'', 12, 13)] :: (string \<times> nat \<times> nat) list"
  have o: "requests_ordered 0 ?rs" by simp
  have "fst (serve demo_sdk 100 ?rs (rl_new 10, demo_signer)) = [(''a'', 1, 2), (''b'', 6, 7), (''a'', 12, 13)]"
    by (simp add: demo_drip_simps)
  moreover have "sorted_wrt (spaced (\<lambda>a. a) (\<lambda>_. 10)) (fst (serve demo_sdk 100 ?rs (rl_new 10, demo_signer)))"
    using web_faucet_spacing [OF o, of "(rl_new 10, demo_signer)" demo_sdk 100]
    by (simp add: rl_new_def)
  ultimately show ?thesis using o by simp
qed



lemma two_checked_reach:
  "faucet_reach v w n
     ((faucet_init w n)\<lparr>fs_tasks := (\<lambda>_. NotStarted)(0 := Checked a, 1 := Checked a)\<rparr>)"
proof -
  let ?s0 = "faucet_init w n"
  let ?s1 = "?s0\<lparr>fs_tasks := (fs_tasks ?s0)(0 := Checked a)\<rparr>"
  let ?s2 = "?s1\<lparr>fs_tasks := (fs_tasks ?s1)(1 := Checked a)\<rparr>"
  have "faucet_step v ?s0 ?s1"
    by (rule check_ok) (simp_all add: faucet_init_def rl_new_def check_def)
  then have r1: "faucet_reach v w n ?s1"
    by (rule faucet_reach.step [OF faucet_reach.start])
  have "faucet_step v ?s1 ?s2"
    by (rule check_ok) (simp_all add: faucet_init_def rl_new_def check_def)
  with r1 have "faucet_reach v w n ?s2" by (rule faucet_reach.step)
  then show ?thesis by (simp add: faucet_init_def)
qed

lemma reserve_submit_reach:
  assumes "faucet_reach v w n s" and "fs_tasks s i = Checked a" and "v a"
  shows "\<exists>s'. faucet_reach v w n s' \<and> fs_now s' = fs_now s \<and>
    fs_submitted s' = fs_submitted s @ [(a, fs_now s)] \<and> fs_tasks s' = (fs_tasks s)(i := Accepted a)"
proof -
  let ?s1 = "s\<lparr>fs_tasks := (fs_tasks s)(i := Reserved a (fs_nonce s)),
    fs_nonce := fs_nonce s + 1, fs_issued := fs_issued s @ [fs_nonce s]\<rparr>"
  let ?s2 = "?s1\<lparr>fs_tasks := (fs_tasks ?s1)(i := Accepted a),
    fs_submitted := fs_submitted ?s1 @ [(a, fs_now ?s1)]\<rparr>"
  have "faucet_reach v w n ?s1"
    using assms by (intro faucet_reach.step [OF assms(1)] reserve)
  then have "faucet_reach v w n ?s2"
    by (rule faucet_reach.step) (rule submit_ok, simp)
  then show ?thesis by (intro exI [of _ ?s2]) simp
qed

text \<open>C23. The per-address limit does not hold under concurrency: the check and the recording are
  separate steps, so for every window two overlapping requests for one address can both be accepted
  by the chain at the same instant. The limiter documents one drip per window independent of how
  many requests came.\<close>

theorem concurrent_double_drip:
  assumes "valid_addr a"
  shows "\<exists>s. faucet_reach valid_addr w n0 s \<and> fs_submitted s = [(a, 0), (a, 0)]"
proof -
  let ?s2 = "(faucet_init w n0)\<lparr>fs_tasks := (\<lambda>_. NotStarted)(0 := Checked a, 1 := Checked a)\<rparr>"
  have r2: "faucet_reach valid_addr w n0 ?s2"
    by (rule two_checked_reach)
  obtain s3 where s3: "faucet_reach valid_addr w n0 s3" "fs_now s3 = 0"
    "fs_submitted s3 = [(a, 0)]" "fs_tasks s3 = (fs_tasks ?s2)(0 := Accepted a)"
    using reserve_submit_reach [OF r2, of 0 a] assms by (auto simp: faucet_init_def)
  then have "fs_tasks s3 1 = Checked a" by simp
  with reserve_submit_reach [OF s3(1), of 1 a] assms s3 show ?thesis by auto
qed

theorem concurrent_double_drip_witness:
  "\<exists>s. faucet_reach (\<lambda>a. a \<noteq> []) 86400000000000 7 s \<and>
     fs_submitted s = [(''lig1a'', 0), (''lig1a'', 0)]"
  by (rule concurrent_double_drip) simp


text \<open>The retry hint of a blocked address is exact: it is positive, at most the window, the
  address is allowed exactly that much later, and blocked at every instant before.\<close>

lemma retry_after_exact:
  assumes "check rl a now = Blocked r" and "recorded_before rl now"
  shows "0 < r \<and> r \<le> rl_window rl \<and> check rl a (now + r) = Allowed \<and>
    (\<forall>t. now \<le> t \<and> t < now + r \<longrightarrow> check rl a t = Blocked (r - (t - now)))"
  using assms by (rule check_Blocked_bounds)

text \<open>The status endpoint agrees with the faucet: for a non-empty address it reports that the
  address can drip exactly when a drip request at that instant would pass the rate check, with the
  boundary the check would report, and it never changes the limiter.\<close>

lemma drip_status_agrees:
  assumes "addr \<noteq> []"
  shows "drip_status amt secs fa (Some addr) now wall rl =
    (case check rl addr now of
       Allowed \<Rightarrow> PerAddress True None | Blocked r \<Rightarrow> PerAddress False (Some (wall + r)))"
  using assms by (simp add: drip_status_def peek_eq_check)

text \<open>C24. The inclusion poll after a submission always returns: with the clock advancing at least
  one poll interval per iteration, it returns within 26 iterations whatever the node answers.\<close>

theorem wait_for_inclusion_returns:
  assumes "polls_advance polls"
  shows "\<exists>r. wait_for_inclusion polls h 0 26 = Some r"
  using wait_for_inclusion_returns_from [OF assms, of 0 26] by simp

theorem wait_for_inclusion_returns_witness:
  "\<exists>r. wait_for_inclusion (\<lambda>i. (500 * i, Inr [])) ''ltx1'' 0 26 = Some r"
  by (rule wait_for_inclusion_returns) (simp add: polls_advance_def POLL_INTERVAL_MS_def)

end
