(* ===== verification/Json.thy ===== *)
theory Json
  imports Prelude "HOL-Library.Monad_Syntax"
begin

text \<open>
  JSON values and the deserialisation rules the wire types rely on. A value is
  \<^verbatim>\<open>serde_json::Value\<close> with its integer and floating-point numbers apart (a float only
  carries its text). A struct that derives \<^verbatim>\<open>Deserialize\<close> accepts an object, where
  unknown members are ignored, or an array holding its fields in order; a field without a default
  must be present, and every field must have its type. The decoders of the individual structs are
  in the theory of the wire types.
\<close>

datatype json =
    JNull
  | JBool bool
  | JInt int
  | JFloat string
  | JString string
  | JArray "json list"
  | JObject "(string \<times> json) list"

named_theorems de_simps "deserialisers"

section \<open>Scalars\<close>

fun de_string :: "json \<Rightarrow> string option" where
  "de_string (JString s) = Some s"
| "de_string _ = None"

fun de_uint :: "nat \<Rightarrow> json \<Rightarrow> nat option" where
  "de_uint bound (JInt i) = (if 0 \<le> i \<and> i < int bound then Some (nat i) else None)"
| "de_uint bound _ = None"

definition de_option :: "(json \<Rightarrow> 'a option) \<Rightarrow> json \<Rightarrow> 'a option option" where
  "de_option d v = (case v of JNull \<Rightarrow> Some None | _ \<Rightarrow> map_option Some (d v))"

fun de_all :: "(json \<Rightarrow> 'a option) \<Rightarrow> json list \<Rightarrow> 'a list option" where
  "de_all d [] = Some []"
| "de_all d (v # vs) = do { x \<leftarrow> d v; xs \<leftarrow> de_all d vs; Some (x # xs) }"

fun de_vec :: "(json \<Rightarrow> 'a option) \<Rightarrow> json \<Rightarrow> 'a list option" where
  "de_vec d (JArray vs) = de_all d vs"
| "de_vec d _ = None"

section \<open>Structs\<close>

text \<open>The fields of a struct, in declaration order, as far as the value supplies them.\<close>

fun struct_fields :: "string list \<Rightarrow> json \<Rightarrow> json option list option" where
  "struct_fields names (JObject kvs) = Some (map (map_of kvs) names)"
| "struct_fields names (JArray vs) =
     (if length vs \<le> length names
      then Some (map Some vs @ replicate (length names - length vs) None) else None)"
| "struct_fields names _ = None"

definition de_field :: "(json \<Rightarrow> 'a option) \<Rightarrow> json option \<Rightarrow> 'a option" where
  "de_field d f = Option.bind f d"

definition de_field_or :: "'a \<Rightarrow> (json \<Rightarrow> 'a option) \<Rightarrow> json option \<Rightarrow> 'a option" where
  "de_field_or dflt d f = (case f of None \<Rightarrow> Some dflt | Some v \<Rightarrow> d v)"

lemma de_field_simps [simp, de_simps]:
  "de_field d None = None"
  "de_field d (Some v) = d v"
  "de_field_or x d None = Some x"
  "de_field_or x d (Some v) = d v"
  by (simp_all add: de_field_def de_field_or_def)

lemma length_struct_fields: "struct_fields names v = Some fs \<Longrightarrow> length fs = length names"
  by (cases "(names, v)" rule: struct_fields.cases) (auto split: if_splits)

text \<open>Unknown members of an object do not matter to a struct.\<close>

lemma struct_fields_unknown:
  assumes "k \<notin> set names"
  shows "struct_fields names (JObject (kvs @ [(k, v)])) = struct_fields names (JObject kvs)"
proof -
  have "map_of (kvs @ [(k, v)]) n = map_of kvs n" if "n \<in> set names" for n
    using that assms by (auto simp: map_add_def split: option.splits)
  then show ?thesis by simp
qed

section \<open>Access to untyped values\<close>

text \<open>\<^verbatim>\<open>as_object\<close>, \<^verbatim>\<open>as_str\<close> and \<^verbatim>\<open>as_u64\<close> of an untyped value.\<close>

definition as_object :: "json \<Rightarrow> (string \<times> json) list option" where
  "as_object v = (case v of JObject kvs \<Rightarrow> Some kvs | _ \<Rightarrow> None)"

definition as_str :: "json \<Rightarrow> string option" where
  "as_str v = (case v of JString s \<Rightarrow> Some s | _ \<Rightarrow> None)"

definition json_as_u64 :: "json \<Rightarrow> u64 option" where
  "json_as_u64 v = map_option of_nat (de_uint (2 ^ 64) v)"

section \<open>Serialisation\<close>

text \<open>An optional field, and one that is skipped when it is absent.\<close>

definition json_option :: "('a \<Rightarrow> json) \<Rightarrow> 'a option \<Rightarrow> json" where
  "json_option f x = (case x of None \<Rightarrow> JNull | Some a \<Rightarrow> f a)"

definition json_skip_none :: "string \<Rightarrow> ('a \<Rightarrow> json) \<Rightarrow> 'a option \<Rightarrow> (string \<times> json) list" where
  "json_skip_none name f x = (case x of None \<Rightarrow> [] | Some a \<Rightarrow> [(name, f a)])"

end
