(* ===== verification/Wire.thy ===== *)
theory Wire
  imports Json
begin

text \<open>
  The wire types of \<^verbatim>\<open>crates/types/src/lib.rs\<close>. Ledger objects, module records and the
  cluster topology are records; the client decodes them from the bodies it fetches. The
  event payloads are decoded by the indexer from untyped values, so each has its decoder here, named
  after the struct; the externally tagged wrapper of an event is a struct with the variant's name as
  its only field. The members of an object that a type does not name are kept as a list of pairs; where
  the source has a sorted map, the list of a decoded object stands for it up to the order of the members.
\<close>

section \<open>Rollup and ledger\<close>

record rollup_info =
  ri_chain_id :: string
  ri_chain_hash :: string
  ri_version :: string

record uint64_range =
  rg_start :: u64
  rg_end :: u64

record slot_response =
  sl_number :: u64
  sl_hash :: string
  sl_prev_hash :: "string option"
  sl_timestamp :: "u64 option"
  sl_state_root :: "string option"
  sl_batch_count :: "u64 option"
  sl_tx_count :: "u64 option"
  sl_batch_range :: "uint64_range option"
  sl_finality_status :: "string option"
  sl_raw :: "(string \<times> json) list"

record fully_baked_tx =
  fb_data :: string
  fb_sequencing_data :: "string option"

record tx_receipt =
  rp_result :: string
  rp_data :: json

record module_ref =
  mr_type :: string
  mr_name :: string

record ledger_event =
  ev_type :: string
  ev_number :: u64
  ev_key :: string
  ev_value :: json
  ev_module :: module_ref
  ev_tx_hash :: string

record ledger_tx =
  lt_type :: string
  lt_hash :: string
  lt_number :: u64
  lt_event_range :: uint64_range
  lt_body :: fully_baked_tx
  lt_receipt :: tx_receipt
  lt_events :: "ledger_event list"
  lt_batch_number :: u64

record ledger_batch =
  lb_type :: string
  lb_number :: u64
  lb_hash :: string
  lb_slot_number :: u64
  lb_tx_range :: uint64_range
  lb_raw :: "(string \<times> json) list"

text \<open>
  The serialisation of a slot, which the indexer stores as it got it: the fields in the order of the
  struct, an absent one as null, and the members the struct does not name after them.
\<close>

definition ser_uint64_range :: "uint64_range \<Rightarrow> json" where
  "ser_uint64_range r = JObject [(''start'', JInt (uint (rg_start r))), (''end'', JInt (uint (rg_end r)))]"

definition ser_slot_response :: "slot_response \<Rightarrow> json" where
  "ser_slot_response s =
     JObject ((''number'', JInt (uint (sl_number s))) #
       (''hash'', JString (sl_hash s)) #
       (''prev_hash'', json_option JString (sl_prev_hash s)) #
       (''timestamp'', json_option (\<lambda>x. JInt (uint x)) (sl_timestamp s)) #
       (''state_root'', json_option JString (sl_state_root s)) #
       (''batch_count'', json_option (\<lambda>x. JInt (uint x)) (sl_batch_count s)) #
       (''tx_count'', json_option (\<lambda>x. JInt (uint x)) (sl_tx_count s)) #
       (''batch_range'', json_option ser_uint64_range (sl_batch_range s)) #
       (''finality_status'', json_option JString (sl_finality_status s)) #
       sl_raw s)"

section \<open>Module records\<close>

record bounty_record =
  br_poster :: string
  br_board_schema_id :: string
  br_pool :: string
  br_per_attestation :: string
  br_acceptance :: json
  br_expiry_da_height :: u64
  br_dispute_window_blocks :: nat
  br_status :: string

record contract_record =
  cr_poster :: string
  cr_arbiter :: string
  cr_criteria_doc_hash :: json
  cr_pool :: string
  cr_expiry_da_height :: u64
  cr_dispute_window_blocks :: nat
  cr_arbiter_fee_bps :: nat
  cr_status :: string

section \<open>Cluster topology\<close>

datatype cluster_health = Healthy | Degraded | Leaderless | Unknown_health

record chain_cluster_node =
  ccn_node_id :: string
  ccn_address :: string
  ccn_is_leader :: bool
  ccn_last_heartbeat_age_ms :: int

record chain_cluster_topology =
  cct_nodes :: "chain_cluster_node list"
  cct_leader_node_id :: "string option"
  cct_leader_acquired_at_epoch_ms :: "int option"
  cct_generated_at_epoch_ms :: int

record cluster_node =
  cn_node_id :: string
  cn_is_leader :: bool
  cn_last_heartbeat_age_ms :: int

record cluster_topology =
  ct_nodes :: "cluster_node list"
  ct_leader_node_id :: "string option"
  ct_leader_acquired_at_epoch_ms :: "int option"
  ct_generated_at_epoch_ms :: int
  ct_cluster_health :: cluster_health

section \<open>Event payloads\<close>

definition de_variant :: "string \<Rightarrow> (json \<Rightarrow> 'a option) \<Rightarrow> json \<Rightarrow> 'a option" where
  "de_variant name d v =
     (case struct_fields [name] v of Some [f] \<Rightarrow> de_field d f | _ \<Rightarrow> None)"

subsection \<open>Bank\<close>

record coins =
  co_amount :: string
  co_token_id :: string

record bank_transfer_details =
  bt_from :: string
  bt_to :: string
  bt_coins :: coins

definition de_coins :: "json \<Rightarrow> coins option" where
  "de_coins v =
     (case struct_fields [''amount'', ''token_id''] v of
        Some [f0, f1] \<Rightarrow>
          do {
            x0 \<leftarrow> de_field de_string f0;
            x1 \<leftarrow> de_field de_string f1;
            Some \<lparr>co_amount = x0, co_token_id = x1\<rparr>
          }
      | _ \<Rightarrow> None)"

text \<open>\<^verbatim>\<open>MultiAddress\<close> has the single field \<^verbatim>\<open>user\<close>.\<close>

definition de_multi_address :: "json \<Rightarrow> string option" where
  "de_multi_address v =
     (case struct_fields [''user''] v of Some [f] \<Rightarrow> de_field de_string f | _ \<Rightarrow> None)"

definition de_bank_transfer_details :: "json \<Rightarrow> bank_transfer_details option" where
  "de_bank_transfer_details v =
     (case struct_fields [''from'', ''to'', ''coins''] v of
        Some [f0, f1, f2] \<Rightarrow>
          do {
            x0 \<leftarrow> de_field de_multi_address f0;
            x1 \<leftarrow> de_field de_multi_address f1;
            x2 \<leftarrow> de_field de_coins f2;
            Some \<lparr>bt_from = x0, bt_to = x1, bt_coins = x2\<rparr>
          }
      | _ \<Rightarrow> None)"

definition de_token_transferred_event :: "json \<Rightarrow> bank_transfer_details option" where
  "de_token_transferred_event = de_variant ''token_transferred'' de_bank_transfer_details"

subsection \<open>Attestation module\<close>

record attestor_set_registered_details =
  asr_attestor_set_id :: string
  asr_members :: "string list"
  asr_threshold :: nat
  asr_registered_by :: string

definition de_attestor_set_registered_details :: "json \<Rightarrow> attestor_set_registered_details option" where
  "de_attestor_set_registered_details v =
     (case struct_fields [''attestor_set_id'', ''members'', ''threshold'', ''registered_by''] v of
        Some [f0, f1, f2, f3] \<Rightarrow>
          do {
            x0 \<leftarrow> de_field de_string f0;
            x1 \<leftarrow> de_field (de_vec de_string) f1;
            x2 \<leftarrow> de_field (de_uint 256) f2;
            x3 \<leftarrow> de_field de_string f3;
            Some \<lparr>asr_attestor_set_id = x0, asr_members = x1, asr_threshold = x2, asr_registered_by = x3\<rparr>
          }
      | _ \<Rightarrow> None)"

definition de_attestor_set_registered_event :: "json \<Rightarrow> attestor_set_registered_details option" where
  "de_attestor_set_registered_event = de_variant ''AttestorSetRegistered'' de_attestor_set_registered_details"

record schema_registered_details =
  sr_schema_id :: string
  sr_name :: string
  sr_version :: nat
  sr_owner :: string
  sr_attestor_set_id :: string
  sr_fee_routing_bps :: nat
  sr_fee_routing_addr :: "string option"
  sr_payload_shape_hash :: json

definition de_schema_registered_details :: "json \<Rightarrow> schema_registered_details option" where
  "de_schema_registered_details v =
     (case struct_fields [''schema_id'', ''name'', ''version'', ''owner'', ''attestor_set_id'', ''fee_routing_bps'', ''fee_routing_addr'', ''payload_shape_hash''] v of
        Some [f0, f1, f2, f3, f4, f5, f6, f7] \<Rightarrow>
          do {
            x0 \<leftarrow> de_field de_string f0;
            x1 \<leftarrow> de_field de_string f1;
            x2 \<leftarrow> de_field (de_uint (2 ^ 32)) f2;
            x3 \<leftarrow> de_field de_string f3;
            x4 \<leftarrow> de_field de_string f4;
            x5 \<leftarrow> de_field (de_uint 65536) f5;
            x6 \<leftarrow> de_field_or None (de_option de_string) f6;
            x7 \<leftarrow> de_field Some f7;
            Some \<lparr>sr_schema_id = x0, sr_name = x1, sr_version = x2, sr_owner = x3, sr_attestor_set_id = x4, sr_fee_routing_bps = x5, sr_fee_routing_addr = x6, sr_payload_shape_hash = x7\<rparr>
          }
      | _ \<Rightarrow> None)"

definition de_schema_registered_event :: "json \<Rightarrow> schema_registered_details option" where
  "de_schema_registered_event = de_variant ''SchemaRegistered'' de_schema_registered_details"

record attestation_submitted_details =
  ats_schema_id :: string
  ats_payload_hash :: string
  ats_submitter :: string
  ats_signature_count :: nat

definition de_attestation_submitted_details :: "json \<Rightarrow> attestation_submitted_details option" where
  "de_attestation_submitted_details v =
     (case struct_fields [''schema_id'', ''payload_hash'', ''submitter'', ''signature_count''] v of
        Some [f0, f1, f2, f3] \<Rightarrow>
          do {
            x0 \<leftarrow> de_field de_string f0;
            x1 \<leftarrow> de_field de_string f1;
            x2 \<leftarrow> de_field de_string f2;
            x3 \<leftarrow> de_field (de_uint (2 ^ 32)) f3;
            Some \<lparr>ats_schema_id = x0, ats_payload_hash = x1, ats_submitter = x2, ats_signature_count = x3\<rparr>
          }
      | _ \<Rightarrow> None)"

definition de_attestation_submitted_event :: "json \<Rightarrow> attestation_submitted_details option" where
  "de_attestation_submitted_event = de_variant ''AttestationSubmitted'' de_attestation_submitted_details"

subsection \<open>Bounty module\<close>

record bounty_posted_details =
  bp_bounty_id :: string
  bp_poster :: string
  bp_pool :: string

definition de_bounty_posted_details :: "json \<Rightarrow> bounty_posted_details option" where
  "de_bounty_posted_details v =
     (case struct_fields [''bounty_id'', ''poster'', ''pool''] v of
        Some [f0, f1, f2] \<Rightarrow>
          do {
            x0 \<leftarrow> de_field de_string f0;
            x1 \<leftarrow> de_field de_string f1;
            x2 \<leftarrow> de_field de_string f2;
            Some \<lparr>bp_bounty_id = x0, bp_poster = x1, bp_pool = x2\<rparr>
          }
      | _ \<Rightarrow> None)"

definition de_bounty_posted_event :: "json \<Rightarrow> bounty_posted_details option" where
  "de_bounty_posted_event = de_variant ''BountyPosted'' de_bounty_posted_details"

record bounty_claimed_details =
  bc_bounty_id :: string
  bc_attestation_id :: string
  bc_payout :: string
  bc_attester :: string

definition de_bounty_claimed_details :: "json \<Rightarrow> bounty_claimed_details option" where
  "de_bounty_claimed_details v =
     (case struct_fields [''bounty_id'', ''attestation_id'', ''payout'', ''attester''] v of
        Some [f0, f1, f2, f3] \<Rightarrow>
          do {
            x0 \<leftarrow> de_field de_string f0;
            x1 \<leftarrow> de_field de_string f1;
            x2 \<leftarrow> de_field de_string f2;
            x3 \<leftarrow> de_field de_string f3;
            Some \<lparr>bc_bounty_id = x0, bc_attestation_id = x1, bc_payout = x2, bc_attester = x3\<rparr>
          }
      | _ \<Rightarrow> None)"

definition de_bounty_claimed_event :: "json \<Rightarrow> bounty_claimed_details option" where
  "de_bounty_claimed_event = de_variant ''BountyClaimed'' de_bounty_claimed_details"

record bounty_disputed_details =
  bd_bounty_id :: string
  bd_attestation_id :: string
  bd_disputer :: string
  bd_bond :: string

definition de_bounty_disputed_details :: "json \<Rightarrow> bounty_disputed_details option" where
  "de_bounty_disputed_details v =
     (case struct_fields [''bounty_id'', ''attestation_id'', ''disputer'', ''bond''] v of
        Some [f0, f1, f2, f3] \<Rightarrow>
          do {
            x0 \<leftarrow> de_field de_string f0;
            x1 \<leftarrow> de_field de_string f1;
            x2 \<leftarrow> de_field de_string f2;
            x3 \<leftarrow> de_field de_string f3;
            Some \<lparr>bd_bounty_id = x0, bd_attestation_id = x1, bd_disputer = x2, bd_bond = x3\<rparr>
          }
      | _ \<Rightarrow> None)"

definition de_bounty_disputed_event :: "json \<Rightarrow> bounty_disputed_details option" where
  "de_bounty_disputed_event = de_variant ''BountyDisputed'' de_bounty_disputed_details"

record dispute_resolved_details =
  bdr_bounty_id :: string
  bdr_attestation_id :: string
  bdr_decision :: string
  bdr_bond_recipient :: string

definition de_dispute_resolved_details :: "json \<Rightarrow> dispute_resolved_details option" where
  "de_dispute_resolved_details v =
     (case struct_fields [''bounty_id'', ''attestation_id'', ''decision'', ''bond_recipient''] v of
        Some [f0, f1, f2, f3] \<Rightarrow>
          do {
            x0 \<leftarrow> de_field de_string f0;
            x1 \<leftarrow> de_field de_string f1;
            x2 \<leftarrow> de_field de_string f2;
            x3 \<leftarrow> de_field de_string f3;
            Some \<lparr>bdr_bounty_id = x0, bdr_attestation_id = x1, bdr_decision = x2, bdr_bond_recipient = x3\<rparr>
          }
      | _ \<Rightarrow> None)"

definition de_dispute_resolved_event :: "json \<Rightarrow> dispute_resolved_details option" where
  "de_dispute_resolved_event = de_variant ''DisputeResolved'' de_dispute_resolved_details"

record bounty_expired_details =
  be_bounty_id :: string
  be_refunded_to_poster :: string

definition de_bounty_expired_details :: "json \<Rightarrow> bounty_expired_details option" where
  "de_bounty_expired_details v =
     (case struct_fields [''bounty_id'', ''refunded_to_poster''] v of
        Some [f0, f1] \<Rightarrow>
          do {
            x0 \<leftarrow> de_field de_string f0;
            x1 \<leftarrow> de_field de_string f1;
            Some \<lparr>be_bounty_id = x0, be_refunded_to_poster = x1\<rparr>
          }
      | _ \<Rightarrow> None)"

definition de_bounty_expired_event :: "json \<Rightarrow> bounty_expired_details option" where
  "de_bounty_expired_event = de_variant ''BountyExpired'' de_bounty_expired_details"

record bounty_finalised_details =
  bf_bounty_id :: string
  bf_swept_to_poster :: string

definition de_bounty_finalised_details :: "json \<Rightarrow> bounty_finalised_details option" where
  "de_bounty_finalised_details v =
     (case struct_fields [''bounty_id'', ''swept_to_poster''] v of
        Some [f0, f1] \<Rightarrow>
          do {
            x0 \<leftarrow> de_field de_string f0;
            x1 \<leftarrow> de_field de_string f1;
            Some \<lparr>bf_bounty_id = x0, bf_swept_to_poster = x1\<rparr>
          }
      | _ \<Rightarrow> None)"

definition de_bounty_finalised_event :: "json \<Rightarrow> bounty_finalised_details option" where
  "de_bounty_finalised_event = de_variant ''BountyFinalised'' de_bounty_finalised_details"

subsection \<open>Contract module\<close>

record contract_posted_details =
  cp_contract_id :: string
  cp_poster :: string
  cp_arbiter :: string
  cp_pool :: string

definition de_contract_posted_details :: "json \<Rightarrow> contract_posted_details option" where
  "de_contract_posted_details v =
     (case struct_fields [''contract_id'', ''poster'', ''arbiter'', ''pool''] v of
        Some [f0, f1, f2, f3] \<Rightarrow>
          do {
            x0 \<leftarrow> de_field de_string f0;
            x1 \<leftarrow> de_field de_string f1;
            x2 \<leftarrow> de_field de_string f2;
            x3 \<leftarrow> de_field de_string f3;
            Some \<lparr>cp_contract_id = x0, cp_poster = x1, cp_arbiter = x2, cp_pool = x3\<rparr>
          }
      | _ \<Rightarrow> None)"

definition de_contract_posted_event :: "json \<Rightarrow> contract_posted_details option" where
  "de_contract_posted_event = de_variant ''ContractPosted'' de_contract_posted_details"

record worker_committed_details =
  wc_contract_id :: string
  wc_worker :: string
  wc_commit_hash :: json
  wc_bond :: string

definition de_worker_committed_details :: "json \<Rightarrow> worker_committed_details option" where
  "de_worker_committed_details v =
     (case struct_fields [''contract_id'', ''worker'', ''commit_hash'', ''bond''] v of
        Some [f0, f1, f2, f3] \<Rightarrow>
          do {
            x0 \<leftarrow> de_field de_string f0;
            x1 \<leftarrow> de_field de_string f1;
            x2 \<leftarrow> de_field_or JNull Some f2;
            x3 \<leftarrow> de_field de_string f3;
            Some \<lparr>wc_contract_id = x0, wc_worker = x1, wc_commit_hash = x2, wc_bond = x3\<rparr>
          }
      | _ \<Rightarrow> None)"

definition de_worker_committed_event :: "json \<Rightarrow> worker_committed_details option" where
  "de_worker_committed_event = de_variant ''WorkerCommitted'' de_worker_committed_details"

record contract_delivered_details =
  cd_contract_id :: string
  cd_worker :: string
  cd_deliverable_attestation_id :: string

definition de_contract_delivered_details :: "json \<Rightarrow> contract_delivered_details option" where
  "de_contract_delivered_details v =
     (case struct_fields [''contract_id'', ''worker'', ''deliverable_attestation_id''] v of
        Some [f0, f1, f2] \<Rightarrow>
          do {
            x0 \<leftarrow> de_field de_string f0;
            x1 \<leftarrow> de_field de_string f1;
            x2 \<leftarrow> de_field de_string f2;
            Some \<lparr>cd_contract_id = x0, cd_worker = x1, cd_deliverable_attestation_id = x2\<rparr>
          }
      | _ \<Rightarrow> None)"

definition de_contract_delivered_event :: "json \<Rightarrow> contract_delivered_details option" where
  "de_contract_delivered_event = de_variant ''ContractDelivered'' de_contract_delivered_details"

record delivery_accepted_details =
  da_contract_id :: string
  da_worker :: string
  da_payout :: string

definition de_delivery_accepted_details :: "json \<Rightarrow> delivery_accepted_details option" where
  "de_delivery_accepted_details v =
     (case struct_fields [''contract_id'', ''worker'', ''payout''] v of
        Some [f0, f1, f2] \<Rightarrow>
          do {
            x0 \<leftarrow> de_field de_string f0;
            x1 \<leftarrow> de_field de_string f1;
            x2 \<leftarrow> de_field de_string f2;
            Some \<lparr>da_contract_id = x0, da_worker = x1, da_payout = x2\<rparr>
          }
      | _ \<Rightarrow> None)"

definition de_delivery_accepted_event :: "json \<Rightarrow> delivery_accepted_details option" where
  "de_delivery_accepted_event = de_variant ''DeliveryAccepted'' de_delivery_accepted_details"

record delivery_rejected_details =
  dj_contract_id :: string
  dj_worker :: string
  dj_reason :: string

definition de_delivery_rejected_details :: "json \<Rightarrow> delivery_rejected_details option" where
  "de_delivery_rejected_details v =
     (case struct_fields [''contract_id'', ''worker'', ''reason''] v of
        Some [f0, f1, f2] \<Rightarrow>
          do {
            x0 \<leftarrow> de_field de_string f0;
            x1 \<leftarrow> de_field de_string f1;
            x2 \<leftarrow> de_field de_string f2;
            Some \<lparr>dj_contract_id = x0, dj_worker = x1, dj_reason = x2\<rparr>
          }
      | _ \<Rightarrow> None)"

definition de_delivery_rejected_event :: "json \<Rightarrow> delivery_rejected_details option" where
  "de_delivery_rejected_event = de_variant ''DeliveryRejected'' de_delivery_rejected_details"

record contract_dispute_resolved_details =
  cdr_contract_id :: string
  cdr_decision :: string
  cdr_winner :: string

definition de_contract_dispute_resolved_details :: "json \<Rightarrow> contract_dispute_resolved_details option" where
  "de_contract_dispute_resolved_details v =
     (case struct_fields [''contract_id'', ''decision'', ''winner''] v of
        Some [f0, f1, f2] \<Rightarrow>
          do {
            x0 \<leftarrow> de_field de_string f0;
            x1 \<leftarrow> de_field de_string f1;
            x2 \<leftarrow> de_field de_string f2;
            Some \<lparr>cdr_contract_id = x0, cdr_decision = x1, cdr_winner = x2\<rparr>
          }
      | _ \<Rightarrow> None)"

definition de_contract_dispute_resolved_event :: "json \<Rightarrow> contract_dispute_resolved_details option" where
  "de_contract_dispute_resolved_event = de_variant ''ContractDisputeResolved'' de_contract_dispute_resolved_details"

record contract_cancelled_details =
  cc_contract_id :: string
  cc_refunded_to_poster :: string

definition de_contract_cancelled_details :: "json \<Rightarrow> contract_cancelled_details option" where
  "de_contract_cancelled_details v =
     (case struct_fields [''contract_id'', ''refunded_to_poster''] v of
        Some [f0, f1] \<Rightarrow>
          do {
            x0 \<leftarrow> de_field de_string f0;
            x1 \<leftarrow> de_field de_string f1;
            Some \<lparr>cc_contract_id = x0, cc_refunded_to_poster = x1\<rparr>
          }
      | _ \<Rightarrow> None)"

definition de_contract_cancelled_event :: "json \<Rightarrow> contract_cancelled_details option" where
  "de_contract_cancelled_event = de_variant ''ContractCancelled'' de_contract_cancelled_details"

record contract_expired_details =
  ce_contract_id :: string
  ce_refunded_to_poster :: string

definition de_contract_expired_details :: "json \<Rightarrow> contract_expired_details option" where
  "de_contract_expired_details v =
     (case struct_fields [''contract_id'', ''refunded_to_poster''] v of
        Some [f0, f1] \<Rightarrow>
          do {
            x0 \<leftarrow> de_field de_string f0;
            x1 \<leftarrow> de_field de_string f1;
            Some \<lparr>ce_contract_id = x0, ce_refunded_to_poster = x1\<rparr>
          }
      | _ \<Rightarrow> None)"

definition de_contract_expired_event :: "json \<Rightarrow> contract_expired_details option" where
  "de_contract_expired_event = de_variant ''ContractExpired'' de_contract_expired_details"

end
