(* ===== verification/Store.thy ===== *)
theory Store
  imports Table Wire
begin

text \<open>
  The Postgres database behind the service, as the migrations under \<^verbatim>\<open>migrations/\<close> declare
  it, and how the sources talk to it. A table is the list of its rows; \<^verbatim>\<open>BIGINT\<close> and
  \<^verbatim>\<open>INTEGER\<close> columns are integers whose range a statement has to respect; timestamps are
  microseconds since the epoch.

  Every statement and every request to the node is one step of a run: the counter \<open>p_seq\<close> numbers
  them, and the environment says at which instant step \<open>n\<close> happens (\<open>pg_now\<close>) and whether the
  connection fails there (\<open>pg_fault\<close>). A statement that fails leaves the tables as they were.
\<close>

type_synonym time = int

section \<open>Rows\<close>

record slot_row =
  s_height :: int
  s_hash :: string
  s_prev_hash :: "string option"
  s_state_root :: "string option"
  s_timestamp :: time
  s_batch_count :: int
  s_tx_count :: int
  s_raw :: json
  s_indexed_at :: time
  s_proposer :: "string option"
  s_finality_status :: "string option"
  s_finalized_at :: "time option"
  s_da_block_height :: "int option"

record state_row =
  st_k :: string
  st_v :: string
  st_updated_at :: time

record tx_row =
  t_hash :: string
  t_slot :: int
  t_position :: int
  t_sender :: "string option"
  t_sender_pubkey :: "string option"
  t_nonce :: "int option"
  t_fee_paid_nano :: "int option"
  t_protocol_fee_nano :: "int option"
  t_kind :: string
  t_details :: json
  t_raw :: json
  t_outcome :: string
  t_revert_reason :: "string option"
  t_indexed_at :: time

record attestor_set_row =
  as_id :: string
  as_members :: json
  as_threshold :: int
  as_slot :: int
  as_tx :: string
  as_timestamp :: time
  as_schema_count :: int
  as_indexed_at :: time

record schema_row =
  sc_id :: string
  sc_name :: string
  sc_version :: int
  sc_owner :: string
  sc_attestor_set_id :: string
  sc_fee_routing_bps :: int
  sc_fee_routing_addr :: "string option"
  sc_payload_shape_hash :: string
  sc_slot :: int
  sc_tx :: string
  sc_timestamp :: time
  sc_attestation_count :: int
  sc_indexed_at :: time

record attestation_row =
  at_id :: string
  at_schema_id :: string
  at_payload_hash :: string
  at_submitter :: string
  at_submitter_pubkey :: "string option"
  at_slot :: int
  at_tx :: string
  at_timestamp :: time
  at_signature_count :: int
  at_indexed_at :: time

record address_row =
  ad_address :: string
  ad_txs_sent_count :: int
  ad_txs_received_count :: int
  ad_first_seen_slot :: "int option"
  ad_first_seen_tx :: "string option"
  ad_first_seen_timestamp :: "time option"
  ad_last_seen_slot :: "int option"
  ad_last_seen_tx :: "string option"
  ad_last_seen_timestamp :: "time option"
  ad_schemas_owned_count :: int
  ad_attestor_member_count :: int
  ad_indexed_at :: time

record bounty_row =
  bo_id :: string
  bo_poster :: string
  bo_board_schema_id :: string
  bo_pool_nano :: string
  bo_per_attestation_nano :: string
  bo_escrow_remaining_nano :: string
  bo_status :: string
  bo_acceptance :: json
  bo_expiry_da_height :: int
  bo_dispute_window_blocks :: int
  bo_slot :: int
  bo_tx :: string
  bo_timestamp :: time
  bo_claim_count :: int
  bo_last_claim_at_slot :: "int option"

record contract_row =
  co_id :: string
  co_poster :: string
  co_arbiter :: string
  co_criteria_doc_hash :: string
  co_pool_nano :: string
  co_escrow_remaining_nano :: string
  co_arbiter_fee_bps :: int
  co_status :: string
  co_expiry_da_height :: int
  co_dispute_window_blocks :: int
  co_slot :: int
  co_tx :: string
  co_timestamp :: time

record bot_drip_row =
  bd_address :: string
  bd_discord_user_id :: string
  bd_amount_nano :: nat
  bd_tx_hash :: string
  bd_tier :: string
  bd_server_tenure_days :: "int option"
  bd_account_age_days :: "int option"
  bd_dripped_at :: time

record db =
  slots :: "slot_row list"
  indexer_state :: "state_row list"
  transactions :: "tx_row list"
  attestor_sets :: "attestor_set_row list"
  schemas :: "schema_row list"
  attestations :: "attestation_row list"
  address_summaries :: "address_row list"
  bounties :: "bounty_row list"
  contracts :: "contract_row list"
  bot_drips :: "bot_drip_row list"

definition empty_db :: db where
  "empty_db = \<lparr>slots = [], indexer_state = [], transactions = [], attestor_sets = [], schemas = [],
     attestations = [], address_summaries = [], bounties = [], contracts = [], bot_drips = []\<rparr>"

section \<open>Statements\<close>

datatype db_error =
    Io
  | UniqueViolation string
  | ForeignKeyViolation string
  | CheckViolation string
  | NumericOutOfRange
  | InvalidNumeric

text \<open>
  The environment of a run. \<open>numeric_sub\<close> is the subtraction of two texts cast to
  \<^verbatim>\<open>numeric\<close> and cast back; \<open>millis_in_range\<close> is the range chrono accepts for a
  millisecond timestamp; \<open>json_text\<close> is serde_json's rendering.
\<close>

record pg =
  pg_now :: "nat \<Rightarrow> time"
  pg_fault :: "nat \<Rightarrow> bool"
  numeric_sub :: "string \<Rightarrow> string \<Rightarrow> string option"
  millis_in_range :: "int \<Rightarrow> bool"
  json_text :: "json \<Rightarrow> string"

record pool =
  p_db :: db
  p_seq :: nat

type_synonym 'a stmt = "time \<Rightarrow> db \<Rightarrow> (db_error, db \<times> 'a) result"
type_synonym 'a op = "pool \<Rightarrow> (db_error, 'a) result \<times> pool"

definition exec :: "pg \<Rightarrow> 'a stmt \<Rightarrow> 'a op" where
  "exec P st p =
     (let n = p_seq p; p' = p\<lparr>p_seq := Suc n\<rparr>
      in if pg_fault P n then (Inl Io, p')
         else case st (pg_now P n) (p_db p) of
                Inl e \<Rightarrow> (Inl e, p')
              | Inr (d, a) \<Rightarrow> (Inr a, p'\<lparr>p_db := d\<rparr>))"

text \<open>The \<^verbatim>\<open>?\<close> operator, and a failure that is only logged.\<close>

definition op_bind :: "(pool \<Rightarrow> ('e, 'a) result \<times> pool) \<Rightarrow> ('a \<Rightarrow> pool \<Rightarrow> ('e, 'b) result \<times> pool) \<Rightarrow>
    pool \<Rightarrow> ('e, 'b) result \<times> pool" where
  "op_bind m f p = (case m p of (Inl e, p') \<Rightarrow> (Inl e, p') | (Inr a, p') \<Rightarrow> f a p')"

definition op_ok :: "'a \<Rightarrow> pool \<Rightarrow> ('e, 'a) result \<times> pool" where
  "op_ok a p = (Inr a, p)"

definition op_log :: "(pool \<Rightarrow> ('e, 'a) result \<times> pool) \<Rightarrow> pool \<Rightarrow> ('f, unit) result \<times> pool" where
  "op_log m p = (Inr (), snd (m p))"

section \<open>Constraints\<close>

definition int4_ok :: "int \<Rightarrow> bool" where
  "int4_ok i \<longleftrightarrow> - (2 ^ 31) \<le> i \<and> i \<le> i32_max"

definition int8_ok :: "int \<Rightarrow> bool" where
  "int8_ok i \<longleftrightarrow> - (2 ^ 63) \<le> i \<and> i \<le> i64_max"

definition tx_kinds :: "string list" where
  "tx_kinds = [''transfer'', ''register_attestor_set'', ''register_schema'', ''submit_attestation'',
     ''bounty_event'', ''contract_event'', ''unknown'']"

definition revert_reason_consistent :: "tx_row \<Rightarrow> bool" where
  "revert_reason_consistent r \<longleftrightarrow>
     (t_outcome r = ''reverted'' \<and> t_revert_reason r \<noteq> None) \<or>
     (t_outcome r = ''committed'' \<and> t_revert_reason r = None)"

definition tx_check :: "tx_row \<Rightarrow> bool" where
  "tx_check r \<longleftrightarrow> t_kind r \<in> set tx_kinds \<and> t_outcome r \<in> {''committed'', ''reverted''} \<and>
     revert_reason_consistent r"

definition attestor_set_check :: "attestor_set_row \<Rightarrow> bool" where
  "attestor_set_check r \<longleftrightarrow> 1 \<le> as_threshold r \<and> as_threshold r \<le> 64 \<and> 0 \<le> as_schema_count r"

definition schema_check :: "schema_row \<Rightarrow> bool" where
  "schema_check r \<longleftrightarrow> 0 \<le> sc_fee_routing_bps r \<and> sc_fee_routing_bps r \<le> 10000 \<and>
     ((sc_fee_routing_bps r > 0 \<and> sc_fee_routing_addr r \<noteq> None) \<or>
      (sc_fee_routing_bps r = 0 \<and> sc_fee_routing_addr r = None)) \<and> 0 \<le> sc_attestation_count r"

definition attestation_check :: "attestation_row \<Rightarrow> bool" where
  "attestation_check r \<longleftrightarrow> 1 \<le> at_signature_count r"

definition all_or_nothing :: "'a option \<Rightarrow> 'b option \<Rightarrow> 'c option \<Rightarrow> bool" where
  "all_or_nothing a b c \<longleftrightarrow> (a = None \<and> b = None \<and> c = None) \<or> (a \<noteq> None \<and> b \<noteq> None \<and> c \<noteq> None)"

definition address_check :: "address_row \<Rightarrow> bool" where
  "address_check r \<longleftrightarrow> 0 \<le> ad_txs_sent_count r \<and> 0 \<le> ad_txs_received_count r \<and>
     0 \<le> ad_schemas_owned_count r \<and> 0 \<le> ad_attestor_member_count r \<and>
     all_or_nothing (ad_first_seen_slot r) (ad_first_seen_tx r) (ad_first_seen_timestamp r) \<and>
     all_or_nothing (ad_last_seen_slot r) (ad_last_seen_tx r) (ad_last_seen_timestamp r)"

definition bounty_statuses :: "string list" where
  "bounty_statuses = [''open'', ''exhausted'', ''expired'', ''cancelled'', ''finalised'']"

definition contract_statuses :: "string list" where
  "contract_statuses = [''open'', ''committed'', ''delivered'', ''accepted'', ''rejected'',
     ''disputed'', ''cancelled'', ''expired'']"

lemma as_i64_as_u64: "int8_ok i \<Longrightarrow> as_i64 (as_u64 i) = i"
proof -
  assume "int8_ok i"
  then have "signed_take_bit 63 i = i"
    by (intro signed_take_bit_int_eq_self) (auto simp: int8_ok_def i64_max_def)
  then show ?thesis by (simp add: as_i64_def as_u64_def sint_sbintrunc')
qed

section \<open>Steps\<close>

named_theorems op_simps "the tables after a step"

lemma exec_seq [simp]: "p_seq (snd (exec P st p)) = Suc (p_seq p)"
  by (simp add: exec_def Let_def split: sum.split prod.split)

lemma exec_Inr:
  "exec P st p = (Inr a, p') \<longleftrightarrow>
     \<not> pg_fault P (p_seq p) \<and>
     (\<exists>d. st (pg_now P (p_seq p)) (p_db p) = Inr (d, a) \<and> p' = p\<lparr>p_seq := Suc (p_seq p), p_db := d\<rparr>)"
  by (auto simp: exec_def Let_def split: sum.splits)

lemma exec_Inl:
  "exec P st p = (Inl e, p') \<Longrightarrow> p' = p\<lparr>p_seq := Suc (p_seq p)\<rparr>"
  by (auto simp: exec_def Let_def split: sum.splits if_splits)

text \<open>What a step keeps, it keeps whether it succeeds or fails.\<close>

lemma exec_db_invariant:
  assumes "I (p_db p)"
    and "\<And>d a. st (pg_now P (p_seq p)) (p_db p) = Inr (d, a) \<Longrightarrow> I d"
  shows "I (p_db (snd (exec P st p)))"
  using assms by (auto simp: exec_def Let_def split: sum.splits)

lemma op_bind_simps:
  "m p = (Inl e, p') \<Longrightarrow> op_bind m f p = (Inl e, p')"
  "m p = (Inr a, p') \<Longrightarrow> op_bind m f p = f a p'"
  by (simp_all add: op_bind_def)

lemma op_bind_snd_cases:
  assumes "Q (snd (m p))" and "\<And>a p'. m p = (Inr a, p') \<Longrightarrow> Q p' \<Longrightarrow> Q (snd (f a p'))"
  shows "Q (snd (op_bind m f p))"
proof (cases "m p")
  case (Pair r p')
  then show ?thesis
    using assms by (cases r) (auto simp: op_bind_def)
qed

lemma op_bind_Inr:
  "op_bind m f p = (Inr b, p'') \<longleftrightarrow> (\<exists>a p'. m p = (Inr a, p') \<and> f a p' = (Inr b, p''))"
  by (cases "m p"; cases "fst (m p)") (auto simp: op_bind_def)

lemma op_ok_simp [simp]: "op_ok a p = (Inr a, p)"
  by (simp add: op_ok_def)

lemma op_log_simp [simp]: "op_log m p = (Inr (), snd (m p))"
  by (simp add: op_log_def)

section \<open>Decimal texts\<close>

text \<open>Integers as the texts Postgres prints for them.\<close>

definition show_int :: "int \<Rightarrow> string" where
  "show_int i = (if i < 0 then CHR ''-'' # show_nat (nat (- i)) else show_nat (nat i))"

definition parse_int :: "string \<Rightarrow> int option" where
  "parse_int s =
     (case s of [] \<Rightarrow> None
      | c # cs \<Rightarrow> if c = CHR ''-'' then map_option (\<lambda>n. - int n) (parse_digits 0 cs)
                else map_option int (parse_digits 0 s))"

lemma parse_digits_no_minus: "parse_digits acc (CHR ''-'' # cs) = None"
  by (simp add: digit_val_def)

lemma parse_int_show_int [simp]: "parse_int (show_int i) = Some i"
proof (cases "i < 0")
  case True
  then show ?thesis by (simp add: show_int_def parse_int_def parse_digits_show_nat)
next
  case False
  obtain c cs where s: "show_nat (nat i) = c # cs"
    using show_nat_nonempty [of "nat i"] by (cases "show_nat (nat i)") auto
  have "c \<noteq> CHR ''-''"
    using parse_digits_show_nat [of "nat i"] parse_digits_no_minus [of 0 cs] by (auto simp: s)
  then show ?thesis
    using False parse_digits_show_nat [of "nat i"] by (simp add: show_int_def parse_int_def s)
qed

lemma show_int_nat: "show_int (int n) = show_nat n"
  by (simp add: show_int_def)

text \<open>What the casts through \<^verbatim>\<open>numeric\<close> promise on integers.\<close>

definition numeric_exact :: "pg \<Rightarrow> bool" where
  "numeric_exact P \<longleftrightarrow> (\<forall>a b. numeric_sub P (show_int a) (show_int b) = Some (show_int (a - b)))"

text \<open>An environment without failures, for the witnesses.\<close>

definition calm_pg :: pg where
  "calm_pg = \<lparr>pg_now = int, pg_fault = (\<lambda>_. False),
     numeric_sub = (\<lambda>a b. case (parse_int a, parse_int b) of
        (Some x, Some y) \<Rightarrow> Some (show_int (x - y)) | _ \<Rightarrow> None),
     millis_in_range = (\<lambda>_. True), json_text = (\<lambda>_. ''null'')\<rparr>"

lemma calm_pg_simps [simp]:
  "pg_now calm_pg n = int n"
  "pg_fault calm_pg n = False"
  "millis_in_range calm_pg i"
  by (simp_all add: calm_pg_def)

lemma calm_numeric_exact: "numeric_exact calm_pg"
  by (simp add: numeric_exact_def calm_pg_def)

end
