(* ===== verification/Cursor.thy ===== *)
theory Cursor
  imports Store
begin

text \<open>
  Page sizes and opaque cursors, \<^verbatim>\<open>crates/api/src/cursor.rs\<close>, with the cursor shapes of
  the list endpoints in \<^verbatim>\<open>crates/api/src/handlers.rs\<close>. A cursor is the JSON of a small
  struct, rendered by serde_json and wrapped in base64url: these two crates are the parameter
  \<open>cursor_codec\<close>, the structs and how serde reads and writes their fields are modelled.
\<close>

type_synonym u32 = "32 word"

section \<open>Page sizes\<close>

definition DEFAULT_LIMIT :: u32 where
  "DEFAULT_LIMIT = 20"

definition MAX_LIMIT :: u32 where
  "MAX_LIMIT = 100"

definition resolve_limit :: "u32 option \<Rightarrow> u32" where
  "resolve_limit requested =
     (case requested of
        None \<Rightarrow> DEFAULT_LIMIT
      | Some n \<Rightarrow> if n = 0 then DEFAULT_LIMIT else min n MAX_LIMIT)"

definition page_size :: "u32 option \<Rightarrow> nat" where
  "page_size requested = unat (resolve_limit requested)"

lemma page_size_bounds: "1 \<le> page_size l \<and> page_size l \<le> 100"
proof (cases l)
  case None
  then show ?thesis by (simp add: page_size_def resolve_limit_def DEFAULT_LIMIT_def)
next
  case (Some n)
  have "0 < unat n" if "n \<noteq> 0" using that by (simp add: unat_gt_0)
  then show ?thesis
    using Some by (auto simp: page_size_def resolve_limit_def DEFAULT_LIMIT_def MAX_LIMIT_def min_def
        word_le_nat_alt)
qed

lemma page_size_pos [simp]: "0 < page_size l"
  using page_size_bounds [of l] by simp

section \<open>The codec\<close>

record cursor_codec =
  b64_encode :: "u8 list \<Rightarrow> string"
  b64_decode :: "string \<Rightarrow> u8 list option"
  serde_to_vec :: "json \<Rightarrow> u8 list option"
  serde_from_slice :: "u8 list \<Rightarrow> json option"

definition cursor_encode :: "cursor_codec \<Rightarrow> ('c \<Rightarrow> json) \<Rightarrow> 'c \<Rightarrow> string option" where
  "cursor_encode K ser c = map_option (b64_encode K) (serde_to_vec K (ser c))"

definition cursor_decode :: "cursor_codec \<Rightarrow> (json \<Rightarrow> 'c option) \<Rightarrow> string \<Rightarrow> 'c option" where
  "cursor_decode K de s =
     (case b64_decode K s of
        None \<Rightarrow> None
      | Some bytes \<Rightarrow> (case serde_from_slice K bytes of None \<Rightarrow> None | Some v \<Rightarrow> de v))"

text \<open>
  What the two crates promise: base64url without padding decodes what it encoded, and a flat object
  of 64-bit integers and strings under distinct keys is rendered and read back as it was.
\<close>

definition flat_value :: "json \<Rightarrow> bool" where
  "flat_value v = (case v of JInt i \<Rightarrow> 0 \<le> i \<and> i < 2 ^ 64 | JString _ \<Rightarrow> True | _ \<Rightarrow> False)"

definition flat_object :: "json \<Rightarrow> bool" where
  "flat_object v =
     (case v of JObject kvs \<Rightarrow> distinct (map fst kvs) \<and> list_all (\<lambda>kv. flat_value (snd kv)) kvs | _ \<Rightarrow> False)"

definition codec_ok :: "cursor_codec \<Rightarrow> bool" where
  "codec_ok K \<longleftrightarrow>
     (\<forall>b. b64_decode K (b64_encode K b) = Some b) \<and>
     (\<forall>v. flat_object v \<longrightarrow> (\<exists>b. serde_to_vec K v = Some b \<and> serde_from_slice K b = Some v))"

lemma cursor_encode_total:
  assumes "codec_ok K" and "flat_object (ser c)"
  shows "cursor_encode K ser c \<noteq> None"
  using assms by (auto simp: codec_ok_def cursor_encode_def)

lemma cursor_decode_encode:
  assumes "codec_ok K" and "flat_object (ser c)" and "de (ser c) = Some c'"
    and "cursor_encode K ser c = Some s"
  shows "cursor_decode K de s = Some c'"
  using assms by (auto simp: codec_ok_def cursor_encode_def cursor_decode_def)

section \<open>Shapes\<close>

record blocks_cursor =
  bc_slot :: u64

record txs_cursor =
  tc_slot :: u64
  tc_idx :: u32

text \<open>\<^verbatim>\<open>SchemasCursor\<close>, \<^verbatim>\<open>AttestorSetsCursor\<close>, \<^verbatim>\<open>BountiesCursor\<close> and \<^verbatim>\<open>ContractsCursor\<close>.\<close>

record slot_id_cursor =
  ic_slot :: u64
  ic_id :: string

record attestations_cursor =
  ac_slot :: u64
  ac_schema_id :: string
  ac_payload_hash :: string

definition ser_blocks_cursor :: "blocks_cursor \<Rightarrow> json" where
  "ser_blocks_cursor c = JObject [(''slot'', JInt (uint (bc_slot c)))]"

definition ser_txs_cursor :: "txs_cursor \<Rightarrow> json" where
  "ser_txs_cursor c = JObject [(''slot'', JInt (uint (tc_slot c))), (''idx'', JInt (uint (tc_idx c)))]"

definition ser_slot_id_cursor :: "slot_id_cursor \<Rightarrow> json" where
  "ser_slot_id_cursor c = JObject [(''slot'', JInt (uint (ic_slot c))), (''id'', JString (ic_id c))]"

definition ser_attestations_cursor :: "attestations_cursor \<Rightarrow> json" where
  "ser_attestations_cursor c =
     JObject [(''slot'', JInt (uint (ac_slot c))), (''schema_id'', JString (ac_schema_id c)),
       (''payload_hash'', JString (ac_payload_hash c))]"

definition de_word :: "json \<Rightarrow> ('w :: len) word option" where
  "de_word v = map_option of_nat (de_uint (2 ^ LENGTH('w)) v)"

definition de_blocks_cursor :: "json \<Rightarrow> blocks_cursor option" where
  "de_blocks_cursor v =
     (case struct_fields [''slot''] v of
        Some [f0] \<Rightarrow> map_option (\<lambda>x. \<lparr>bc_slot = x\<rparr>) (de_field de_word f0)
      | _ \<Rightarrow> None)"

definition de_txs_cursor :: "json \<Rightarrow> txs_cursor option" where
  "de_txs_cursor v =
     (case struct_fields [''slot'', ''idx''] v of
        Some [f0, f1] \<Rightarrow>
          do { x \<leftarrow> de_field de_word f0; y \<leftarrow> de_field de_word f1; Some \<lparr>tc_slot = x, tc_idx = y\<rparr> }
      | _ \<Rightarrow> None)"

definition de_slot_id_cursor :: "json \<Rightarrow> slot_id_cursor option" where
  "de_slot_id_cursor v =
     (case struct_fields [''slot'', ''id''] v of
        Some [f0, f1] \<Rightarrow>
          do { x \<leftarrow> de_field de_word f0; y \<leftarrow> de_field de_string f1; Some \<lparr>ic_slot = x, ic_id = y\<rparr> }
      | _ \<Rightarrow> None)"

definition de_attestations_cursor :: "json \<Rightarrow> attestations_cursor option" where
  "de_attestations_cursor v =
     (case struct_fields [''slot'', ''schema_id'', ''payload_hash''] v of
        Some [f0, f1, f2] \<Rightarrow>
          do { x \<leftarrow> de_field de_word f0; y \<leftarrow> de_field de_string f1; z \<leftarrow> de_field de_string f2;
               Some \<lparr>ac_slot = x, ac_schema_id = y, ac_payload_hash = z\<rparr> }
      | _ \<Rightarrow> None)"

lemma de_word_uint [simp]: "de_word (JInt (uint (x :: 'w :: len word))) = Some x"
proof -
  have "uint x < 2 ^ LENGTH('w)" by (rule uint_lt2p)
  moreover have "of_nat (nat (uint x)) = x" by (simp add: nat_uint_eq)
  ultimately show ?thesis by (simp add: de_word_def)
qed

lemma de_ser_cursor [simp]:
  "de_blocks_cursor (ser_blocks_cursor b) = Some b"
  "de_txs_cursor (ser_txs_cursor t) = Some t"
  "de_slot_id_cursor (ser_slot_id_cursor i) = Some i"
  "de_attestations_cursor (ser_attestations_cursor a) = Some a"
  by (simp_all add: de_blocks_cursor_def ser_blocks_cursor_def de_txs_cursor_def ser_txs_cursor_def
      de_slot_id_cursor_def ser_slot_id_cursor_def de_attestations_cursor_def ser_attestations_cursor_def)

lemma uint_flat [simp]: "uint (x :: u64) < 18446744073709551616" "uint (y :: u32) < 18446744073709551616"
  using uint_lt2p [of x] uint_lt2p [of y] by simp_all

lemma flat_cursor [simp]:
  "flat_object (ser_blocks_cursor b)"
  "flat_object (ser_txs_cursor t)"
  "flat_object (ser_slot_id_cursor i)"
  "flat_object (ser_attestations_cursor a)"
  by (simp_all add: ser_blocks_cursor_def ser_txs_cursor_def ser_slot_id_cursor_def
      ser_attestations_cursor_def flat_object_def flat_value_def)

section \<open>A concrete codec\<close>

text \<open>
  Length-prefixed fields, one byte per character: a codec for the witnesses that satisfies the
  contract.
\<close>

definition net :: "string \<Rightarrow> string" where
  "net s = show_nat (length s) @ CHR '':'' # s"

definition unnet :: "string \<Rightarrow> (string \<times> string) option" where
  "unnet s =
     (case parse_digits 0 (takeWhile (\<lambda>c. c \<noteq> CHR '':'') s) of
        None \<Rightarrow> None
      | Some n \<Rightarrow> let r = drop 1 (dropWhile (\<lambda>c. c \<noteq> CHR '':'') s) in Some (take n r, drop n r))"

fun net_value :: "json \<Rightarrow> string" where
  "net_value (JInt i) = CHR ''i'' # show_int i"
| "net_value (JString s) = CHR ''s'' # s"
| "net_value _ = []"

fun unnet_value :: "string \<Rightarrow> json option" where
  "unnet_value [] = None"
| "unnet_value (c # s) = (if c = CHR ''i'' then map_option JInt (parse_int s) else Some (JString s))"

definition net_fields :: "(string \<times> json) list \<Rightarrow> string" where
  "net_fields kvs = concat (map (\<lambda>(k, v). net k @ net (net_value v)) kvs)"

fun unnet_fields :: "nat \<Rightarrow> string \<Rightarrow> (string \<times> json) list option" where
  "unnet_fields 0 s = None"
| "unnet_fields (Suc f) s =
     (if s = [] then Some []
      else do { (k, s1) \<leftarrow> unnet s; (w, s2) \<leftarrow> unnet s1; v \<leftarrow> unnet_value w;
                kvs \<leftarrow> unnet_fields f s2; Some ((k, v) # kvs) })"

definition net_codec :: cursor_codec where
  "net_codec =
     \<lparr>b64_encode = map (\<lambda>b. char_of (unat b)), b64_decode = (\<lambda>s. Some (map (\<lambda>c. of_nat (of_char c)) s)),
      serde_to_vec = (\<lambda>v. case v of JObject kvs \<Rightarrow> Some (map (\<lambda>c. of_nat (of_char c)) (net_fields kvs)) | _ \<Rightarrow> None),
      serde_from_slice = (\<lambda>b. let s = map (\<lambda>x. char_of (unat x)) b
                             in map_option JObject (unnet_fields (Suc (length s)) s))\<rparr>"

lemma digits_no_colon:
  "c \<in> set (show_nat n) \<Longrightarrow> c \<noteq> CHR '':''"
proof (induction n rule: show_nat.induct)
  case (1 n)
  have d: "digit_char k \<noteq> CHR '':''" if "k < 10" for k
  proof
    assume "digit_char k = CHR '':''"
    then have "of_char (digit_char k) = (of_char (CHR '':'') :: nat)" by simp
    with that show False by simp
  qed
  show ?case
    using 1 d [of n] d [of "n mod 10"] by (auto simp: show_nat.simps [of n] split: if_splits)
qed

lemma unnet_net [simp]: "unnet (net s @ t) = Some (s, t)"
proof -
  have a: "takeWhile (\<lambda>c. c \<noteq> CHR '':'') (show_nat n @ CHR '':'' # r) = show_nat n"
    and b: "dropWhile (\<lambda>c. c \<noteq> CHR '':'') (show_nat n @ CHR '':'' # r) = CHR '':'' # r" for n r
    using digits_no_colon by (auto simp: takeWhile_append dropWhile_append dropWhile_eq_Nil_conv)
  show ?thesis by (simp add: unnet_def net_def a b parse_digits_show_nat)
qed

lemma unnet_net_value: "flat_value v \<Longrightarrow> unnet_value (net_value v) = Some v"
  by (cases v) (auto simp: flat_value_def)

lemma unnet_net_fields:
  "list_all (\<lambda>kv. flat_value (snd kv)) kvs \<Longrightarrow> length (net_fields kvs) < f \<Longrightarrow>
   unnet_fields f (net_fields kvs) = Some kvs"
proof (induction kvs arbitrary: f)
  case Nil
  then show ?case by (cases f) (auto simp: net_fields_def)
next
  case (Cons kv kvs)
  obtain k v where kv: "kv = (k, v)" by (cases kv) auto
  obtain f' where f: "f = Suc f'" using Cons.prems(2) by (cases f) auto
  have nf: "net_fields (kv # kvs) = net k @ net (net_value v) @ net_fields kvs"
    by (simp add: net_fields_def kv)
  have ne: "net k \<noteq> []" by (simp add: net_def)
  have "0 < length (net k)" by (simp add: net_def)
  with Cons.prems(2) have "length (net_fields kvs) < f'" unfolding nf f length_append by linarith
  then have "unnet_fields f' (net_fields kvs) = Some kvs" using Cons by simp
  then show ?case
    using Cons.prems(1) ne by (simp add: nf [unfolded kv] f kv unnet_net_value)
qed

lemma byte_of_char [simp]: "char_of (unat (of_nat (of_char c) :: u8)) = (c :: char)"
proof -
  have "(of_char c :: nat) < 256" by simp
  then have "unat (of_nat (of_char c) :: u8) = of_char c"
    by (simp add: unat_of_nat take_bit_nat_eq_self)
  then show ?thesis by simp
qed

lemma char_of_byte [simp]: "of_nat (of_char (char_of (unat b) :: char)) = (b :: u8)"
proof -
  have "unat b < 256" using unsigned_less [of b, where ?'a = nat] by simp
  then show ?thesis by simp
qed

lemma net_codec_ok: "codec_ok net_codec"
proof -
  have "\<exists>b. serde_to_vec net_codec v = Some b \<and> serde_from_slice net_codec b = Some v"
    if "flat_object v" for v
    using that unnet_net_fields [OF _ lessI]
    by (cases v) (simp_all add: flat_object_def net_codec_def comp_def Let_def del: unnet_fields.simps)
  moreover have "b64_decode net_codec (b64_encode net_codec b) = Some b" for b
    using char_of_byte by (simp add: net_codec_def comp_def del: of_char_of)
  ultimately show ?thesis by (simp add: codec_ok_def)
qed

end
