(* ===== verification/Pagination.thy ===== *)
theory Pagination
  imports Prelude
begin

text \<open>
  Keyset pagination, the scheme all list endpoints share: a page is the first rows in descending
  order of a key below the cursor, one row more than the page shows is fetched to know whether there
  is a next page, and the next cursor is the key of the last row shown. The locale states what a
  client of such an endpoint may rely on; walking the pages is proved to visit every row once.
\<close>

section \<open>Pages\<close>

definition desc :: "('r \<Rightarrow> 'k :: linorder) \<Rightarrow> 'r list \<Rightarrow> 'r list" where
  "desc key rows = rev (sort_key key rows)"

text \<open>\<^verbatim>\<open>WHERE key < before ORDER BY key DESC LIMIT n\<close>, without the condition at the head.\<close>

definition below :: "'k :: linorder option \<Rightarrow> 'k \<Rightarrow> bool" where
  "below before x = (case before of None \<Rightarrow> True | Some b \<Rightarrow> x < b)"

definition select_page :: "('r \<Rightarrow> 'k :: linorder) \<Rightarrow> 'r list \<Rightarrow> 'k option \<Rightarrow> nat \<Rightarrow> 'r list" where
  "select_page key rows before n = take n (desc key (filter (\<lambda>r. below before (key r)) rows))"

text \<open>
  What a handler does with the rows of a page: \<^verbatim>\<open>has_more\<close>, \<^verbatim>\<open>truncate\<close>, and the
  cursor of the last row.
\<close>

definition cut_page :: "('r \<Rightarrow> string option) \<Rightarrow> nat \<Rightarrow> 'r list \<Rightarrow> 'r list \<times> string option" where
  "cut_page cur limit rows =
     (let has_more = length rows > limit;
          shown = (if has_more then take limit rows else rows)
      in (shown, if has_more then (if shown = [] then None else cur (last shown)) else None))"

section \<open>Walking the pages\<close>

text \<open>
  A client that follows the cursors: page \<open>i\<close> is served from the store as it is by then. The walk
  returns nothing if it does not end within its fuel.
\<close>

fun walk_pages ::
  "('s \<Rightarrow> string option \<Rightarrow> 'a list \<times> string option) \<Rightarrow> (nat \<Rightarrow> 's) \<Rightarrow> nat \<Rightarrow> nat \<Rightarrow> string option \<Rightarrow>
   'a list option" where
  "walk_pages serve store 0 i before = None"
| "walk_pages serve store (Suc fuel) i before =
     (case serve (store i) before of
        (xs, None) \<Rightarrow> Some xs
      | (xs, Some next) \<Rightarrow> map_option ((@) xs) (walk_pages serve store fuel (Suc i) (Some next)))"

text \<open>
  Between two page requests the keys below an already listed row stay the same; rows may change
  otherwise, and new rows may appear above.
\<close>

definition keys_below :: "('r \<Rightarrow> 'k :: linorder) \<Rightarrow> 'k \<Rightarrow> 'r list \<Rightarrow> 'k set" where
  "keys_below key k rs = {x \<in> key ` set rs. x < k}"

definition stays_below :: "('r \<Rightarrow> 'k :: linorder) \<Rightarrow> (nat \<Rightarrow> 'r list) \<Rightarrow> bool" where
  "stays_below key hist \<longleftrightarrow>
     (\<forall>i. \<forall>r \<in> set (hist 0). keys_below key (key r) (hist i) = keys_below key (key r) (hist 0))"

text \<open>An item shown for a key is the view of the row that had the key when its page was served.\<close>

definition shown :: "('r \<Rightarrow> 'k) \<Rightarrow> ('r \<Rightarrow> 'a) \<Rightarrow> (nat \<Rightarrow> 'r list) \<Rightarrow> 'a \<Rightarrow> 'k \<Rightarrow> bool" where
  "shown key view hist a k \<longleftrightarrow> (\<exists>i. \<exists>r \<in> set (hist i). key r = k \<and> a = view r)"

text \<open>Following the cursors ends and shows exactly the given rows, each once and in descending order.\<close>

definition lists_all ::
  "('s \<Rightarrow> string option \<Rightarrow> 'a list \<times> string option) \<Rightarrow> (nat \<Rightarrow> 's) \<Rightarrow> nat \<Rightarrow> ('r \<Rightarrow> 'k :: linorder) \<Rightarrow> ('r \<Rightarrow> 'a) \<Rightarrow> 'r list \<Rightarrow> bool" where
  "lists_all serve store fuel key view rows \<longleftrightarrow>
     (\<exists>as ks. walk_pages serve store fuel 0 None = Some as \<and> list_all2 (shown key view (\<lambda>_. rows)) as ks \<and>
        sorted_wrt (\<lambda>a b. b < a) ks \<and> set ks = key ` set rows)"

lemma set_desc [simp]: "set (desc key rows) = set rows"
  by (simp add: desc_def)

lemma length_desc [simp]: "length (desc key rows) = length rows"
  by (simp add: desc_def)

lemma mset_desc: "sort_key key rows = rev (desc key rows)"
  by (simp add: desc_def)

lemma filter_desc: "filter P (desc key rows) = desc key (filter P rows)"
  by (simp add: desc_def filter_sort flip: rev_filter)

lemma desc_decreasing:
  assumes "distinct (map key rows)"
  shows "sorted_wrt (\<lambda>a b. key b < key a) (desc key rows)"
proof -
  have d: "distinct (map key (sort_key key rows))"
    using assms by (metis distinct_map distinct_sort set_sort)
  have "sorted (map key (sort_key key rows))" by simp
  with d have "sorted_wrt (<) (map key (sort_key key rows))"
    by (simp add: strict_sorted_iff)
  then show ?thesis by (simp add: desc_def sorted_wrt_rev sorted_wrt_map)
qed

lemma desc_hd_max:
  assumes "rows \<noteq> []"
  shows "key (hd (desc key rows)) = Max (key ` set rows)"
proof -
  obtain d ds where d: "desc key rows = d # ds"
    using assms by (metis length_0_conv length_desc neq_Nil_conv)
  have "sorted_wrt (\<lambda>a b. key b \<le> key a) (desc key rows)"
    using sorted_sort_key [of key rows] by (simp add: desc_def sorted_wrt_rev sorted_wrt_map)
  then have "\<forall>r \<in> set ds. key r \<le> key d" by (simp add: d)
  moreover have "set rows = insert d (set ds)" using set_desc [of key rows] by (simp add: d)
  ultimately show ?thesis by (intro Max_eqI [symmetric]) (auto simp: d)
qed

lemma desc_keys_unique:
  assumes "distinct (map key rs)" and "sorted_wrt (\<lambda>a b. b < a) ks" and "key ` set rs = set ks"
  shows "map key (desc key rs) = ks"
proof -
  have "sorted_wrt (<) (rev (map key (desc key rs)))"
    using desc_decreasing [OF assms(1)] by (simp add: sorted_wrt_rev sorted_wrt_map)
  moreover have "sorted_wrt (<) (rev ks)" using assms(2) by (simp add: sorted_wrt_rev)
  moreover have "set (rev (map key (desc key rs))) = set (rev ks)" using assms(3) by simp
  ultimately have "rev (map key (desc key rs)) = rev ks" by (metis strict_sorted_equal)
  then show ?thesis by (simp only: rev_is_rev_conv)
qed

lemma below_nth_desc:
  assumes "sorted_wrt (\<lambda>a b. b < a) ks" and "0 < n" and "n \<le> length (ks :: 'k :: linorder list)"
  shows "{k \<in> set ks. k < ks ! (n - 1)} = set (drop n ks)" and "sorted_wrt (\<lambda>a b. b < a) (drop n ks)"
proof -
  have split: "ks = take (n - 1) ks @ ks ! (n - 1) # drop n ks"
    using id_take_nth_drop [of "n - 1" ks] assms(2,3) by simp
  let ?z = "ks ! (n - 1)" and ?rest = "drop n ks" and ?top = "take (n - 1) ks"
  have srt: "sorted_wrt (\<lambda>a b. b < a) (?top @ ?z # ?rest)" using assms(1) split by simp
  then show "sorted_wrt (\<lambda>a b. b < a) ?rest" by (simp add: sorted_wrt_append)
  have "set ks = set ?top \<union> insert ?z (set ?rest)" using arg_cong [OF split, of set] by simp
  moreover have "\<forall>k \<in> set ?top. \<not> k < ?z" "\<forall>k \<in> set ?rest. k < ?z"
    using srt by (auto simp: sorted_wrt_append)
  ultimately show "{k \<in> set ks. k < ?z} = set ?rest" by auto
qed

lemma shown_take:
  assumes "set ys \<subseteq> set (hist i)" and "map key ys = ks"
  shows "list_all2 (shown key view hist) (map view (take n ys)) (take n ks)"
proof -
  have "shown key view hist (view (ys ! j)) (key (ys ! j))" if "j < length ys" for j
    using that assms(1) nth_mem [OF that] unfolding shown_def by blast
  then show ?thesis
    by (auto simp: list_all2_conv_all_nth assms(2) [symmetric] take_map)
qed

text \<open>The page of a list that is already in order.\<close>

lemma cut_take:
  assumes "0 < n"
  shows "cut_page cur n (take (Suc n) ys) =
    (take n ys, if length ys \<le> n then None else cur (ys ! (n - 1)))"
proof (cases "length ys \<le> n")
  case True
  then show ?thesis by (simp add: cut_page_def)
next
  case False
  then have "take n ys \<noteq> []" and len: "length (take n ys) = n"
    using assms by auto
  then have "last (take n ys) = ys ! (n - 1)"
    using assms by (simp add: last_conv_nth)
  with False assms len show ?thesis
    by (auto simp: cut_page_def min_def Let_def)
qed

text \<open>
  The contract of an endpoint in an environment \<open>w\<close> (the codec, the collation and the filters of the
  request): the rows it lists have distinct keys, and it serves the views of the pages of these
  rows, given no cursor or the cursor it handed out for one of its rows.
\<close>

locale keyset_endpoint =
  fixes good :: "'w \<Rightarrow> bool"
    and ok :: "'w \<Rightarrow> 's \<Rightarrow> bool"
    and rows :: "'w \<Rightarrow> 's \<Rightarrow> 'r list"
    and key :: "'w \<Rightarrow> 'r \<Rightarrow> 'k :: linorder"
    and cur :: "'w \<Rightarrow> 'r \<Rightarrow> string option"
    and view :: "'w \<Rightarrow> 'r \<Rightarrow> 'a"
    and size :: "'l \<Rightarrow> nat"
    and serve :: "'w \<Rightarrow> 'l \<Rightarrow> 's \<Rightarrow> string option \<Rightarrow> 'a list \<times> string option"
  assumes size_pos: "0 < size l"
    and distinct_keys: "good w \<Longrightarrow> ok w s \<Longrightarrow> distinct (map (key w) (rows w s))"
    and cursor_given: "good w \<Longrightarrow> ok w s \<Longrightarrow> r \<in> set (rows w s) \<Longrightarrow> cur w r \<noteq> None"
    and serve_head: "good w \<Longrightarrow> ok w s \<Longrightarrow>
      serve w l s None =
        apfst (map (view w)) (cut_page (cur w) (size l) (select_page (key w) (rows w s) None (size l + 1)))"
    and serve_next: "good w \<Longrightarrow> ok w s \<Longrightarrow> ok w s' \<Longrightarrow> r \<in> set (rows w s') \<Longrightarrow> cur w r = Some c \<Longrightarrow>
      serve w l s (Some c) =
        apfst (map (view w))
          (cut_page (cur w) (size l) (select_page (key w) (rows w s) (Some (key w r)) (size l + 1)))"
begin

text \<open>From a page on, the walk shows the keys below the cursor, as long as they stay.\<close>

lemma walk_suffix:
  assumes g: "good w" and oks: "\<And>i. ok w (store i)"
    and "ok w s" and "x \<in> set (rows w s)" and "cur w x = Some c"
    and "\<And>i. keys_below (key w) (key w x) (rows w (store i)) = set ks"
    and "sorted_wrt (\<lambda>a b. b < a) ks" and "length ks < fuel"
  shows "\<exists>as. walk_pages (serve w l) store fuel i (Some c) = Some as \<and>
    list_all2 (shown (key w) (view w) (\<lambda>i. rows w (store i))) as ks"
  using assms(3-)
proof (induction ks arbitrary: fuel i s x c rule: length_induct)
  case (1 ks)
  let ?k = "key w" and ?n = "size l" and ?shown = "shown (key w) (view w) (\<lambda>i. rows w (store i))"
  let ?ys = "desc ?k (filter (\<lambda>r. ?k r < ?k x) (rows w (store i)))"
  have keys: "map ?k ?ys = ks"
    using distinct_keys [OF g oks [of i]] "1.prems"(4) [of i] "1.prems"(5)
    by (intro desc_keys_unique distinct_map_filter) (auto simp: keys_below_def)
  have sub: "set ?ys \<subseteq> set (rows w (store i))" by auto
  have len: "length ?ys = length ks" using keys by (metis length_map)
  have sv: "serve w l (store i) (Some c) =
      (map (view w) (take ?n ?ys), if length ks \<le> ?n then None else cur w (?ys ! (?n - 1)))"
    using serve_next [OF g oks "1.prems"(1,2,3), of l i] len
    by (simp add: select_page_def below_def cut_take size_pos del: length_desc)
  have first: "list_all2 ?shown (map (view w) (take ?n ?ys)) (take ?n ks)"
    by (rule shown_take [where i = i]) (use sub keys in simp_all)
  obtain f where f: "fuel = Suc f" using "1.prems"(6) by (cases fuel) auto
  show ?case
  proof (cases "length ks \<le> ?n")
    case True
    then show ?thesis using first by (simp add: f sv)
  next
    case False
    let ?y = "?ys ! (?n - 1)" and ?rest = "drop ?n ks"
    have lt: "?n - 1 < length ?ys" using False size_pos [of l] len by linarith
    have y: "?y \<in> set (rows w (store i))" using nth_mem [OF lt] sub by blast
    have ky: "?k ?y = ks ! (?n - 1)" using nth_map [OF lt, of ?k] keys by simp
    obtain c' where c': "cur w ?y = Some c'" using cursor_given [OF g oks y] by blast
    have n: "?n \<le> length ks" using False by simp
    have srt: "sorted_wrt (\<lambda>a b. b < a) ?rest" and "{k \<in> set ks. k < ?k ?y} = set ?rest"
      using below_nth_desc [OF "1.prems"(5) size_pos n] unfolding ky by simp_all
    moreover have "?k ?y < ?k x" using nth_mem [OF lt] by simp
    ultimately have "keys_below ?k (?k ?y) (rows w (store j)) = set ?rest" for j
      using "1.prems"(4) [of j] by (auto simp: keys_below_def dest: order.strict_trans)
    moreover have "length ?rest < length ks" "length ?rest < f"
      using "1.prems"(6) f False size_pos [of l] by auto
    ultimately obtain as where "walk_pages (serve w l) store f (Suc i) (Some c') = Some as"
      "list_all2 ?shown as ?rest"
      using "1.IH" [rule_format, of ?rest "store i" ?y c' f "Suc i"] oks y c' srt by blast
    then show ?thesis
      using False c' first list_all2_appendI [OF first, of as ?rest] by (simp add: f sv)
  qed
qed

text \<open>Every key is shown, once, in descending order.\<close>

lemma walk_complete:
  assumes g: "good w" and oks: "\<And>i. ok w (store i)"
    and stays: "stays_below (key w) (\<lambda>i. rows w (store i))"
    and fuel: "length (rows w (store 0)) < fuel"
  shows "\<exists>as ks. walk_pages (serve w l) store fuel 0 None = Some as \<and>
    list_all2 (shown (key w) (view w) (\<lambda>i. rows w (store i))) as ks \<and>
    sorted_wrt (\<lambda>a b. b < a) ks \<and> set ks = key w ` set (rows w (store 0))"
proof -
  let ?k = "key w" and ?n = "size l" and ?shown = "shown (key w) (view w) (\<lambda>i. rows w (store i))"
  let ?ys = "desc ?k (rows w (store 0))"
  let ?ks = "map ?k ?ys"
  have srt: "sorted_wrt (\<lambda>a b. b < a) ?ks"
    using desc_decreasing [OF distinct_keys [OF g oks]] by (simp add: sorted_wrt_map)
  have sv: "serve w l (store 0) None =
      (map (view w) (take ?n ?ys), if length ?ys \<le> ?n then None else cur w (?ys ! (?n - 1)))"
    using serve_head [OF g oks, of l 0] by (simp add: select_page_def below_def cut_take size_pos)
  have first: "list_all2 ?shown (map (view w) (take ?n ?ys)) (take ?n ?ks)"
    by (rule shown_take [where i = 0]) simp_all
  obtain f where f: "fuel = Suc f" using fuel by (cases fuel) auto
  have "\<exists>as. walk_pages (serve w l) store fuel 0 None = Some as \<and> list_all2 ?shown as ?ks"
  proof (cases "length ?ys \<le> ?n")
    case True
    then show ?thesis using first by (simp add: f sv)
  next
    case False
    let ?y = "?ys ! (?n - 1)" and ?rest = "drop ?n ?ks"
    have lt: "?n - 1 < length ?ys" using False size_pos [of l] by linarith
    have y: "?y \<in> set (rows w (store 0))" using nth_mem [OF lt] by simp
    obtain c where c: "cur w ?y = Some c" using cursor_given [OF g oks y] by blast
    have n: "?n \<le> length ?ks" and ky: "?k ?y = ?ks ! (?n - 1)" using False lt by simp_all
    have srt': "sorted_wrt (\<lambda>a b. b < a) ?rest" and "{k \<in> set ?ks. k < ?k ?y} = set ?rest"
      using below_nth_desc [OF srt size_pos n] ky by simp_all
    moreover have "keys_below ?k (?k ?y) (rows w (store j)) = keys_below ?k (?k ?y) (rows w (store 0))" for j
      using stays y unfolding stays_below_def by blast
    ultimately have "keys_below ?k (?k ?y) (rows w (store j)) = set ?rest" for j
      unfolding keys_below_def by simp
    moreover have "length ?rest < f" using fuel f False size_pos [of l] by simp
    ultimately obtain as where "walk_pages (serve w l) store f (Suc 0) (Some c) = Some as"
      "list_all2 ?shown as ?rest"
      using walk_suffix [where ks = ?rest and i = "Suc 0" and fuel = f and l = l and store = store,
          OF g oks oks [of 0] y c _ srt'] by blast
    then show ?thesis
      using False c first list_all2_appendI [OF first, of as ?rest] by (simp add: f sv)
  qed
  moreover have "set ?ks = ?k ` set (rows w (store 0))" by simp
  ultimately show ?thesis using srt by blast
qed

text \<open>On a table that does not change while it is walked.\<close>

lemma lists_everything:
  assumes "good w" and "\<And>i. ok w (store i)" and "\<And>i. rows w (store i) = rs" and "length rs < fuel"
  shows "lists_all (serve w l) store fuel (key w) (view w) rs"
  using walk_complete [OF assms(1,2), where fuel = fuel and l = l] assms(3,4) by (simp add: lists_all_def stays_below_def)

end

end
