(* ===== verification/Queries.thy ===== *)
theory Queries
  imports Cursor Pagination "HOL-Library.Product_Lexorder"
begin

text \<open>
  The read side of the service, \<^verbatim>\<open>crates/api/src/queries.rs\<close>: every query is one statement on
  the tables of the store. The row structs of the source select columns of the tables; here a query
  returns the table rows (for the joins, pairs of them) and the columns it does not select are not
  looked at. Descending pages are the \<open>select_page\<close> of keyset pagination.

  Text columns are ordered by the collation of the database, a parameter: \<open>collate\<close> maps a text to
  its sort key. The renderings of timestamps (chrono), numerics (BigDecimal) and JSON values
  (Postgres) are parameters too.
\<close>

record 'k api_env =
  ae_pg :: pg
  ae_codec :: cursor_codec
  collate :: "string \<Rightarrow> 'k"
  rfc3339_millis :: "time \<Rightarrow> string"
  bigdecimal_text :: "int \<Rightarrow> string"
  jsonb_text :: "json \<Rightarrow> string"

definition read_op :: "pg \<Rightarrow> (db \<Rightarrow> 'a) \<Rightarrow> 'a op" where
  "read_op P q = exec P (\<lambda>_ d. Inr (d, q d))"

lemma read_op_simps:
  "\<not> pg_fault P (p_seq p) \<Longrightarrow> read_op P q p = (Inr (q (p_db p)), p\<lparr>p_seq := Suc (p_seq p)\<rparr>)"
  "pg_fault P (p_seq p) \<Longrightarrow> read_op P q p = (Inl Io, p\<lparr>p_seq := Suc (p_seq p)\<rparr>)"
  by (simp_all add: read_op_def exec_def Let_def)

lemma read_op_db [simp]: "p_db (snd (read_op P q p)) = p_db p"
  by (cases "pg_fault P (p_seq p)") (simp_all add: read_op_simps)

text \<open>\<^verbatim>\<open>($n IS NULL OR column = $n)\<close>.\<close>

definition matches :: "'a option \<Rightarrow> 'a \<Rightarrow> bool" where
  "matches f x = (case f of None \<Rightarrow> True | Some y \<Rightarrow> x = y)"

section \<open>Slots\<close>

definition max_height :: "slot_row list \<Rightarrow> int option" where
  "max_height rows =
     (case rows of [] \<Rightarrow> None | r # rs \<Rightarrow> Some (fold (\<lambda>x m. max (s_height x) m) rs (s_height r)))"

definition max_slot_height :: "pg \<Rightarrow> int option op" where
  "max_slot_height P = read_op P (\<lambda>d. max_height (slots d))"

definition slot_by_height :: "pg \<Rightarrow> int \<Rightarrow> slot_row option op" where
  "slot_by_height P height = read_op P (\<lambda>d. find_row s_height height (slots d))"

definition slots_page :: "pg \<Rightarrow> int option \<Rightarrow> nat \<Rightarrow> slot_row list op" where
  "slots_page P before_height limit_plus_one =
     read_op P (\<lambda>d. select_page s_height (slots d) before_height limit_plus_one)"

section \<open>Transactions\<close>

type_synonym tx_join = "tx_row \<times> slot_row"

definition transactions_join_slots :: "db \<Rightarrow> tx_join list" where
  "transactions_join_slots d =
     concat (map (\<lambda>t. map (Pair t) (filter (\<lambda>s. s_height s = t_slot t) (slots d))) (transactions d))"

definition tx_key :: "tx_join \<Rightarrow> int \<times> int" where
  "tx_key j = (t_slot (fst j), t_position (fst j))"

definition tx_by_hash :: "pg \<Rightarrow> string \<Rightarrow> tx_join option op" where
  "tx_by_hash P hash = read_op P (\<lambda>d. find_row (\<lambda>j. t_hash (fst j)) hash (transactions_join_slots d))"

definition txs_where :: "string option \<Rightarrow> u64 option \<Rightarrow> db \<Rightarrow> tx_join list" where
  "txs_where kind_filter block_height d =
     filter (\<lambda>j. matches kind_filter (t_kind (fst j)) \<and> matches (map_option as_i64 block_height) (t_slot (fst j)))
       (transactions_join_slots d)"

definition txs_page :: "pg \<Rightarrow> string option \<Rightarrow> u64 option \<Rightarrow> (int \<times> int) option \<Rightarrow> nat \<Rightarrow> tx_join list op" where
  "txs_page P kind_filter block_height before limit_plus_one =
     read_op P (\<lambda>d. select_page tx_key (txs_where kind_filter block_height d) before limit_plus_one)"

text \<open>\<^verbatim>\<open>details->>'key'\<close>: the text of a member, NULL when it is absent or null.\<close>

definition json_member_text :: "(json \<Rightarrow> string) \<Rightarrow> json \<Rightarrow> string \<Rightarrow> string option" where
  "json_member_text render v k =
     (case v of
        JObject kvs \<Rightarrow>
          (case map_of kvs k of
             None \<Rightarrow> None
           | Some JNull \<Rightarrow> None
           | Some (JString s) \<Rightarrow> Some s
           | Some w \<Rightarrow> Some (render w))
      | _ \<Rightarrow> None)"

definition participates :: "(json \<Rightarrow> string) \<Rightarrow> string \<Rightarrow> tx_row \<Rightarrow> bool" where
  "participates render addr t \<longleftrightarrow>
     t_sender t = Some addr \<or>
     (t_kind t = ''transfer'' \<and> json_member_text render (t_details t) ''from'' = Some addr) \<or>
     (t_kind t = ''transfer'' \<and> json_member_text render (t_details t) ''to'' = Some addr)"

definition address_txs_where :: "(json \<Rightarrow> string) \<Rightarrow> string \<Rightarrow> db \<Rightarrow> tx_join list" where
  "address_txs_where render addr d =
     filter (\<lambda>j. participates render addr (fst j)) (transactions_join_slots d)"

definition address_txs_page ::
  "'k api_env \<Rightarrow> string \<Rightarrow> (int \<times> int) option \<Rightarrow> nat \<Rightarrow> tx_join list op" where
  "address_txs_page E addr before limit_plus_one =
     read_op (ae_pg E) (\<lambda>d. select_page tx_key (address_txs_where (jsonb_text E) addr d) before limit_plus_one)"

section \<open>Schemas and attestor sets\<close>

type_synonym schema_join = "schema_row \<times> attestor_set_row"

definition schemas_join_sets :: "db \<Rightarrow> schema_join list" where
  "schemas_join_sets d =
     concat (map (\<lambda>s. map (Pair s) (filter (\<lambda>a. as_id a = sc_attestor_set_id s) (attestor_sets d))) (schemas d))"

definition collated :: "'k api_env \<Rightarrow> int \<times> string \<Rightarrow> int \<times> 'k" where
  "collated E c = (fst c, collate E (snd c))"

definition schema_key :: "'k api_env \<Rightarrow> schema_join \<Rightarrow> int \<times> 'k" where
  "schema_key E j = collated E (sc_slot (fst j), sc_id (fst j))"

definition schema_by_id :: "pg \<Rightarrow> string \<Rightarrow> schema_join option op" where
  "schema_by_id P i = read_op P (\<lambda>d. find_row (\<lambda>j. sc_id (fst j)) i (schemas_join_sets d))"

definition schemas_where :: "string option \<Rightarrow> db \<Rightarrow> schema_join list" where
  "schemas_where attestor_set_filter d =
     filter (\<lambda>j. matches attestor_set_filter (sc_attestor_set_id (fst j))) (schemas_join_sets d)"

definition schemas_page ::
  "('k :: linorder) api_env \<Rightarrow> string option \<Rightarrow> (int \<times> string) option \<Rightarrow> nat \<Rightarrow> schema_join list op" where
  "schemas_page E attestor_set_filter before limit_plus_one =
     read_op (ae_pg E) (\<lambda>d. select_page (schema_key E) (schemas_where attestor_set_filter d)
       (map_option (collated E) before) limit_plus_one)"

definition attestor_set_key :: "'k api_env \<Rightarrow> attestor_set_row \<Rightarrow> int \<times> 'k" where
  "attestor_set_key E r = collated E (as_slot r, as_id r)"

definition attestor_set_by_id :: "pg \<Rightarrow> string \<Rightarrow> attestor_set_row option op" where
  "attestor_set_by_id P i = read_op P (\<lambda>d. find_row as_id i (attestor_sets d))"

definition attestor_sets_page ::
  "('k :: linorder) api_env \<Rightarrow> (int \<times> string) option \<Rightarrow> nat \<Rightarrow> attestor_set_row list op" where
  "attestor_sets_page E before limit_plus_one =
     read_op (ae_pg E) (\<lambda>d. select_page (attestor_set_key E) (attestor_sets d)
       (map_option (collated E) before) limit_plus_one)"

text \<open>\<^verbatim>\<open>members @> [pubkey]\<close>: an array that has the string as an element.\<close>

definition json_contains_member :: "json \<Rightarrow> string \<Rightarrow> bool" where
  "json_contains_member v pubkey =
     (case v of JArray vs \<Rightarrow> JString pubkey \<in> set vs | _ \<Rightarrow> False)"

definition attestor_sets_where_member :: "string \<Rightarrow> db \<Rightarrow> attestor_set_row list" where
  "attestor_sets_where_member pubkey d =
     filter (\<lambda>r. json_contains_member (as_members r) pubkey) (attestor_sets d)"

definition attestor_sets_for_member_page ::
  "('k :: linorder) api_env \<Rightarrow> string \<Rightarrow> (int \<times> string) option \<Rightarrow> nat \<Rightarrow> attestor_set_row list op" where
  "attestor_sets_for_member_page E pubkey before limit_plus_one =
     read_op (ae_pg E) (\<lambda>d. select_page (attestor_set_key E) (attestor_sets_where_member pubkey d)
       (map_option (collated E) before) limit_plus_one)"

section \<open>Address summaries\<close>

definition zero_summary :: "string \<Rightarrow> address_row" where
  "zero_summary a =
     \<lparr>ad_address = a, ad_txs_sent_count = 0, ad_txs_received_count = 0, ad_first_seen_slot = None,
      ad_first_seen_tx = None, ad_first_seen_timestamp = None, ad_last_seen_slot = None,
      ad_last_seen_tx = None, ad_last_seen_timestamp = None, ad_schemas_owned_count = 0,
      ad_attestor_member_count = 0, ad_indexed_at = 0\<rparr>"

definition query_address_summary :: "pg \<Rightarrow> string \<Rightarrow> address_row op" where
  "query_address_summary P address =
     read_op P (\<lambda>d. case find_row ad_address address (address_summaries d) of
                       Some r \<Rightarrow> r | None \<Rightarrow> zero_summary address)"

section \<open>Attestations\<close>

definition attestation_collated :: "'k api_env \<Rightarrow> int \<times> string \<times> string \<Rightarrow> int \<times> 'k \<times> 'k" where
  "attestation_collated E c = (fst c, collate E (fst (snd c)), collate E (snd (snd c)))"

definition attestation_key :: "'k api_env \<Rightarrow> attestation_row \<Rightarrow> int \<times> 'k \<times> 'k" where
  "attestation_key E r = attestation_collated E (at_slot r, at_schema_id r, at_payload_hash r)"

definition attestations_where :: "string option \<Rightarrow> db \<Rightarrow> attestation_row list" where
  "attestations_where schema_id_filter d =
     filter (\<lambda>r. matches schema_id_filter (at_schema_id r)) (attestations d)"

definition attestations_page ::
  "('k :: linorder) api_env \<Rightarrow> string option \<Rightarrow> (int \<times> string \<times> string) option \<Rightarrow> nat \<Rightarrow> attestation_row list op" where
  "attestations_page E schema_id_filter before limit_plus_one =
     read_op (ae_pg E) (\<lambda>d. select_page (attestation_key E) (attestations_where schema_id_filter d)
       (map_option (attestation_collated E) before) limit_plus_one)"

definition attestations_of_set :: "string \<Rightarrow> db \<Rightarrow> attestation_row list" where
  "attestations_of_set attestor_set_id d =
     concat (map (\<lambda>a. map (\<lambda>_. a) (filter (\<lambda>s. sc_id s = at_schema_id a \<and> sc_attestor_set_id s = attestor_set_id)
        (schemas d))) (attestations d))"

definition query_attestations_by_attestor_set ::
  "('k :: linorder) api_env \<Rightarrow> string \<Rightarrow> (int \<times> string \<times> string) option \<Rightarrow> nat \<Rightarrow> attestation_row list op" where
  "query_attestations_by_attestor_set E attestor_set_id before limit_plus_one =
     read_op (ae_pg E) (\<lambda>d. select_page (attestation_key E) (attestations_of_set attestor_set_id d)
       (map_option (attestation_collated E) before) limit_plus_one)"

definition query_attestation_by_id :: "pg \<Rightarrow> string \<Rightarrow> attestation_row option op" where
  "query_attestation_by_id P i = read_op P (\<lambda>d. find_row at_id i (attestations d))"

section \<open>Search lookups\<close>

definition slot_height_for_block_hash :: "pg \<Rightarrow> string \<Rightarrow> int option op" where
  "slot_height_for_block_hash P hash = read_op P (\<lambda>d. map_option s_height (find_row s_hash hash (slots d)))"

definition address_exists :: "pg \<Rightarrow> string \<Rightarrow> bool op" where
  "address_exists P address = read_op P (\<lambda>d. address \<in> ad_address ` set (address_summaries d))"

definition schema_exists :: "pg \<Rightarrow> string \<Rightarrow> bool op" where
  "schema_exists P i = read_op P (\<lambda>d. i \<in> sc_id ` set (schemas d))"

definition attestor_set_exists :: "pg \<Rightarrow> string \<Rightarrow> bool op" where
  "attestor_set_exists P i = read_op P (\<lambda>d. i \<in> as_id ` set (attestor_sets d))"

definition attestation_id_exists :: "pg \<Rightarrow> string \<Rightarrow> bool op" where
  "attestation_id_exists P i = read_op P (\<lambda>d. i \<in> at_id ` set (attestations d))"

text \<open>\<^verbatim>\<open>ORDER BY submitted_at_slot DESC, schema_id ASC LIMIT 1\<close>.\<close>

definition first_by_payload :: "('k :: linorder) api_env \<Rightarrow> string \<Rightarrow> db \<Rightarrow> attestation_row option" where
  "first_by_payload E payload_hash d =
     (case sort_key (\<lambda>r. (- at_slot r, collate E (at_schema_id r)))
             (filter (\<lambda>r. at_payload_hash r = payload_hash) (attestations d)) of
        [] \<Rightarrow> None | r # _ \<Rightarrow> Some r)"

definition attestation_id_by_payload_hash :: "('k :: linorder) api_env \<Rightarrow> string \<Rightarrow> string option op" where
  "attestation_id_by_payload_hash E payload_hash =
     read_op (ae_pg E) (\<lambda>d. map_option at_id (first_by_payload E payload_hash d))"

section \<open>Bounties and contracts\<close>

text \<open>
  The matching query joins the open bounties with the attestations of the address on the board
  schema, groups by bounty and counts; a bounty without an attestation has no group.
\<close>

definition my_attestations :: "string \<Rightarrow> bounty_row \<Rightarrow> db \<Rightarrow> nat" where
  "my_attestations address b d =
     length (filter (\<lambda>a. at_schema_id a = bo_board_schema_id b \<and> at_submitter a = address) (attestations d))"

definition bounty_match_key :: "'k api_env \<Rightarrow> bounty_row \<Rightarrow> int \<times> 'k" where
  "bounty_match_key E b = (- bo_slot b, collate E (bo_id b))"

definition bounties_matching_address ::
  "('k :: linorder) api_env \<Rightarrow> string \<Rightarrow> nat \<Rightarrow> (bounty_row \<times> nat) list op" where
  "bounties_matching_address E address limit =
     read_op (ae_pg E) (\<lambda>d. take limit (map (\<lambda>b. (b, my_attestations address b d))
       (sort_key (bounty_match_key E)
         (filter (\<lambda>b. bo_status b = ''open'' \<and> my_attestations address b d > 0) (bounties d)))))"

definition bounty_key :: "'k api_env \<Rightarrow> bounty_row \<Rightarrow> int \<times> 'k" where
  "bounty_key E r = collated E (bo_slot r, bo_id r)"

definition bounty_by_id :: "pg \<Rightarrow> string \<Rightarrow> bounty_row option op" where
  "bounty_by_id P i = read_op P (\<lambda>d. find_row bo_id i (bounties d))"

definition bounties_where :: "string option \<Rightarrow> string option \<Rightarrow> db \<Rightarrow> bounty_row list" where
  "bounties_where board status d =
     filter (\<lambda>r. matches board (bo_board_schema_id r) \<and> matches status (bo_status r)) (bounties d)"

definition bounties_page ::
  "('k :: linorder) api_env \<Rightarrow> string option \<Rightarrow> string option \<Rightarrow> (int \<times> string) option \<Rightarrow> nat \<Rightarrow> bounty_row list op" where
  "bounties_page E board status before limit_plus_one =
     read_op (ae_pg E) (\<lambda>d. select_page (bounty_key E) (bounties_where board status d)
       (map_option (collated E) before) limit_plus_one)"

definition contract_key :: "'k api_env \<Rightarrow> contract_row \<Rightarrow> int \<times> 'k" where
  "contract_key E r = collated E (co_slot r, co_id r)"

definition contract_by_id :: "pg \<Rightarrow> string \<Rightarrow> contract_row option op" where
  "contract_by_id P i = read_op P (\<lambda>d. find_row co_id i (contracts d))"

definition contracts_where :: "string option \<Rightarrow> string option \<Rightarrow> string option \<Rightarrow> db \<Rightarrow> contract_row list" where
  "contracts_where status poster arbiter d =
     filter (\<lambda>r. matches status (co_status r) \<and> matches poster (co_poster r) \<and> matches arbiter (co_arbiter r))
       (contracts d)"

definition contracts_page ::
  "('k :: linorder) api_env \<Rightarrow> string option \<Rightarrow> string option \<Rightarrow> string option \<Rightarrow> (int \<times> string) option \<Rightarrow> nat \<Rightarrow>
   contract_row list op" where
  "contracts_page E status poster arbiter before limit_plus_one =
     read_op (ae_pg E) (\<lambda>d. select_page (contract_key E) (contracts_where status poster arbiter d)
       (map_option (collated E) before) limit_plus_one)"

lemmas query_defs = max_slot_height_def slot_by_height_def slots_page_def tx_by_hash_def txs_page_def
  address_txs_page_def schema_by_id_def schemas_page_def attestor_set_by_id_def attestor_sets_page_def
  attestor_sets_for_member_page_def query_address_summary_def attestations_page_def
  query_attestations_by_attestor_set_def query_attestation_by_id_def slot_height_for_block_hash_def
  address_exists_def schema_exists_def attestor_set_exists_def attestation_id_exists_def
  attestation_id_by_payload_hash_def bounties_matching_address_def bounty_by_id_def bounties_page_def
  contract_by_id_def contracts_page_def

section \<open>Joins\<close>

text \<open>A join along a foreign key has one row for each row on the left.\<close>

lemma filter_key_singleton:
  assumes "unique_key key rows" and "k \<in> key ` set rows"
  shows "\<exists>r. filter (\<lambda>x. key x = k) rows = [r] \<and> r \<in> set rows \<and> key r = k"
  using assms
proof (induction rows)
  case (Cons a rows)
  show ?case
  proof (cases "key a = k")
    case True
    then have "filter (\<lambda>x. key x = k) rows = []"
      using Cons.prems(1) by (auto simp: unique_key_def filter_empty_conv image_iff)
    with True show ?thesis by auto
  next
    case False
    then show ?thesis using Cons by (auto simp: unique_key_def)
  qed
qed simp

lemma join_fst:
  assumes "unique_key key rs" and "\<And>l. l \<in> set ls \<Longrightarrow> fk l \<in> key ` set rs"
  shows "map fst (concat (map (\<lambda>l. map (Pair l) (filter (\<lambda>r. key r = fk l) rs)) ls)) = ls"
  using assms(2)
proof (induction ls)
  case (Cons l ls)
  obtain r where "filter (\<lambda>x. key x = fk l) rs = [r]"
    using filter_key_singleton [OF assms(1), of "fk l"] Cons.prems by auto
  then show ?case using Cons by simp
qed simp

lemma join_set:
  "(l, r) \<in> set (concat (map (\<lambda>l. map (Pair l) (filter (\<lambda>r. key r = fk l) rs)) ls)) \<longleftrightarrow>
     l \<in> set ls \<and> r \<in> set rs \<and> key r = fk l"
  by auto

lemma max_height_correct:
  "max_height rows = (if rows = [] then None else Some (Max (s_height ` set rows)))"
proof (cases rows)
  case (Cons r rs)
  have "fold (\<lambda>x m. max (s_height x) m) rs (s_height r) = fold max (map s_height rs) (s_height r)"
    by (simp add: fold_map comp_def)
  also have "\<dots> = Max (set (map s_height rows))"
    using Max.set_eq_fold [of "s_height r" "map s_height rs"] by (simp add: Cons)
  finally show ?thesis by (simp add: max_height_def Cons)
qed (simp add: max_height_def)

end
