(* ===== verification/Client.thy ===== *)
theory Client
  imports Store
begin

text \<open>
  The REST client of the node, \<^verbatim>\<open>crates/indexer/src/client.rs\<close>, with the error type of
  \<^verbatim>\<open>crates/indexer/src/error.rs\<close> and the decoders of the response bodies. The HTTP transport
  is a parameter: it answers request number \<open>n\<close> for a URL and an optional bearer token with a failed
  send, a failed body read, or a status with the body, where parsing the bytes as JSON is the
  parser's business. Requests and database statements share one counter, so a run is a sequence of
  both.
\<close>

section \<open>Errors\<close>

datatype indexer_error =
    NodeUnreachable string
  | NodeBadShape string string
  | Database db_error

section \<open>Bodies\<close>

definition de_u64 :: "json \<Rightarrow> u64 option" where
  "de_u64 v = map_option of_nat (de_uint (2 ^ 64) v)"

fun de_i64 :: "json \<Rightarrow> int option" where
  "de_i64 (JInt i) = (if - (2 ^ 63) \<le> i \<and> i \<le> i64_max then Some i else None)"
| "de_i64 _ = None"

fun de_bool :: "json \<Rightarrow> bool option" where
  "de_bool (JBool b) = Some b"
| "de_bool _ = None"

text \<open>A struct with a flattened catch-all accepts objects only and keeps the members it does not name.\<close>

definition flat_fields :: "string list \<Rightarrow> json \<Rightarrow> (json option list \<times> (string \<times> json) list) option" where
  "flat_fields names v =
     map_option (\<lambda>kvs. (map (map_of kvs) names, filter (\<lambda>(key, _). key \<notin> set names) kvs)) (as_object v)"

definition de_rollup_info :: "json \<Rightarrow> rollup_info option" where
  "de_rollup_info v =
     (case struct_fields [''chain_id'', ''chain_hash'', ''version''] v of
        Some [f0, f1, f2] \<Rightarrow>
          do {
            x0 \<leftarrow> de_field de_string f0;
            x1 \<leftarrow> de_field de_string f1;
            x2 \<leftarrow> de_field de_string f2;
            Some \<lparr>ri_chain_id = x0, ri_chain_hash = x1, ri_version = x2\<rparr>
          }
      | _ \<Rightarrow> None)"

definition de_uint64_range :: "json \<Rightarrow> uint64_range option" where
  "de_uint64_range v =
     (case struct_fields [''start'', ''end''] v of
        Some [f0, f1] \<Rightarrow>
          do {
            x0 \<leftarrow> de_field de_u64 f0;
            x1 \<leftarrow> de_field de_u64 f1;
            Some \<lparr>rg_start = x0, rg_end = x1\<rparr>
          }
      | _ \<Rightarrow> None)"

definition de_slot_response :: "json \<Rightarrow> slot_response option" where
  "de_slot_response v =
     (case flat_fields [''number'', ''hash'', ''prev_hash'', ''timestamp'', ''state_root'', ''batch_count'',
         ''tx_count'', ''batch_range'', ''finality_status''] v of
        Some ([f0, f1, f2, f3, f4, f5, f6, f7, f8], rest) \<Rightarrow>
          do {
            x0 \<leftarrow> de_field de_u64 f0;
            x1 \<leftarrow> de_field de_string f1;
            x2 \<leftarrow> de_field_or None (de_option de_string) f2;
            x3 \<leftarrow> de_field_or None (de_option de_u64) f3;
            x4 \<leftarrow> de_field_or None (de_option de_string) f4;
            x5 \<leftarrow> de_field_or None (de_option de_u64) f5;
            x6 \<leftarrow> de_field_or None (de_option de_u64) f6;
            x7 \<leftarrow> de_field_or None (de_option de_uint64_range) f7;
            x8 \<leftarrow> de_field_or None (de_option de_string) f8;
            Some \<lparr>sl_number = x0, sl_hash = x1, sl_prev_hash = x2, sl_timestamp = x3, sl_state_root = x4,
                  sl_batch_count = x5, sl_tx_count = x6, sl_batch_range = x7, sl_finality_status = x8,
                  sl_raw = rest\<rparr>
          }
      | _ \<Rightarrow> None)"

definition de_ledger_batch :: "json \<Rightarrow> ledger_batch option" where
  "de_ledger_batch v =
     (case flat_fields [''type'', ''number'', ''hash'', ''slot_number'', ''tx_range''] v of
        Some ([f0, f1, f2, f3, f4], rest) \<Rightarrow>
          do {
            x0 \<leftarrow> de_field de_string f0;
            x1 \<leftarrow> de_field de_u64 f1;
            x2 \<leftarrow> de_field de_string f2;
            x3 \<leftarrow> de_field de_u64 f3;
            x4 \<leftarrow> de_field de_uint64_range f4;
            Some \<lparr>lb_type = x0, lb_number = x1, lb_hash = x2, lb_slot_number = x3, lb_tx_range = x4,
                  lb_raw = rest\<rparr>
          }
      | _ \<Rightarrow> None)"

definition de_module_ref :: "json \<Rightarrow> module_ref option" where
  "de_module_ref v =
     (case struct_fields [''type'', ''name''] v of
        Some [f0, f1] \<Rightarrow>
          do {
            x0 \<leftarrow> de_field_or [] de_string f0;
            x1 \<leftarrow> de_field de_string f1;
            Some \<lparr>mr_type = x0, mr_name = x1\<rparr>
          }
      | _ \<Rightarrow> None)"

definition de_ledger_event :: "json \<Rightarrow> ledger_event option" where
  "de_ledger_event v =
     (case struct_fields [''type'', ''number'', ''key'', ''value'', ''module'', ''tx_hash''] v of
        Some [f0, f1, f2, f3, f4, f5] \<Rightarrow>
          do {
            x0 \<leftarrow> de_field de_string f0;
            x1 \<leftarrow> de_field de_u64 f1;
            x2 \<leftarrow> de_field de_string f2;
            x3 \<leftarrow> de_field Some f3;
            x4 \<leftarrow> de_field de_module_ref f4;
            x5 \<leftarrow> de_field de_string f5;
            Some \<lparr>ev_type = x0, ev_number = x1, ev_key = x2, ev_value = x3, ev_module = x4, ev_tx_hash = x5\<rparr>
          }
      | _ \<Rightarrow> None)"

definition de_fully_baked_tx :: "json \<Rightarrow> fully_baked_tx option" where
  "de_fully_baked_tx v =
     (case struct_fields [''data'', ''sequencing_data''] v of
        Some [f0, f1] \<Rightarrow>
          do {
            x0 \<leftarrow> de_field de_string f0;
            x1 \<leftarrow> de_field_or None (de_option de_string) f1;
            Some \<lparr>fb_data = x0, fb_sequencing_data = x1\<rparr>
          }
      | _ \<Rightarrow> None)"

definition de_tx_receipt :: "json \<Rightarrow> tx_receipt option" where
  "de_tx_receipt v =
     (case struct_fields [''result'', ''data''] v of
        Some [f0, f1] \<Rightarrow>
          do {
            x0 \<leftarrow> de_field de_string f0;
            x1 \<leftarrow> de_field Some f1;
            Some \<lparr>rp_result = x0, rp_data = x1\<rparr>
          }
      | _ \<Rightarrow> None)"

definition de_ledger_tx :: "json \<Rightarrow> ledger_tx option" where
  "de_ledger_tx v =
     (case struct_fields [''type'', ''hash'', ''number'', ''event_range'', ''body'', ''receipt'', ''events'',
         ''batch_number''] v of
        Some [f0, f1, f2, f3, f4, f5, f6, f7] \<Rightarrow>
          do {
            x0 \<leftarrow> de_field de_string f0;
            x1 \<leftarrow> de_field de_string f1;
            x2 \<leftarrow> de_field de_u64 f2;
            x3 \<leftarrow> de_field de_uint64_range f3;
            x4 \<leftarrow> de_field de_fully_baked_tx f4;
            x5 \<leftarrow> de_field de_tx_receipt f5;
            x6 \<leftarrow> de_field_or [] (de_vec de_ledger_event) f6;
            x7 \<leftarrow> de_field de_u64 f7;
            Some \<lparr>lt_type = x0, lt_hash = x1, lt_number = x2, lt_event_range = x3, lt_body = x4,
                  lt_receipt = x5, lt_events = x6, lt_batch_number = x7\<rparr>
          }
      | _ \<Rightarrow> None)"

definition de_bounty_record :: "json \<Rightarrow> bounty_record option" where
  "de_bounty_record v =
     (case struct_fields [''poster'', ''board_schema_id'', ''pool'', ''per_attestation'', ''acceptance'',
         ''expiry_da_height'', ''dispute_window_blocks'', ''status''] v of
        Some [f0, f1, f2, f3, f4, f5, f6, f7] \<Rightarrow>
          do {
            x0 \<leftarrow> de_field de_string f0;
            x1 \<leftarrow> de_field de_string f1;
            x2 \<leftarrow> de_field de_string f2;
            x3 \<leftarrow> de_field de_string f3;
            x4 \<leftarrow> de_field Some f4;
            x5 \<leftarrow> de_field de_u64 f5;
            x6 \<leftarrow> de_field (de_uint (2 ^ 32)) f6;
            x7 \<leftarrow> de_field de_string f7;
            Some \<lparr>br_poster = x0, br_board_schema_id = x1, br_pool = x2, br_per_attestation = x3,
                  br_acceptance = x4, br_expiry_da_height = x5, br_dispute_window_blocks = x6, br_status = x7\<rparr>
          }
      | _ \<Rightarrow> None)"

definition de_contract_record :: "json \<Rightarrow> contract_record option" where
  "de_contract_record v =
     (case struct_fields [''poster'', ''arbiter'', ''criteria_doc_hash'', ''pool'', ''expiry_da_height'',
         ''dispute_window_blocks'', ''arbiter_fee_bps'', ''status''] v of
        Some [f0, f1, f2, f3, f4, f5, f6, f7] \<Rightarrow>
          do {
            x0 \<leftarrow> de_field de_string f0;
            x1 \<leftarrow> de_field de_string f1;
            x2 \<leftarrow> de_field Some f2;
            x3 \<leftarrow> de_field de_string f3;
            x4 \<leftarrow> de_field de_u64 f4;
            x5 \<leftarrow> de_field (de_uint (2 ^ 32)) f5;
            x6 \<leftarrow> de_field (de_uint 65536) f6;
            x7 \<leftarrow> de_field de_string f7;
            Some \<lparr>cr_poster = x0, cr_arbiter = x1, cr_criteria_doc_hash = x2, cr_pool = x3,
                  cr_expiry_da_height = x4, cr_dispute_window_blocks = x5, cr_arbiter_fee_bps = x6, cr_status = x7\<rparr>
          }
      | _ \<Rightarrow> None)"

text \<open>The envelopes \<^verbatim>\<open>BountyResponse\<close> and \<^verbatim>\<open>ContractResponse\<close> are structs with one field.\<close>

definition de_bounty_response :: "json \<Rightarrow> bounty_record option" where
  "de_bounty_response = de_variant ''bounty'' de_bounty_record"

definition de_contract_response :: "json \<Rightarrow> contract_record option" where
  "de_contract_response = de_variant ''contract'' de_contract_record"

definition de_chain_cluster_node :: "json \<Rightarrow> chain_cluster_node option" where
  "de_chain_cluster_node v =
     (case struct_fields [''node_id'', ''address'', ''is_leader'', ''last_heartbeat_age_ms''] v of
        Some [f0, f1, f2, f3] \<Rightarrow>
          do {
            x0 \<leftarrow> de_field de_string f0;
            x1 \<leftarrow> de_field de_string f1;
            x2 \<leftarrow> de_field de_bool f2;
            x3 \<leftarrow> de_field de_i64 f3;
            Some \<lparr>ccn_node_id = x0, ccn_address = x1, ccn_is_leader = x2, ccn_last_heartbeat_age_ms = x3\<rparr>
          }
      | _ \<Rightarrow> None)"

definition de_chain_cluster_topology :: "json \<Rightarrow> chain_cluster_topology option" where
  "de_chain_cluster_topology v =
     (case struct_fields [''nodes'', ''leader_node_id'', ''leader_acquired_at_epoch_ms'',
         ''generated_at_epoch_ms''] v of
        Some [f0, f1, f2, f3] \<Rightarrow>
          do {
            x0 \<leftarrow> de_field (de_vec de_chain_cluster_node) f0;
            x1 \<leftarrow> de_field_or None (de_option de_string) f1;
            x2 \<leftarrow> de_field_or None (de_option de_i64) f2;
            x3 \<leftarrow> de_field de_i64 f3;
            Some \<lparr>cct_nodes = x0, cct_leader_node_id = x1, cct_leader_acquired_at_epoch_ms = x2,
                  cct_generated_at_epoch_ms = x3\<rparr>
          }
      | _ \<Rightarrow> None)"

section \<open>Requests\<close>

datatype reply =
    SendFailed string
  | BodyFailed nat string
  | Reply nat "(string, json) result"

record node_client =
  nc_base :: string
  nc_join :: "string \<Rightarrow> string \<Rightarrow> string"
  nc_get :: "nat \<Rightarrow> string \<Rightarrow> string option \<Rightarrow> reply"

definition node_client_new ::
  "(string \<Rightarrow> (string, string) result) \<Rightarrow> (string \<Rightarrow> string \<Rightarrow> string) \<Rightarrow>
   (nat \<Rightarrow> string \<Rightarrow> string option \<Rightarrow> reply) \<Rightarrow> string \<Rightarrow> (indexer_error, node_client) result" where
  "node_client_new url_parse join transport base_url =
     (let normalized = (if ends_with ''/'' base_url then base_url else base_url @ ''/'')
      in case url_parse normalized of
           Inl e \<Rightarrow> Inl (NodeBadShape base_url (''URL parse: '' @ e))
         | Inr base \<Rightarrow> Inr \<lparr>nc_base = base, nc_join = join, nc_get = transport\<rparr>)"

definition node_url :: "node_client \<Rightarrow> string \<Rightarrow> string" where
  "node_url C path = nc_join C (nc_base C) path"

text \<open>\<^verbatim>\<open>serde_json::from_slice\<close> at a response type.\<close>

definition from_slice :: "(json \<Rightarrow> 'a option) \<Rightarrow> string \<Rightarrow> (string, json) result \<Rightarrow> (indexer_error, 'a) result" where
  "from_slice d url body =
     (case body of
        Inl e \<Rightarrow> Inl (NodeBadShape url e)
      | Inr v \<Rightarrow> ok_or (NodeBadShape url ''invalid type'') (d v))"

type_synonym 'a request = "pool \<Rightarrow> (indexer_error, 'a) result \<times> pool"

definition send :: "node_client \<Rightarrow> string \<Rightarrow> string option \<Rightarrow> pool \<Rightarrow> reply \<times> pool" where
  "send C url token p = (nc_get C (p_seq p) url token, p\<lparr>p_seq := Suc (p_seq p)\<rparr>)"

text \<open>\<^verbatim>\<open>fetch\<close> ignores the status; the lookups by key map 404 to an absent value first.\<close>

definition fetch_as :: "node_client \<Rightarrow> (json \<Rightarrow> 'a option) \<Rightarrow> string \<Rightarrow> 'a request" where
  "fetch_as C d path p =
     (let url = node_url C path
      in case send C url None p of
           (SendFailed e, p') \<Rightarrow> (Inl (NodeUnreachable e), p')
         | (BodyFailed _ e, p') \<Rightarrow> (Inl (NodeUnreachable e), p')
         | (Reply _ body, p') \<Rightarrow> (from_slice d url body, p'))"

definition fetch_unless_404 :: "node_client \<Rightarrow> 'a \<Rightarrow> (json \<Rightarrow> 'a option) \<Rightarrow> string \<Rightarrow> 'a request" where
  "fetch_unless_404 C absent d path p =
     (let url = node_url C path
      in case send C url None p of
           (SendFailed e, p') \<Rightarrow> (Inl (NodeUnreachable e), p')
         | (BodyFailed status e, p') \<Rightarrow>
             (if status = 404 then Inr absent else Inl (NodeUnreachable e), p')
         | (Reply status body, p') \<Rightarrow>
             (if status = 404 then Inr absent else from_slice d url body, p'))"

definition rollup_info :: "node_client \<Rightarrow> rollup_info request" where
  "rollup_info C = fetch_as C de_rollup_info ''v1/rollup/info''"

definition latest_slot :: "node_client \<Rightarrow> slot_response request" where
  "latest_slot C = fetch_as C de_slot_response ''v1/ledger/slots/latest''"

definition slot_at :: "node_client \<Rightarrow> u64 \<Rightarrow> slot_response option request" where
  "slot_at C height =
     fetch_unless_404 C None (map_option Some \<circ> de_slot_response) (''v1/ledger/slots/'' @ show_u64 height)"

definition batch_at :: "node_client \<Rightarrow> u64 \<Rightarrow> ledger_batch option request" where
  "batch_at C number =
     fetch_unless_404 C None (map_option Some \<circ> de_ledger_batch) (''v1/ledger/batches/'' @ show_u64 number)"

definition tx_at_number :: "node_client \<Rightarrow> u64 \<Rightarrow> ledger_tx option request" where
  "tx_at_number C number =
     fetch_unless_404 C None (map_option Some \<circ> de_ledger_tx) (''v1/ledger/txs/'' @ show_u64 number)"

definition events_for_slot :: "node_client \<Rightarrow> u64 \<Rightarrow> ledger_event list request" where
  "events_for_slot C slot_height =
     fetch_unless_404 C [] (de_vec de_ledger_event) (''v1/ledger/slots/'' @ show_u64 slot_height @ ''/events'')"

definition bounty_at :: "node_client \<Rightarrow> string \<Rightarrow> bounty_record option request" where
  "bounty_at C i =
     fetch_unless_404 C None (map_option Some \<circ> de_bounty_response) (''v1/modules/bounty/bounties/'' @ i)"

definition contract_at :: "node_client \<Rightarrow> string \<Rightarrow> contract_record option request" where
  "contract_at C i =
     fetch_unless_404 C None (map_option Some \<circ> de_contract_response)
       (''v1/modules/contracts/contracts/'' @ i)"

definition cluster_nodes :: "node_client \<Rightarrow> string option \<Rightarrow> chain_cluster_topology request" where
  "cluster_nodes C auth_token p =
     (let url = node_url C ''v1/cluster/nodes''
      in case send C url auth_token p of
           (SendFailed e, p') \<Rightarrow> (Inl (NodeUnreachable e), p')
         | (BodyFailed _ e, p') \<Rightarrow> (Inl (NodeUnreachable e), p')
         | (Reply status body, p') \<Rightarrow>
             (if status < 200 \<or> 299 < status
              then Inl (NodeBadShape url (''chain returned HTTP '' @ show_nat status @
                     '' for /v1/cluster/nodes (check CHAIN_CLUSTER_AUTH_TOKEN env var and Caddy auth gate)''))
              else from_slice de_chain_cluster_topology url body, p'))"

section \<open>Lemmas\<close>

lemma fetch_as_pool [simp]: "snd (fetch_as C d path p) = p\<lparr>p_seq := Suc (p_seq p)\<rparr>"
  by (simp add: fetch_as_def send_def Let_def split: reply.split)

lemma fetch_unless_404_pool [simp]: "snd (fetch_unless_404 C a d path p) = p\<lparr>p_seq := Suc (p_seq p)\<rparr>"
  by (simp add: fetch_unless_404_def send_def Let_def split: reply.split)

text \<open>No request writes to the database.\<close>

lemma request_db [simp]:
  "p_db (snd (rollup_info C p)) = p_db p"
  "p_db (snd (latest_slot C p)) = p_db p"
  "p_db (snd (slot_at C h p)) = p_db p"
  "p_db (snd (batch_at C h p)) = p_db p"
  "p_db (snd (tx_at_number C h p)) = p_db p"
  "p_db (snd (events_for_slot C h p)) = p_db p"
  "p_db (snd (bounty_at C i p)) = p_db p"
  "p_db (snd (contract_at C i p)) = p_db p"
  by (simp_all add: rollup_info_def latest_slot_def slot_at_def batch_at_def tx_at_number_def
      events_for_slot_def bounty_at_def contract_at_def)

end
