(* ===== verification/Bank.thy ===== *)
theory Bank
  imports Signer Json
begin

text \<open>
  The reads of the bank module the signer offers to the API, \<^verbatim>\<open>crates/drip/src/signer.rs\<close>:
  the balance of an address and the total supply of the gas token. The typed balance request, the raw
  request, the bech32m form of a token id and the JSON parser belong to the SDK and its libraries and
  are parameters. Errors are the outermost text of the context chain.
\<close>

record bank =
  get_balance_for_holder :: "string \<Rightarrow> u8 list \<Rightarrow> (string, nat) result"
  to_bech32 :: "u8 list \<Rightarrow> string"
  http_get :: "string \<Rightarrow> (string, string) result"
  from_str :: "string \<Rightarrow> (string, json) result"

definition query_balance_for :: "bank \<Rightarrow> 'key signer \<Rightarrow> string \<Rightarrow> (string, nat) result" where
  "query_balance_for B sg address =
     (case get_balance_for_holder B address (avow_token_id sg) of
        Inl _ \<Rightarrow> Inl (''querying AVOW balance for '' @ address)
      | Inr amount \<Rightarrow> Inr amount)"

definition query_self_balance :: "('key, 'addr) sdk \<Rightarrow> bank \<Rightarrow> 'key signer \<Rightarrow> (string, nat) result" where
  "query_self_balance S B sg = query_balance_for B sg (signer_address S sg)"

definition avow_token_id_bech32 :: "bank \<Rightarrow> 'key signer \<Rightarrow> string" where
  "avow_token_id_bech32 B sg = to_bech32 B (avow_token_id sg)"

definition de_supply_resp :: "json \<Rightarrow> string option" where
  "de_supply_resp v =
     (case struct_fields [''amount''] v of Some [f0] \<Rightarrow> de_field de_string f0 | _ \<Rightarrow> None)"

definition supply_path :: "bank \<Rightarrow> 'key signer \<Rightarrow> string" where
  "supply_path B sg = ''/modules/bank/tokens/'' @ avow_token_id_bech32 B sg @ ''/total-supply''"

definition query_total_supply :: "bank \<Rightarrow> 'key signer \<Rightarrow> (string, nat) result" where
  "query_total_supply B sg =
     (let path = supply_path B sg in
      case http_get B path of
        Inl _ \<Rightarrow> Inl (''fetching total supply via '' @ path)
      | Inr body \<Rightarrow>
          (case Option.bind (case from_str B body of Inl _ \<Rightarrow> None | Inr v \<Rightarrow> Some v) de_supply_resp of
             None \<Rightarrow> Inl (''parsing total-supply response: '' @ body)
           | Some amount \<Rightarrow> ok_or (''total-supply.amount not a u128: '' @ amount) (parse_u128 amount)))"

section \<open>The supply round trip\<close>

text \<open>A response with the documented shape, whatever else it carries, is read back exactly.\<close>

lemma query_total_supply_reads:
  assumes "http_get B (supply_path B sg) = Inr body"
    and "from_str B body = Inr (JObject ((''amount'', JString (show_nat n)) # rest))"
    and "n < 2 ^ 128"
  shows "query_total_supply B sg = Inr n"
  using assms by (simp add: query_total_supply_def de_supply_resp_def parse_u128_show_nat del: power_numeral)

lemma query_total_supply_bound: "query_total_supply B sg = Inr n \<Longrightarrow> n < 2 ^ 128"
  by (auto simp: query_total_supply_def Let_def parse_u128_def simp del: power_numeral
      split: sum.splits option.splits dest: parse_uint_bound)

end
