(* ===== verification/Db_Slots.thy ===== *)
theory Db_Slots
  imports Store
begin

text \<open>
  The writes and reads of \<^verbatim>\<open>slots\<close> and \<^verbatim>\<open>indexer_state\<close> in
  \<^verbatim>\<open>crates/indexer/src/db.rs\<close>: slot upserts with the derived previous hash and the
  finality stamp, the flip of pending slots, the resume cursor and the chain identity.
\<close>

section \<open>State entries\<close>

definition KEY_LAST_INDEXED_HEIGHT :: string where
  "KEY_LAST_INDEXED_HEIGHT = ''last_indexed_height''"
definition KEY_CHAIN_ID :: string where
  "KEY_CHAIN_ID = ''chain_id''"
definition KEY_CHAIN_HASH :: string where
  "KEY_CHAIN_HASH = ''chain_hash''"
definition KEY_NODE_VERSION :: string where
  "KEY_NODE_VERSION = ''node_version''"

definition upsert_state_stmt :: "string \<Rightarrow> string \<Rightarrow> unit stmt" where
  "upsert_state_stmt key val t d =
     Inr (d\<lparr>indexer_state := upsert st_k \<lparr>st_k = key, st_v = val, st_updated_at = t\<rparr>
               (\<lambda>r. r\<lparr>st_v := val, st_updated_at := t\<rparr>) (indexer_state d)\<rparr>, ())"

definition upsert_state :: "pg \<Rightarrow> string \<Rightarrow> string \<Rightarrow> unit op" where
  "upsert_state P key val = exec P (upsert_state_stmt key val)"

text \<open>A transaction: its writes become visible together, and only if the commit succeeds.\<close>

definition in_transaction :: "pg \<Rightarrow> unit op \<Rightarrow> unit op" where
  "in_transaction P body =
     op_bind (exec P (\<lambda>_ d. Inr (d, ()))) (\<lambda>_ p1.
       (case op_bind body (\<lambda>_. exec P (\<lambda>_ d. Inr (d, ()))) p1 of
          (Inl e, p2) \<Rightarrow> (Inl e, p2\<lparr>p_db := p_db p1\<rparr>)
        | (Inr u, p2) \<Rightarrow> (Inr u, p2)))"

definition write_chain_identity :: "pg \<Rightarrow> rollup_info \<Rightarrow> unit op" where
  "write_chain_identity P info =
     in_transaction P
       (op_bind (upsert_state P KEY_CHAIN_ID (ri_chain_id info)) (\<lambda>_.
        op_bind (upsert_state P KEY_CHAIN_HASH (ri_chain_hash info)) (\<lambda>_.
        upsert_state P KEY_NODE_VERSION (ri_version info))))"

definition state_value :: "string \<Rightarrow> db \<Rightarrow> string option" where
  "state_value key d = map_option st_v (find_row st_k key (indexer_state d))"

definition read_last_indexed_height :: "pg \<Rightarrow> u64 option op" where
  "read_last_indexed_height P =
     op_bind (exec P (\<lambda>_ d. Inr (d, state_value KEY_LAST_INDEXED_HEIGHT d)))
       (\<lambda>v. op_ok (Option.bind v parse_u64))"

definition write_last_indexed_height :: "pg \<Rightarrow> u64 \<Rightarrow> unit op" where
  "write_last_indexed_height P height = upsert_state P KEY_LAST_INDEXED_HEIGHT (show_u64 height)"

section \<open>Slots\<close>

text \<open>The timestamp the chain reports, in milliseconds; the epoch when it is missing or out of range.\<close>

definition slot_timestamp :: "pg \<Rightarrow> slot_response \<Rightarrow> time" where
  "slot_timestamp P slot =
     (case sl_timestamp slot of
        None \<Rightarrow> 0
      | Some ms \<Rightarrow> if millis_in_range P (as_i64 ms) then as_i64 ms * 1000 else 0)"

definition finalized :: string where
  "finalized = ''finalized''"

definition select_hash :: "int \<Rightarrow> string option stmt" where
  "select_hash h t d = Inr (d, map_option s_hash (find_row s_height h (slots d)))"

definition derive_prev_hash :: "pg \<Rightarrow> slot_response \<Rightarrow> pool \<Rightarrow> string option \<times> pool" where
  "derive_prev_hash P slot p =
     (case sl_prev_hash slot of
        Some h \<Rightarrow> (Some h, p)
      | None \<Rightarrow>
          if sl_number slot > 0 then
            (case exec P (select_hash (as_i64 (sl_number slot - 1))) p of
               (Inl _, p') \<Rightarrow> (None, p')
             | (Inr h, p') \<Rightarrow> (h, p'))
          else (None, p))"

definition new_slot_row ::
  "pg \<Rightarrow> slot_response \<Rightarrow> string option \<Rightarrow> string option \<Rightarrow> int option \<Rightarrow> time \<Rightarrow> slot_row" where
  "new_slot_row P slot prev proposer da t =
     \<lparr>s_height = as_i64 (sl_number slot),
      s_hash = sl_hash slot,
      s_prev_hash = prev,
      s_state_root = sl_state_root slot,
      s_timestamp = slot_timestamp P slot,
      s_batch_count = u64_as_i32 (case sl_batch_count slot of None \<Rightarrow> 0 | Some n \<Rightarrow> n),
      s_tx_count = u64_as_i32 (case sl_tx_count slot of None \<Rightarrow> 0 | Some n \<Rightarrow> n),
      s_raw = ser_slot_response slot,
      s_indexed_at = t,
      s_proposer = proposer,
      s_finality_status = sl_finality_status slot,
      s_finalized_at = (if sl_finality_status slot = Some finalized then Some t else None),
      s_da_block_height = da\<rparr>"

definition merge_slot_row :: "slot_row \<Rightarrow> time \<Rightarrow> slot_row \<Rightarrow> slot_row" where
  "merge_slot_row new t old =
     old\<lparr>s_hash := s_hash new,
         s_prev_hash := coalesce (s_prev_hash new) (s_prev_hash old),
         s_state_root := s_state_root new,
         s_timestamp := s_timestamp new,
         s_batch_count := s_batch_count new,
         s_tx_count := s_tx_count new,
         s_proposer := coalesce (s_proposer new) (s_proposer old),
         s_finality_status := s_finality_status new,
         s_finalized_at :=
           (if s_finality_status old \<noteq> Some finalized \<and> s_finality_status new = Some finalized
            then Some t else s_finalized_at old),
         s_raw := s_raw new,
         s_da_block_height := coalesce (s_da_block_height new) (s_da_block_height old),
         s_indexed_at := t\<rparr>"

definition upsert_slot_stmt ::
  "pg \<Rightarrow> slot_response \<Rightarrow> string option \<Rightarrow> string option \<Rightarrow> int option \<Rightarrow> unit stmt" where
  "upsert_slot_stmt P slot prev proposer da t d =
     (let new = new_slot_row P slot prev proposer da t
      in Inr (d\<lparr>slots := upsert s_height new (merge_slot_row new t) (slots d)\<rparr>, ()))"

definition upsert_slot :: "pg \<Rightarrow> slot_response \<Rightarrow> string option \<Rightarrow> int option \<Rightarrow> unit op" where
  "upsert_slot P slot proposer da p =
     (case derive_prev_hash P slot p of
        (prev, p') \<Rightarrow> exec P (upsert_slot_stmt P slot prev proposer da) p')"

definition flip_stmt :: "u64 \<Rightarrow> nat stmt" where
  "flip_stmt height t d =
     (let hit = (\<lambda>r. s_height r = as_i64 height \<and> s_finality_status r = Some ''pending'')
      in Inr (d\<lparr>slots := update_where hit
                  (\<lambda>r. r\<lparr>s_finality_status := Some finalized, s_finalized_at := Some t, s_indexed_at := t\<rparr>)
                  (slots d)\<rparr>, length (filter hit (slots d))))"

fun flip_from :: "pg \<Rightarrow> nat \<Rightarrow> (u64 \<times> string option) list \<Rightarrow> nat op" where
  "flip_from P flipped [] = op_ok flipped"
| "flip_from P flipped ((height, status) # rest) =
     (if status \<noteq> Some finalized then flip_from P flipped rest
      else op_bind (exec P (flip_stmt height)) (\<lambda>n. flip_from P (flipped + n) rest))"

definition flip_pending_slots :: "pg \<Rightarrow> (u64 \<times> string option) list \<Rightarrow> nat op" where
  "flip_pending_slots P rechecked = flip_from P 0 rechecked"

definition pending_slot_heights :: "pg \<Rightarrow> u64 list op" where
  "pending_slot_heights P =
     exec P (\<lambda>_ d. Inr (d, map (as_u64 \<circ> s_height)
       (sort_key s_height (filter (\<lambda>r. s_finality_status r = Some ''pending'') (slots d)))))"

section \<open>Lookups after the statements\<close>

definition slot_of :: "db \<Rightarrow> int \<Rightarrow> slot_row option" where
  "slot_of d h = find_row s_height h (slots d)"

lemma merge_slot_height [simp]: "s_height (merge_slot_row new t r) = s_height r"
  by (simp add: merge_slot_row_def)

lemma new_slot_height [simp]: "s_height (new_slot_row P slot prev proposer da t) = as_i64 (sl_number slot)"
  by (simp add: new_slot_row_def)

lemma slot_of_upsert:
  assumes "upsert_slot_stmt P slot prev proposer da t d = Inr (d', u)"
  shows "slot_of d' h =
    (if h = as_i64 (sl_number slot)
     then Some (case slot_of d h of
            None \<Rightarrow> new_slot_row P slot prev proposer da t
          | Some r \<Rightarrow> merge_slot_row (new_slot_row P slot prev proposer da t) t r)
     else slot_of d h)"
  using assms
  by (auto simp: upsert_slot_stmt_def slot_of_def find_row_upsert Let_def)

lemma unique_slots_upsert:
  assumes "upsert_slot_stmt P slot prev proposer da t d = Inr (d', u)" and "unique_key s_height (slots d)"
  shows "unique_key s_height (slots d')"
proof -
  have "slots d' = upsert s_height (new_slot_row P slot prev proposer da t)
      (merge_slot_row (new_slot_row P slot prev proposer da t) t) (slots d)"
    using assms(1) by (auto simp: upsert_slot_stmt_def Let_def)
  then show ?thesis using assms(2) by (simp add: unique_key_upsert)
qed

lemma slot_of_flip:
  assumes "flip_stmt height t d = Inr (d', n)"
  shows "slot_of d' h = map_option (\<lambda>r.
    if h = as_i64 height \<and> s_finality_status r = Some ''pending''
    then r\<lparr>s_finality_status := Some finalized, s_finalized_at := Some t, s_indexed_at := t\<rparr> else r)
    (slot_of d h)"
proof (cases "slot_of d h")
  case None
  then show ?thesis
    using assms by (auto simp: flip_stmt_def slot_of_def find_row_update_where Let_def)
next
  case (Some r)
  then have "s_height r = h" by (auto simp: slot_of_def dest: find_row_SomeD)
  with Some assms show ?thesis
    by (auto simp: flip_stmt_def slot_of_def find_row_update_where Let_def)
qed

lemma derive_prev_hash_db [simp]: "p_db (snd (derive_prev_hash P slot p)) = p_db p"
  by (auto simp: derive_prev_hash_def exec_def select_hash_def Let_def split: option.splits if_splits)

text \<open>A slot upsert either fails and keeps the tables, or ran its statement at some instant.\<close>

lemma upsert_slot_cases:
  obtains (failed) e p' where "upsert_slot P slot proposer da p = (Inl e, p')" "p_db p' = p_db p"
  | (written) t p' d where "upsert_slot P slot proposer da p = (Inr (), p')" "p_db p' = d"
      "upsert_slot_stmt P slot (fst (derive_prev_hash P slot p)) proposer da t (p_db p) = Inr (d, ())"
proof -
  obtain prev p1 where dp: "derive_prev_hash P slot p = (prev, p1)" by force
  then have db: "p_db p1 = p_db p" using derive_prev_hash_db [of P slot p] by simp
  show ?thesis
  proof (cases "upsert_slot P slot proposer da p")
    case (Pair r p')
    then have ex: "exec P (upsert_slot_stmt P slot prev proposer da) p1 = (r, p')"
      by (simp add: upsert_slot_def dp)
    show ?thesis
    proof (cases r)
      case (Inl e)
      with Pair ex db exec_Inl show ?thesis by (metis failed pool.ext_inject pool.surjective pool.update_convs(2))
    next
      case (Inr u)
      with ex Pair db show ?thesis
        by (auto simp: exec_Inr dp intro: written)
    qed
  qed
qed

lemma upsert_state_value:
  assumes "upsert_state P key val p = (Inr (), p')"
  shows "state_value i (p_db p') = (if i = key then Some val else state_value i (p_db p))"
  using assms
  by (auto simp: upsert_state_def exec_Inr upsert_state_stmt_def state_value_def find_row_upsert
      split: option.splits)

lemma read_cursor:
  assumes "\<not> pg_fault P (p_seq p)"
  shows "fst (read_last_indexed_height P p) =
    Inr (Option.bind (state_value KEY_LAST_INDEXED_HEIGHT (p_db p)) parse_u64)"
  using assms by (simp add: read_last_indexed_height_def op_bind_def exec_def Let_def)

section \<open>Sequences of slot writes\<close>

text \<open>The ingest loop upserts slots and the re-poll task flips them; their writes interleave freely.\<close>

datatype slot_write = SlotUpsert slot_response "string option" "int option"
  | SlotFlip "(u64 \<times> string option) list"

fun apply_slot_write :: "pg \<Rightarrow> slot_write \<Rightarrow> pool \<Rightarrow> pool" where
  "apply_slot_write P (SlotUpsert slot proposer da) p = snd (upsert_slot P slot proposer da p)"
| "apply_slot_write P (SlotFlip rechecked) p = snd (flip_pending_slots P rechecked p)"

definition run_slot_writes :: "pg \<Rightarrow> slot_write list \<Rightarrow> pool \<Rightarrow> pool" where
  "run_slot_writes P ws p = fold (apply_slot_write P) ws p"

text \<open>The chain never takes back the finality of height \<open>h\<close> in these writes.\<close>

definition keeps_final :: "int \<Rightarrow> slot_write list \<Rightarrow> bool" where
  "keeps_final h ws \<longleftrightarrow>
     (\<forall>w \<in> set ws. case w of
        SlotUpsert slot _ _ \<Rightarrow> as_i64 (sl_number slot) = h \<longrightarrow> sl_finality_status slot = Some finalized
      | SlotFlip _ \<Rightarrow> True)"

definition stamped :: "slot_row \<Rightarrow> bool" where
  "stamped r \<longleftrightarrow> s_finality_status r = Some finalized \<longrightarrow> s_finalized_at r \<noteq> None"

definition all_stamped :: "db \<Rightarrow> bool" where
  "all_stamped d \<longleftrightarrow> (\<forall>h r. slot_of d h = Some r \<longrightarrow> stamped r)"

lemma flip_from_induct:
  assumes "I (p_db p)"
    and step: "\<And>h t d d' n. (h, Some finalized) \<in> set rechecked \<Longrightarrow> I d \<Longrightarrow> flip_stmt h t d = Inr (d', n) \<Longrightarrow> I d'"
  shows "I (p_db (snd (flip_from P n rechecked p)))"
  using assms
proof (induction P n rechecked arbitrary: p rule: flip_from.induct)
  case (1 P flipped)
  then show ?case by simp
next
  case (2 P flipped height status rest)
  have step': "\<And>h t d d' n. (h, Some finalized) \<in> set rest \<Longrightarrow> I d \<Longrightarrow> flip_stmt h t d = Inr (d', n) \<Longrightarrow> I d'"
    using "2.prems"(2) by (meson list.set_intros(2))
  show ?case
  proof (cases "status = Some finalized")
    case False
    then show ?thesis using "2.IH"(1) [OF _ "2.prems"(1) step'] by simp
  next
    case True
    have "I (p_db (snd (exec P (flip_stmt height) p)))"
    proof (rule exec_db_invariant [where I = I, OF "2.prems"(1)])
      show "I d" if "flip_stmt height (pg_now P (p_seq p)) (p_db p) = Inr (d, n)" for d n
        using "2.prems"(2) [OF _ "2.prems"(1) that] True by simp
    qed
    then have "I (p_db (snd (op_bind (exec P (flip_stmt height)) (\<lambda>n. flip_from P (flipped + n) rest) p)))"
    proof (rule op_bind_snd_cases [where Q = "\<lambda>p. I (p_db p)"])
      show "I (p_db (snd (flip_from P (flipped + n) rest p')))" if "I (p_db p')" for n p'
        using True that step' by (intro "2.IH"(2)) auto
    qed
    with True show ?thesis by simp
  qed
qed

lemma slot_writes_invariant:
  assumes "I (p_db p)"
    and ups: "\<And>slot proposer da prev t d d'. SlotUpsert slot proposer da \<in> set ws \<Longrightarrow> I d \<Longrightarrow>
      upsert_slot_stmt P slot prev proposer da t d = Inr (d', ()) \<Longrightarrow> I d'"
    and fl: "\<And>h t d d' n. I d \<Longrightarrow> flip_stmt h t d = Inr (d', n) \<Longrightarrow> I d'"
  shows "I (p_db (run_slot_writes P ws p))"
  using assms(1,2)
proof (induction ws arbitrary: p)
  case Nil
  then show ?case by (simp add: run_slot_writes_def)
next
  case (Cons w ws)
  have "I (p_db (apply_slot_write P w p))"
  proof (cases w)
    case (SlotUpsert slot proposer da)
    have mem: "SlotUpsert slot proposer da \<in> set (w # ws)" by (simp add: SlotUpsert)
    show ?thesis
      by (cases rule: upsert_slot_cases [of P slot proposer da p])
         (use Cons.prems(1) Cons.prems(2) [OF mem Cons.prems(1)] in \<open>auto simp: SlotUpsert\<close>)
  next
    case (SlotFlip rechecked)
    then show ?thesis
      using Cons.prems(1) fl by (auto simp: flip_pending_slots_def intro!: flip_from_induct [where I = I])
  qed
  moreover have "\<And>slot proposer da prev t d d'. SlotUpsert slot proposer da \<in> set ws \<Longrightarrow> I d \<Longrightarrow>
      upsert_slot_stmt P slot prev proposer da t d = Inr (d', ()) \<Longrightarrow> I d'"
    using Cons.prems(2) by (meson list.set_intros(2))
  ultimately have "I (p_db (run_slot_writes P ws (apply_slot_write P w p)))" by (rule Cons.IH)
  then show ?case by (simp add: run_slot_writes_def)
qed

lemma merge_new_stamped: "stamped r \<Longrightarrow> stamped (merge_slot_row (new_slot_row P slot prev proposer da t) t r)"
  by (auto simp: stamped_def merge_slot_row_def new_slot_row_def)

lemma new_stamped: "stamped (new_slot_row P slot prev proposer da t)"
  by (simp add: stamped_def new_slot_row_def)

lemma all_stamped_upsert:
  "all_stamped d \<Longrightarrow> upsert_slot_stmt P slot prev proposer da t d = Inr (d', u) \<Longrightarrow> all_stamped d'"
  by (auto simp: all_stamped_def slot_of_upsert new_stamped merge_new_stamped split: if_splits option.splits)

lemma all_stamped_flip: "all_stamped d \<Longrightarrow> flip_stmt h t d = Inr (d', n) \<Longrightarrow> all_stamped d'"
  by (auto simp: all_stamped_def slot_of_flip stamped_def split: if_splits)

definition final_since :: "int \<Rightarrow> time \<Rightarrow> db \<Rightarrow> bool" where
  "final_since h t d \<longleftrightarrow>
     (\<exists>r. slot_of d h = Some r \<and> s_finality_status r = Some finalized \<and> s_finalized_at r = Some t)"

lemma final_since_upsert:
  assumes "final_since h t0 d" and "upsert_slot_stmt P slot prev proposer da t d = Inr (d', u)"
    and "as_i64 (sl_number slot) = h \<longrightarrow> sl_finality_status slot = Some finalized"
  shows "final_since h t0 d'"
  using assms by (auto simp: final_since_def slot_of_upsert merge_slot_row_def new_slot_row_def)

lemma final_since_flip:
  assumes "final_since h t0 d" and "flip_stmt h' t d = Inr (d', n)"
  shows "final_since h t0 d'"
proof -
  from assms(1) obtain r where r: "slot_of d h = Some r" "s_finality_status r = Some finalized"
    "s_finalized_at r = Some t0" by (auto simp: final_since_def)
  then have "slot_of d' h = Some r"
    by (simp add: slot_of_flip [OF assms(2)] finalized_def)
  with r show ?thesis by (simp add: final_since_def)
qed

text \<open>A slot and pools, for the witnesses.\<close>

definition sample_slot :: "u64 \<Rightarrow> string \<Rightarrow> string \<Rightarrow> slot_response" where
  "sample_slot n h status = \<lparr>sl_number = n, sl_hash = h, sl_prev_hash = None, sl_timestamp = Some 1000,
     sl_state_root = None, sl_batch_count = None, sl_tx_count = None, sl_batch_range = None,
     sl_finality_status = Some status, sl_raw = []\<rparr>"

definition fresh_pool :: pool where
  "fresh_pool = \<lparr>p_db = empty_db, p_seq = 0\<rparr>"

definition one_slot_pool :: pool where
  "one_slot_pool = \<lparr>p_db = empty_db\<lparr>slots :=
     [new_slot_row calm_pg (sample_slot 1 ''a'' finalized) None None None 7]\<rparr>, p_seq = 3\<rparr>"

lemma as_i64_one: "as_i64 1 = 1" "as_i64 0 = 0" "as_i64 2 = 2"
  by (simp_all add: as_i64_small i64_max_def)

section \<open>Properties\<close>

text \<open>C16. The finality stamp is written once: when a slot is finalized with stamp \<open>t\<close> and the
  node does not report it as anything else afterwards, no later upsert and no flip, in any order and
  with any failures in between, changes the stamp.\<close>

theorem finalized_at_stamped_once:
  assumes "slot_of (p_db p) h = Some r" and "s_finality_status r = Some finalized"
    and "s_finalized_at r = Some t" and "keeps_final h ws"
  shows "\<exists>r'. slot_of (p_db (run_slot_writes P ws p)) h = Some r' \<and>
    s_finality_status r' = Some finalized \<and> s_finalized_at r' = Some t"
proof -
  have "final_since h t (p_db (run_slot_writes P ws p))"
  proof (rule slot_writes_invariant)
    show "final_since h t (p_db p)" using assms by (simp add: final_since_def)
    show "final_since h t d'" if "SlotUpsert slot proposer da \<in> set ws" "final_since h t d"
      "upsert_slot_stmt P slot prev proposer da tn d = Inr (d', ())" for slot proposer da prev tn d d'
      using final_since_upsert that assms(4) by (force simp: keeps_final_def)
  qed (rule final_since_flip)
  then show ?thesis by (simp add: final_since_def)
qed

theorem finalized_at_stamped_once_witness:
  "\<exists>r'. slot_of (p_db (run_slot_writes calm_pg
      [SlotUpsert (sample_slot 1 ''a'' finalized) None None, SlotFlip [(1, Some finalized)]] one_slot_pool)) 1 = Some r' \<and>
    s_finality_status r' = Some finalized \<and> s_finalized_at r' = Some 7"
  by (rule finalized_at_stamped_once [of _ _ "new_slot_row calm_pg (sample_slot 1 ''a'' finalized) None None None 7"])
     (simp_all add: one_slot_pool_def slot_of_def new_slot_row_def sample_slot_def keeps_final_def as_i64_one)

text \<open>Every slot the indexer reports as finalized carries a stamp: from a database where this
  holds, any interleaving of upserts and flips keeps it.\<close>

lemma finalized_slots_stamped:
  assumes "all_stamped (p_db p)"
  shows "all_stamped (p_db (run_slot_writes P ws p))"
  using assms by (rule slot_writes_invariant) (auto intro: all_stamped_upsert all_stamped_flip)

text \<open>A successful upsert leaves exactly one row for the slot, with the fields of the fetched
  slot; it never blanks a known proposer, DA height or previous hash, links the slot to its
  predecessor when the node sends no previous hash and the lookup succeeds, and touches no other
  slot.\<close>

lemma upsert_slot_correct:
  assumes "upsert_slot P slot proposer da p = (Inr (), p')"
    and "unique_key s_height (slots (p_db p))"
  shows "unique_key s_height (slots (p_db p')) \<and>
    (\<exists>r. slot_of (p_db p') (as_i64 (sl_number slot)) = Some r \<and>
       s_hash r = sl_hash slot \<and> s_state_root r = sl_state_root slot \<and>
       s_timestamp r = slot_timestamp P slot \<and> s_finality_status r = sl_finality_status slot \<and>
       (\<forall>old. slot_of (p_db p) (as_i64 (sl_number slot)) = Some old \<longrightarrow>
          s_proposer r = coalesce proposer (s_proposer old) \<and>
          s_da_block_height r = coalesce da (s_da_block_height old) \<and>
          (s_prev_hash old \<noteq> None \<longrightarrow> s_prev_hash r \<noteq> None)) \<and>
       (sl_prev_hash slot = None \<and> 0 < sl_number slot \<and> \<not> pg_fault P (p_seq p) \<longrightarrow>
          (\<forall>q. slot_of (p_db p) (as_i64 (sl_number slot - 1)) = Some q \<longrightarrow> s_prev_hash r = Some (s_hash q)))) \<and>
    (\<forall>h. h \<noteq> as_i64 (sl_number slot) \<longrightarrow> slot_of (p_db p') h = slot_of (p_db p) h)"
proof -
  from assms(1) obtain t where st:
    "upsert_slot_stmt P slot (fst (derive_prev_hash P slot p)) proposer da t (p_db p) = Inr (p_db p', ())"
    by (cases rule: upsert_slot_cases [of P slot proposer da p]) auto
  have uk: "unique_key s_height (slots (p_db p'))"
    using st assms(2) by (rule unique_slots_upsert)
  have prev: "fst (derive_prev_hash P slot p) = Some (s_hash q)"
    if "sl_prev_hash slot = None" "0 < sl_number slot" "\<not> pg_fault P (p_seq p)"
      "slot_of (p_db p) (as_i64 (sl_number slot - 1)) = Some q" for q
    using that by (simp add: derive_prev_hash_def exec_def select_hash_def slot_of_def Let_def)
  show ?thesis
  proof (cases "slot_of (p_db p) (as_i64 (sl_number slot))")
    case None
    with uk prev show ?thesis
      by (auto simp: slot_of_upsert [OF st] new_slot_row_def)
  next
    case (Some old)
    with uk prev show ?thesis
      by (auto simp: slot_of_upsert [OF st] new_slot_row_def merge_slot_row_def)
  qed
qed

text \<open>The resume cursor round-trips: after a successful write the next read that succeeds
  returns the same height, for every 64-bit height, and no other state entry changes.\<close>

lemma cursor_roundtrip:
  assumes "write_last_indexed_height P h p = (Inr (), p')" and "\<not> pg_fault P (p_seq p')"
  shows "fst (read_last_indexed_height P p') = Inr (Some h) \<and>
    (\<forall>key. key \<noteq> KEY_LAST_INDEXED_HEIGHT \<longrightarrow> state_value key (p_db p') = state_value key (p_db p))"
  using assms upsert_state_value [of P KEY_LAST_INDEXED_HEIGHT "show_u64 h" p p']
  by (simp add: write_last_indexed_height_def read_cursor)

end
