(* ===== verification/Attestation_Id.thy ===== *)
theory Attestation_Id
  imports Prelude
begin

text \<open>
  The derivation of attestation ids, \<^verbatim>\<open>crates/indexer/src/attestation_id.rs\<close>. Bech32 and
  SHA-256 are the crates the module calls: the record \<open>crypto\<close> holds their functions, and what a
  property needs of them is a hypothesis.
\<close>

record crypto =
  bech32_decode :: "string \<Rightarrow> (string, string \<times> u8 list) result"
  bech32m_encode :: "string \<Rightarrow> u8 list \<Rightarrow> (string, string) result"
  sha256 :: "u8 list \<Rightarrow> u8 list"

definition HRP_SCHEMA :: string where "HRP_SCHEMA = ''lsc''"
definition HRP_PAYLOAD :: string where "HRP_PAYLOAD = ''lph''"
definition HRP_ATTESTATION :: string where "HRP_ATTESTATION = ''lat''"

datatype attestation_id_error =
    Bech32Decode (be_field: string) (be_source: string)
  | HrpMismatch (hm_field: string) (hm_expected: string) (hm_got: string)
  | LengthMismatch (lm_field: string) (lm_got: nat)
  | Bech32Encode string

definition decode_hash32 ::
  "crypto \<Rightarrow> string \<Rightarrow> string \<Rightarrow> string \<Rightarrow> (attestation_id_error, u8 list) result" where
  "decode_hash32 C s expected_hrp field =
     (case bech32_decode C s of
        Inl e \<Rightarrow> Inl (Bech32Decode field e)
      | Inr (hrp, data) \<Rightarrow>
          if hrp \<noteq> expected_hrp then Inl (HrpMismatch field expected_hrp hrp)
          else if length data \<noteq> 32 then Inl (LengthMismatch field (length data))
          else Inr data)"

definition compute_attestation_id ::
  "crypto \<Rightarrow> string \<Rightarrow> string \<Rightarrow> (attestation_id_error, string) result" where
  "compute_attestation_id C schema_id payload_hash =
     bind_result (decode_hash32 C schema_id HRP_SCHEMA ''schema_id'') (\<lambda>s.
     bind_result (decode_hash32 C payload_hash HRP_PAYLOAD ''payload_hash'') (\<lambda>p.
       (case bech32m_encode C HRP_ATTESTATION (sha256 C (s @ p)) of
          Inl e \<Rightarrow> Inl (Bech32Encode e)
        | Inr i \<Rightarrow> Inr i)))"

section \<open>Lemmas\<close>

lemma decode_hash32_Inr:
  "decode_hash32 C s h f = Inr d \<longleftrightarrow> bech32_decode C s = Inr (h, d) \<and> length d = 32"
  by (auto simp: decode_hash32_def split: sum.splits prod.splits if_splits)

lemma map_error_Inr: "(case r of Inl e \<Rightarrow> Inl (f e) | Inr i \<Rightarrow> Inr i) = Inr x \<longleftrightarrow> r = Inr x"
  by (cases r) auto

lemma compute_attestation_id_Inr:
  "compute_attestation_id C sid ph = Inr i \<longleftrightarrow>
     (\<exists>s p. bech32_decode C sid = Inr (HRP_SCHEMA, s) \<and> length s = 32 \<and>
        bech32_decode C ph = Inr (HRP_PAYLOAD, p) \<and> length p = 32 \<and>
        bech32m_encode C HRP_ATTESTATION (sha256 C (s @ p)) = Inr i)"
  unfolding compute_attestation_id_def bind_result_Inr_iff decode_hash32_Inr map_error_Inr by blast

text \<open>What the bech32 crate documents: decoding undoes encoding, for the HRPs and lengths used here.\<close>

definition bech32_roundtrips :: "crypto \<Rightarrow> bool" where
  "bech32_roundtrips C \<longleftrightarrow>
     (\<forall>h \<in> {HRP_SCHEMA, HRP_PAYLOAD, HRP_ATTESTATION}. \<forall>d s.
        bech32m_encode C h d = Inr s \<longrightarrow> bech32_decode C s = Inr (h, d))"

section \<open>Properties\<close>

text \<open>C19. An attestation id is derived exactly when the schema id decodes under \<^verbatim>\<open>lsc\<close>
  and the payload hash under \<^verbatim>\<open>lph\<close>, both to 32 bytes, and the digest of the two byte
  strings, schema first, encodes under \<^verbatim>\<open>lat\<close>; it is then that encoding. Decoding the id
  gives the digest back, and two pairs share an id only if they are the same pair or their digests
  collide.\<close>

theorem attestation_id_correct:
  assumes "bech32_roundtrips C"
  shows "(compute_attestation_id C sid ph = Inr i \<longleftrightarrow>
      (\<exists>s p. bech32_decode C sid = Inr (''lsc'', s) \<and> bech32_decode C ph = Inr (''lph'', p) \<and>
         length s = 32 \<and> length p = 32 \<and> bech32m_encode C ''lat'' (sha256 C (s @ p)) = Inr i)) \<and>
    (compute_attestation_id C sid ph = Inr i \<longrightarrow>
      (\<exists>s p. bech32_decode C sid = Inr (''lsc'', s) \<and> bech32_decode C ph = Inr (''lph'', p) \<and>
         length s = 32 \<and> length p = 32 \<and> bech32_decode C i = Inr (''lat'', sha256 C (s @ p)) \<and>
         (\<forall>sid' ph' s' p'. compute_attestation_id C sid' ph' = Inr i \<and>
            bech32_decode C sid' = Inr (''lsc'', s') \<and> bech32_decode C ph' = Inr (''lph'', p') \<longrightarrow>
            s' = s \<and> p' = p \<or> (s' @ p' \<noteq> s @ p \<and> sha256 C (s' @ p') = sha256 C (s @ p)))))"
proof -
  have derived: "compute_attestation_id C x y = Inr i \<longleftrightarrow>
      (\<exists>s p. bech32_decode C x = Inr (''lsc'', s) \<and> bech32_decode C y = Inr (''lph'', p) \<and>
         length s = 32 \<and> length p = 32 \<and> bech32m_encode C ''lat'' (sha256 C (s @ p)) = Inr i)" for x y
    by (auto simp: compute_attestation_id_Inr HRP_SCHEMA_def HRP_PAYLOAD_def HRP_ATTESTATION_def)
  have dec: "bech32_decode C i = Inr (''lat'', d)" if "bech32m_encode C ''lat'' d = Inr i" for d
    using that assms by (auto simp: bech32_roundtrips_def HRP_ATTESTATION_def)
  have "\<exists>s p. bech32_decode C sid = Inr (''lsc'', s) \<and> bech32_decode C ph = Inr (''lph'', p) \<and>
         length s = 32 \<and> length p = 32 \<and> bech32_decode C i = Inr (''lat'', sha256 C (s @ p)) \<and>
         (\<forall>sid' ph' s' p'. compute_attestation_id C sid' ph' = Inr i \<and>
            bech32_decode C sid' = Inr (''lsc'', s') \<and> bech32_decode C ph' = Inr (''lph'', p') \<longrightarrow>
            s' = s \<and> p' = p \<or> (s' @ p' \<noteq> s @ p \<and> sha256 C (s' @ p') = sha256 C (s @ p)))"
    if id: "compute_attestation_id C sid ph = Inr i"
  proof -
    from id obtain s p where sp: "bech32_decode C sid = Inr (''lsc'', s)" "bech32_decode C ph = Inr (''lph'', p)"
      "length s = 32" "length p = 32" "bech32m_encode C ''lat'' (sha256 C (s @ p)) = Inr i"
      by (auto simp: derived)
    have "s' = s \<and> p' = p \<or> (s' @ p' \<noteq> s @ p \<and> sha256 C (s' @ p') = sha256 C (s @ p))"
      if other: "compute_attestation_id C sid' ph' = Inr i"
        "bech32_decode C sid' = Inr (''lsc'', s')" "bech32_decode C ph' = Inr (''lph'', p')" for sid' ph' s' p'
    proof -
      from other have len: "length s' = 32" "bech32m_encode C ''lat'' (sha256 C (s' @ p')) = Inr i"
        by (auto simp: derived)
      from dec [OF len(2)] dec [OF sp(5)] have "sha256 C (s' @ p') = sha256 C (s @ p)" by simp
      with len(1) sp(3) show ?thesis by auto
    qed
    with sp dec [OF sp(5)] show ?thesis by blast
  qed
  with derived show ?thesis by blast
qed

definition toy_crypto :: crypto where
  "toy_crypto =
     \<lparr>bech32_decode = (\<lambda>s. if length s < 3 then Inl ''too short''
        else Inr (take 3 s, map (\<lambda>c. of_nat (of_char c)) (drop 3 s))),
      bech32m_encode = (\<lambda>h d. if length h = 3 then Inr (h @ map (\<lambda>b. char_of (unat b)) d) else Inl ''hrp''),
      sha256 = (\<lambda>bs. take 32 bs)\<rparr>"

lemma toy_crypto_roundtrips: "bech32_roundtrips toy_crypto"
proof -
  have "(of_nat (of_char (char_of (unat b) :: char)) :: u8) = b" for b :: u8
  proof -
    have "unat b < 256" using unsigned_less [of b, where ?'a = nat] by simp
    then show ?thesis by simp
  qed
  then show ?thesis
    by (auto simp: bech32_roundtrips_def toy_crypto_def comp_def split: if_splits)
qed

theorem attestation_id_correct_witness:
  "\<exists>s p. bech32_decode toy_crypto (''lsc'' @ replicate 32 (CHR ''a'')) = Inr (''lsc'', s) \<and>
    bech32_decode toy_crypto (''lph'' @ replicate 32 (CHR ''b'')) = Inr (''lph'', p) \<and>
    length s = 32 \<and> length p = 32"
proof -
  have "\<exists>i. compute_attestation_id toy_crypto (''lsc'' @ replicate 32 (CHR ''a''))
      (''lph'' @ replicate 32 (CHR ''b'')) = Inr i"
    by (auto simp: compute_attestation_id_def decode_hash32_def toy_crypto_def HRP_SCHEMA_def
        HRP_PAYLOAD_def HRP_ATTESTATION_def)
  then obtain i where i: "compute_attestation_id toy_crypto (''lsc'' @ replicate 32 (CHR ''a''))
      (''lph'' @ replicate 32 (CHR ''b'')) = Inr i" by blast
  from attestation_id_correct [OF toy_crypto_roundtrips] i show ?thesis by blast
qed

end
