(* ===== verification/Parser.thy ===== *)
theory Parser
  imports Wire Attestation_Id "HOL-Library.Multiset"
begin

text \<open>
  Classification of a ledger transaction by the events it emitted,
  \<^verbatim>\<open>crates/indexer/src/parser.rs\<close>. The parameter \<open>C\<close> holds the hash and bech32
  functions, \<open>J\<close> is serde_json's rendering of a value as text. The two scans over the events that
  accumulate (bounty and contract) are folds over an explicit scan state; the two that return at the
  first match are \<^const>\<open>find_map\<close> over the body of the loop.
\<close>

section \<open>Event keys\<close>

definition KEY_BANK_TOKEN_TRANSFERRED :: string where
  "KEY_BANK_TOKEN_TRANSFERRED = ''Bank/TokenTransferred''"

definition KEY_BOUNTY_POSTED :: string where
  "KEY_BOUNTY_POSTED = ''Bounty/BountyPosted''"
definition KEY_BOUNTY_CLAIMED :: string where
  "KEY_BOUNTY_CLAIMED = ''Bounty/BountyClaimed''"
definition KEY_BOUNTY_DISPUTED :: string where
  "KEY_BOUNTY_DISPUTED = ''Bounty/BountyDisputed''"
definition KEY_BOUNTY_DISPUTE_RESOLVED :: string where
  "KEY_BOUNTY_DISPUTE_RESOLVED = ''Bounty/DisputeResolved''"
definition KEY_BOUNTY_EXPIRED :: string where
  "KEY_BOUNTY_EXPIRED = ''Bounty/BountyExpired''"
definition KEY_BOUNTY_FINALISED :: string where
  "KEY_BOUNTY_FINALISED = ''Bounty/BountyFinalised''"

definition KEY_CONTRACT_POSTED :: string where
  "KEY_CONTRACT_POSTED = ''Contracts/ContractPosted''"
definition KEY_CONTRACT_WORKER_COMMITTED :: string where
  "KEY_CONTRACT_WORKER_COMMITTED = ''Contracts/WorkerCommitted''"
definition KEY_CONTRACT_DELIVERED :: string where
  "KEY_CONTRACT_DELIVERED = ''Contracts/ContractDelivered''"
definition KEY_CONTRACT_DELIVERY_ACCEPTED :: string where
  "KEY_CONTRACT_DELIVERY_ACCEPTED = ''Contracts/DeliveryAccepted''"
definition KEY_CONTRACT_DELIVERY_REJECTED :: string where
  "KEY_CONTRACT_DELIVERY_REJECTED = ''Contracts/DeliveryRejected''"
definition KEY_CONTRACT_DISPUTE_RESOLVED :: string where
  "KEY_CONTRACT_DISPUTE_RESOLVED = ''Contracts/ContractDisputeResolved''"
definition KEY_CONTRACT_CANCELLED :: string where
  "KEY_CONTRACT_CANCELLED = ''Contracts/ContractCancelled''"
definition KEY_CONTRACT_EXPIRED :: string where
  "KEY_CONTRACT_EXPIRED = ''Contracts/ContractExpired''"

definition KEY_ATTESTATION_ATTESTOR_SET_REGISTERED :: string where
  "KEY_ATTESTATION_ATTESTOR_SET_REGISTERED = ''AttestationModule/AttestorSetRegistered''"
definition KEY_ATTESTATION_SCHEMA_REGISTERED :: string where
  "KEY_ATTESTATION_SCHEMA_REGISTERED = ''AttestationModule/SchemaRegistered''"
definition KEY_ATTESTATION_ATTESTATION_SUBMITTED :: string where
  "KEY_ATTESTATION_ATTESTATION_SUBMITTED = ''AttestationModule/AttestationSubmitted''"

lemmas bounty_keys =
  KEY_BOUNTY_POSTED_def KEY_BOUNTY_CLAIMED_def KEY_BOUNTY_DISPUTED_def
  KEY_BOUNTY_DISPUTE_RESOLVED_def KEY_BOUNTY_EXPIRED_def KEY_BOUNTY_FINALISED_def

lemmas attestation_keys =
  KEY_ATTESTATION_ATTESTOR_SET_REGISTERED_def KEY_ATTESTATION_SCHEMA_REGISTERED_def
  KEY_ATTESTATION_ATTESTATION_SUBMITTED_def

section \<open>Data\<close>

datatype tx_outcome = Committed | Reverted | Skipped

definition outcome_of :: "string \<Rightarrow> tx_outcome" where
  "outcome_of receipt_result =
     (if receipt_result = ''successful'' then Committed
      else if receipt_result = ''reverted'' then Reverted
      else Skipped)"

datatype bounty_event_kind =
    BPosted
  | BClaimed (bk_count: nat) (bk_total_payout: string)
  | BDisputed
  | BDisputeResolved
  | BExpired
  | BFinalised

datatype contract_event_kind =
    CPosted | CCommitted | CDelivered | CAccepted | CRejected | CDisputeResolved | CCancelled | CExpired

record indexer_transfer =
  it_from :: string
  it_to :: string
  it_amount_nano :: string
  it_token_id :: string

record indexer_register_attestor_set =
  ira_attestor_set_id :: string
  ira_members :: "string list"
  ira_threshold :: nat
  ira_registered_by :: string

record indexer_register_schema =
  irs_schema_id :: string
  irs_name :: string
  irs_version :: nat
  irs_owner :: string
  irs_attestor_set_id :: string
  irs_fee_routing_bps :: nat
  irs_fee_routing_addr :: "string option"
  irs_payload_shape_hash :: string

record indexer_submit_attestation =
  isa_id :: string
  isa_schema_id :: string
  isa_payload_hash :: string
  isa_submitter :: string
  isa_signature_count :: nat

datatype indexer_tx =
    Transfer indexer_transfer
  | RegisterAttestorSet indexer_register_attestor_set
  | RegisterSchema indexer_register_schema
  | SubmitAttestation indexer_submit_attestation
  | BountyEvent (be_id: string) (be_kind: bounty_event_kind)
  | ContractEvent (ce_id: string) (ce_kind: contract_event_kind)
  | Unknown "string list"

record classified_tx =
  ctx_hash :: string
  ctx_batch_number :: u64
  ctx_global_tx_number :: u64
  ctx_outcome :: tx_outcome
  ctx_kind :: indexer_tx

section \<open>Attestation events\<close>

definition shape_hash_text :: "(json \<Rightarrow> string) \<Rightarrow> json \<Rightarrow> string" where
  "shape_hash_text J v = (case v of JString s \<Rightarrow> s | _ \<Rightarrow> J v)"

text \<open>The body of the first loop of \<^verbatim>\<open>classify_events\<close>: the value it returns, if it returns.\<close>

definition attestation_event :: "crypto \<Rightarrow> (json \<Rightarrow> string) \<Rightarrow> ledger_event \<Rightarrow> indexer_tx option" where
  "attestation_event C J ev =
     (if ev_key ev = KEY_ATTESTATION_ATTESTOR_SET_REGISTERED then
        (case de_attestor_set_registered_event (ev_value ev) of
           None \<Rightarrow> None
         | Some d \<Rightarrow> Some (RegisterAttestorSet
             \<lparr>ira_attestor_set_id = asr_attestor_set_id d, ira_members = asr_members d,
              ira_threshold = asr_threshold d, ira_registered_by = asr_registered_by d\<rparr>))
      else if ev_key ev = KEY_ATTESTATION_SCHEMA_REGISTERED then
        (case de_schema_registered_event (ev_value ev) of
           None \<Rightarrow> None
         | Some d \<Rightarrow> Some (RegisterSchema
             \<lparr>irs_schema_id = sr_schema_id d, irs_name = sr_name d, irs_version = sr_version d,
              irs_owner = sr_owner d, irs_attestor_set_id = sr_attestor_set_id d,
              irs_fee_routing_bps = sr_fee_routing_bps d, irs_fee_routing_addr = sr_fee_routing_addr d,
              irs_payload_shape_hash = shape_hash_text J (sr_payload_shape_hash d)\<rparr>))
      else if ev_key ev = KEY_ATTESTATION_ATTESTATION_SUBMITTED then
        (case de_attestation_submitted_event (ev_value ev) of
           None \<Rightarrow> None
         | Some d \<Rightarrow>
             (case compute_attestation_id C (ats_schema_id d) (ats_payload_hash d) of
                Inl _ \<Rightarrow> None
              | Inr i \<Rightarrow> Some (SubmitAttestation
                  \<lparr>isa_id = i, isa_schema_id = ats_schema_id d, isa_payload_hash = ats_payload_hash d,
                   isa_submitter = ats_submitter d, isa_signature_count = ats_signature_count d\<rparr>)))
      else None)"

section \<open>Bounty events\<close>

text \<open>
  The locals of \<^verbatim>\<open>classify_bounty_events\<close>. The count is a \<^verbatim>\<open>u32\<close> and wraps (release
  arithmetic); the total is a \<^verbatim>\<open>u128\<close> and saturates.
\<close>

record bounty_scan =
  bs_first :: "(string \<times> bounty_event_kind) option"
  bs_claim_count :: nat
  bs_claim_total :: nat
  bs_saw_claim :: bool

definition u128_max :: nat where
  "u128_max = 2 ^ 128 - 1"

definition saturating_add_u128 :: "nat \<Rightarrow> nat \<Rightarrow> nat" where
  "saturating_add_u128 a b = min (a + b) u128_max"

definition get_or_insert :: "'a \<Rightarrow> 'a option \<Rightarrow> 'a option" where
  "get_or_insert x first = coalesce first (Some x)"

definition bounty_claim_step :: "bounty_claimed_details \<Rightarrow> bounty_scan \<Rightarrow> bounty_scan" where
  "bounty_claim_step d s =
     s\<lparr>bs_claim_count := (bs_claim_count s + 1) mod 2 ^ 32,
       bs_saw_claim := True,
       bs_claim_total := (case parse_u128 (bc_payout d) of
                            None \<Rightarrow> bs_claim_total s
                          | Some v \<Rightarrow> saturating_add_u128 (bs_claim_total s) v),
       bs_first := get_or_insert (bc_bounty_id d, BPosted) (bs_first s)\<rparr>"

definition note_first :: "bounty_event_kind \<Rightarrow> string option \<Rightarrow> bounty_scan \<Rightarrow> bounty_scan" where
  "note_first k i s = (case i of None \<Rightarrow> s | Some b \<Rightarrow> s\<lparr>bs_first := get_or_insert (b, k) (bs_first s)\<rparr>)"

definition bounty_step :: "ledger_event \<Rightarrow> bounty_scan \<Rightarrow> bounty_scan" where
  "bounty_step ev s =
     (if ev_key ev = KEY_BOUNTY_POSTED then
        note_first BPosted (map_option bp_bounty_id (de_bounty_posted_event (ev_value ev))) s
      else if ev_key ev = KEY_BOUNTY_CLAIMED then
        (case de_bounty_claimed_event (ev_value ev) of
           None \<Rightarrow> s
         | Some d \<Rightarrow> bounty_claim_step d s)
      else if ev_key ev = KEY_BOUNTY_DISPUTED then
        note_first BDisputed (map_option bd_bounty_id (de_bounty_disputed_event (ev_value ev))) s
      else if ev_key ev = KEY_BOUNTY_DISPUTE_RESOLVED then
        note_first BDisputeResolved (map_option bdr_bounty_id (de_dispute_resolved_event (ev_value ev))) s
      else if ev_key ev = KEY_BOUNTY_EXPIRED then
        note_first BExpired (map_option be_bounty_id (de_bounty_expired_event (ev_value ev))) s
      else if ev_key ev = KEY_BOUNTY_FINALISED then
        note_first BFinalised (map_option bf_bounty_id (de_bounty_finalised_event (ev_value ev))) s
      else s)"

definition bounty_scan_init :: bounty_scan where
  "bounty_scan_init = \<lparr>bs_first = None, bs_claim_count = 0, bs_claim_total = 0, bs_saw_claim = False\<rparr>"

definition classify_bounty_events :: "ledger_event list \<Rightarrow> indexer_tx option" where
  "classify_bounty_events events =
     (let s = fold bounty_step events bounty_scan_init
      in case bs_first s of
           None \<Rightarrow> None
         | Some (bounty_id, kind) \<Rightarrow>
             Some (BountyEvent bounty_id
               (if bs_saw_claim s then BClaimed (bs_claim_count s) (show_nat (bs_claim_total s))
                else kind)))"

section \<open>Contract events\<close>

definition contract_event_id :: "ledger_event \<Rightarrow> (string \<times> contract_event_kind) option" where
  "contract_event_id ev =
     (if ev_key ev = KEY_CONTRACT_POSTED then
        map_option (\<lambda>p. (cp_contract_id p, CPosted)) (de_contract_posted_event (ev_value ev))
      else if ev_key ev = KEY_CONTRACT_WORKER_COMMITTED then
        map_option (\<lambda>p. (wc_contract_id p, CCommitted)) (de_worker_committed_event (ev_value ev))
      else if ev_key ev = KEY_CONTRACT_DELIVERED then
        map_option (\<lambda>p. (cd_contract_id p, CDelivered)) (de_contract_delivered_event (ev_value ev))
      else if ev_key ev = KEY_CONTRACT_DELIVERY_ACCEPTED then
        map_option (\<lambda>p. (da_contract_id p, CAccepted)) (de_delivery_accepted_event (ev_value ev))
      else if ev_key ev = KEY_CONTRACT_DELIVERY_REJECTED then
        map_option (\<lambda>p. (dj_contract_id p, CRejected)) (de_delivery_rejected_event (ev_value ev))
      else if ev_key ev = KEY_CONTRACT_DISPUTE_RESOLVED then
        map_option (\<lambda>p. (cdr_contract_id p, CDisputeResolved))
          (de_contract_dispute_resolved_event (ev_value ev))
      else if ev_key ev = KEY_CONTRACT_CANCELLED then
        map_option (\<lambda>p. (cc_contract_id p, CCancelled)) (de_contract_cancelled_event (ev_value ev))
      else if ev_key ev = KEY_CONTRACT_EXPIRED then
        map_option (\<lambda>p. (ce_contract_id p, CExpired)) (de_contract_expired_event (ev_value ev))
      else None)"

definition contract_step ::
  "ledger_event \<Rightarrow> (string \<times> contract_event_kind) option \<Rightarrow> (string \<times> contract_event_kind) option" where
  "contract_step ev first =
     (case contract_event_id ev of None \<Rightarrow> first | Some x \<Rightarrow> get_or_insert x first)"

definition classify_contract_events :: "ledger_event list \<Rightarrow> indexer_tx option" where
  "classify_contract_events events =
     (case fold contract_step events None of
        None \<Rightarrow> None
      | Some (contract_id, kind) \<Rightarrow> Some (ContractEvent contract_id kind))"

section \<open>Classification\<close>

definition bank_event :: "ledger_event \<Rightarrow> indexer_tx option" where
  "bank_event ev =
     (if ev_key ev = KEY_BANK_TOKEN_TRANSFERRED then
        (case de_token_transferred_event (ev_value ev) of
           None \<Rightarrow> None
         | Some p \<Rightarrow> Some (Transfer
             \<lparr>it_from = bt_from p, it_to = bt_to p, it_amount_nano = co_amount (bt_coins p),
              it_token_id = co_token_id (bt_coins p)\<rparr>))
      else None)"

definition classify_events :: "crypto \<Rightarrow> (json \<Rightarrow> string) \<Rightarrow> ledger_event list \<Rightarrow> indexer_tx" where
  "classify_events C J events =
     (case find_map (attestation_event C J) events of
        Some tx \<Rightarrow> tx
      | None \<Rightarrow>
          (case classify_bounty_events events of
             Some bounty \<Rightarrow> bounty
           | None \<Rightarrow>
               (case classify_contract_events events of
                  Some contract \<Rightarrow> contract
                | None \<Rightarrow>
                    (case find_map bank_event events of
                       Some tx \<Rightarrow> tx
                     | None \<Rightarrow> Unknown (map ev_key events)))))"

definition classify_tx ::
  "crypto \<Rightarrow> (json \<Rightarrow> string) \<Rightarrow> ledger_tx \<Rightarrow> ledger_event list \<Rightarrow> classified_tx option" where
  "classify_tx C J tx events =
     (let outcome = outcome_of (rp_result (lt_receipt tx))
      in if outcome = Skipped then None
         else Some \<lparr>ctx_hash = lt_hash tx, ctx_batch_number = lt_batch_number tx,
                    ctx_global_tx_number = lt_number tx, ctx_outcome = outcome,
                    ctx_kind = classify_events C J events\<rparr>)"

section \<open>What the scans compute\<close>

text \<open>
  The specification of the bounty scan: the id and kind of a recognised event, the claims among the
  events, and the payout a claim counts for.
\<close>

definition bounty_event_id :: "ledger_event \<Rightarrow> (string \<times> bounty_event_kind) option" where
  "bounty_event_id ev = bs_first (bounty_step ev bounty_scan_init)"

definition claim_of :: "ledger_event \<Rightarrow> bounty_claimed_details option" where
  "claim_of ev =
     (if ev_key ev = KEY_BOUNTY_CLAIMED then de_bounty_claimed_event (ev_value ev) else None)"

definition claims :: "ledger_event list \<Rightarrow> bounty_claimed_details list" where
  "claims evs = List.map_filter claim_of evs"

definition payout_value :: "bounty_claimed_details \<Rightarrow> nat" where
  "payout_value d = (case parse_u128 (bc_payout d) of None \<Rightarrow> 0 | Some v \<Rightarrow> v)"

definition total_payout :: "ledger_event list \<Rightarrow> nat" where
  "total_payout evs = sum_list (map payout_value (claims evs))"

lemmas bounty_step_defs =
  bounty_step_def note_first_def bounty_claim_step_def get_or_insert_def bounty_scan_init_def

lemma posted_not_claimed: "KEY_BOUNTY_POSTED \<noteq> KEY_BOUNTY_CLAIMED"
  by (simp add: bounty_keys)

lemma bounty_step_first:
  "bs_first (bounty_step ev s) = coalesce (bs_first s) (bounty_event_id ev)"
  by (cases "bs_first s") (simp_all add: bounty_event_id_def bounty_step_defs split: option.splits)

lemma bounty_step_claim:
  "bs_claim_count (bounty_step ev s) =
     (case claim_of ev of None \<Rightarrow> bs_claim_count s | Some _ \<Rightarrow> (bs_claim_count s + 1) mod 2 ^ 32)"
  "bs_claim_total (bounty_step ev s) =
     (case claim_of ev of None \<Rightarrow> bs_claim_total s
      | Some d \<Rightarrow> (case parse_u128 (bc_payout d) of
                     None \<Rightarrow> bs_claim_total s
                   | Some v \<Rightarrow> saturating_add_u128 (bs_claim_total s) v))"
  "bs_saw_claim (bounty_step ev s) \<longleftrightarrow> bs_saw_claim s \<or> claim_of ev \<noteq> None"
  using posted_not_claimed
  by (auto simp: bounty_step_defs claim_of_def split: option.splits)

lemma coalesce_assoc: "coalesce (coalesce a b) c = coalesce a (coalesce b c)"
  by (cases a) auto

lemma find_map_coalesce: "find_map f (x # xs) = coalesce (f x) (find_map f xs)"
  by (cases "f x") auto

lemma bounty_scan_first:
  "bs_first (fold bounty_step evs s) = coalesce (bs_first s) (find_map bounty_event_id evs)"
proof (induction evs arbitrary: s)
  case Nil
  then show ?case by (cases "bs_first s") auto
next
  case (Cons ev evs)
  then show ?case
    by (simp only: fold_simps bounty_step_first find_map_coalesce coalesce_assoc)
qed

lemma claims_simps [simp]:
  "claims [] = []"
  "claims (ev # evs) = (case claim_of ev of None \<Rightarrow> claims evs | Some d \<Rightarrow> d # claims evs)"
  by (simp_all add: claims_def List.map_filter_simps split: option.split)

lemma mset_claims: "mset (claims evs) = image_mset (the \<circ> claim_of) (filter_mset (\<lambda>ev. claim_of ev \<noteq> None) (mset evs))"
  by (induction evs) (auto split: option.splits)

lemma bounty_scan_count:
  assumes "bs_claim_count s < 2 ^ 32"
  shows "bs_claim_count (fold bounty_step evs s) = (bs_claim_count s + length (claims evs)) mod 2 ^ 32"
  using assms
  by (induction evs arbitrary: s) (auto simp: bounty_step_claim mod_simps ac_simps split: option.splits)

lemma bounty_scan_total:
  assumes "bs_claim_total s \<le> u128_max"
  shows "bs_claim_total (fold bounty_step evs s) =
    min (bs_claim_total s + sum_list (map payout_value (claims evs))) u128_max"
  using assms
proof (induction evs arbitrary: s)
  case Nil
  then show ?case by simp
next
  case (Cons ev evs)
  have "bs_claim_total (bounty_step ev s) \<le> u128_max"
    using Cons.prems by (auto simp: bounty_step_claim saturating_add_u128_def split: option.splits)
  from Cons.IH [OF this] Cons.prems show ?case
    by (auto simp: bounty_step_claim saturating_add_u128_def payout_value_def split: option.splits)
qed

lemma bounty_scan_saw:
  "bs_saw_claim (fold bounty_step evs s) \<longleftrightarrow> bs_saw_claim s \<or> claims evs \<noteq> []"
  by (induction evs arbitrary: s) (auto simp: bounty_step_claim split: option.splits)

lemma claim_is_bounty_event: "claim_of ev \<noteq> None \<Longrightarrow> bounty_event_id ev \<noteq> None"
  using posted_not_claimed
  by (auto simp: claim_of_def bounty_event_id_def bounty_step_defs split: if_splits)

lemma classify_bounty_events_eq:
  "classify_bounty_events evs =
     (case find_map bounty_event_id evs of
        None \<Rightarrow> None
      | Some (i, k) \<Rightarrow> Some (BountyEvent i
          (if claims evs = [] then k
           else BClaimed (length (claims evs) mod 2 ^ 32) (show_nat (min (total_payout evs) u128_max)))))"
  unfolding classify_bounty_events_def Let_def bounty_scan_first bounty_scan_saw
  by (auto simp: bounty_scan_init_def bounty_scan_count bounty_scan_total total_payout_def
      split: option.splits)

lemma contract_scan: "fold contract_step evs x = coalesce x (find_map contract_event_id evs)"
proof (induction evs arbitrary: x)
  case Nil
  then show ?case by (cases x) auto
next
  case (Cons ev evs)
  have "contract_step ev x = coalesce x (contract_event_id ev)"
    by (cases x) (auto simp: contract_step_def get_or_insert_def split: option.splits)
  then show ?case
    by (simp only: fold_simps Cons.IH find_map_coalesce coalesce_assoc)
qed

lemma classify_contract_events_eq:
  "classify_contract_events evs =
     map_option (\<lambda>(i, k). ContractEvent i k) (find_map contract_event_id evs)"
  by (auto simp: classify_contract_events_def contract_scan split: option.splits)

lemma attestation_event_range:
  "attestation_event C J ev = Some tx \<Longrightarrow>
     (case tx of RegisterAttestorSet _ \<Rightarrow> True | RegisterSchema _ \<Rightarrow> True
       | SubmitAttestation _ \<Rightarrow> True | _ \<Rightarrow> False)"
  by (auto simp: attestation_event_def split: if_splits option.splits sum.splits)

lemma bank_event_range: "bank_event ev = Some tx \<Longrightarrow> (\<exists>t. tx = Transfer t)"
  by (auto simp: bank_event_def split: if_splits option.splits)

text \<open>The module a transaction is filed under.\<close>

datatype tx_family = AttestationTx | BountyTx | ContractTx | BankTx | UnknownTx

fun tx_module :: "indexer_tx \<Rightarrow> tx_family" where
  "tx_module (RegisterAttestorSet _) = AttestationTx"
| "tx_module (RegisterSchema _) = AttestationTx"
| "tx_module (SubmitAttestation _) = AttestationTx"
| "tx_module (BountyEvent _ _) = BountyTx"
| "tx_module (ContractEvent _ _) = ContractTx"
| "tx_module (Transfer _) = BankTx"
| "tx_module (Unknown _) = UnknownTx"

lemma tx_module_attestation: "attestation_event C J ev = Some tx \<Longrightarrow> tx_module tx = AttestationTx"
  by (drule attestation_event_range) (cases tx; simp)

lemma tx_module_bank: "bank_event ev = Some tx \<Longrightarrow> tx_module tx = BankTx"
  by (drule bank_event_range) auto

lemma find_map_attestation:
  "find_map (attestation_event C J) evs = Some x \<Longrightarrow> tx_module x = AttestationTx"
  by (metis find_map_SomeD tx_module_attestation)

lemma find_map_bank: "find_map bank_event evs = Some x \<Longrightarrow> tx_module x = BankTx"
  by (metis find_map_SomeD tx_module_bank)

lemma classify_events_Unknown:
  "tx_module (classify_events C J evs) = UnknownTx \<Longrightarrow> classify_events C J evs = Unknown (map ev_key evs)"
  using find_map_attestation [of C J evs] find_map_bank [of evs]
  unfolding classify_events_def classify_bounty_events_eq classify_contract_events_eq
  by (auto split: option.splits)

text \<open>Concrete events, for the witnesses.\<close>

definition sample_event :: "string \<Rightarrow> json \<Rightarrow> ledger_event" where
  "sample_event k v = \<lparr>ev_type = ''event'', ev_number = 0, ev_key = k, ev_value = v,
     ev_module = \<lparr>mr_type = ''moduleRef'', mr_name = ''m''\<rparr>, ev_tx_hash = ''ltx1a''\<rparr>"

definition sample_claim :: "string \<Rightarrow> string \<Rightarrow> ledger_event" where
  "sample_claim b amount = sample_event KEY_BOUNTY_CLAIMED
     (JObject [(''BountyClaimed'', JObject [(''bounty_id'', JString b),
        (''attestation_id'', JString ''lat1a''), (''payout'', JString amount),
        (''attester'', JString ''lig1a'')])])"

definition sample_set_event :: ledger_event where
  "sample_set_event = sample_event KEY_ATTESTATION_ATTESTOR_SET_REGISTERED
     (JObject [(''AttestorSetRegistered'', JObject [(''attestor_set_id'', JString ''las1a''),
        (''members'', JArray [JString ''lpk1a'']), (''threshold'', JInt 1),
        (''registered_by'', JString ''lig1a'')])])"

definition sample_schema_event :: ledger_event where
  "sample_schema_event = sample_event KEY_ATTESTATION_SCHEMA_REGISTERED
     (JObject [(''SchemaRegistered'', JObject [(''schema_id'', JString ''lsc1a''),
        (''name'', JString ''n''), (''version'', JInt 1), (''owner'', JString ''lig1a''),
        (''attestor_set_id'', JString ''las1a''), (''fee_routing_bps'', JInt 0),
        (''payload_shape_hash'', JString ''00'')])])"

lemma claim_of_sample:
  "claim_of (sample_claim b a) =
     Some \<lparr>bc_bounty_id = b, bc_attestation_id = ''lat1a'', bc_payout = a, bc_attester = ''lig1a''\<rparr>"
  by (simp add: claim_of_def sample_claim_def sample_event_def de_bounty_claimed_event_def
      de_bounty_claimed_details_def de_variant_def)

lemma sample_set_event_decodes:
  "attestation_event C J sample_set_event = Some (RegisterAttestorSet
     \<lparr>ira_attestor_set_id = ''las1a'', ira_members = [''lpk1a''], ira_threshold = 1,
      ira_registered_by = ''lig1a''\<rparr>)"
  by (simp add: attestation_event_def sample_set_event_def sample_event_def
      de_attestor_set_registered_event_def de_attestor_set_registered_details_def de_variant_def)

lemma sample_schema_event_decodes:
  "attestation_event C J sample_schema_event = Some (RegisterSchema
     \<lparr>irs_schema_id = ''lsc1a'', irs_name = ''n'', irs_version = 1, irs_owner = ''lig1a'',
      irs_attestor_set_id = ''las1a'', irs_fee_routing_bps = 0, irs_fee_routing_addr = None,
      irs_payload_shape_hash = ''00''\<rparr>)"
  by (simp add: attestation_event_def attestation_keys sample_schema_event_def sample_event_def
      de_schema_registered_event_def de_schema_registered_details_def de_variant_def shape_hash_text_def)

section \<open>Properties\<close>

text \<open>C13. The module a transaction is filed under is decided by a fixed priority over the events
  that decode, whatever their order: attestation events first, then bounty, then contract, then bank
  transfers, and \<open>Unknown\<close> exactly when no event decodes. In particular a fee or escrow transfer
  never hides a semantic event, and reordering the events does not move the transaction.\<close>

theorem classify_priority:
  "tx_module (classify_events C J evs) =
     (if \<exists>ev \<in> set evs. attestation_event C J ev \<noteq> None then AttestationTx
      else if \<exists>ev \<in> set evs. bounty_event_id ev \<noteq> None then BountyTx
      else if \<exists>ev \<in> set evs. contract_event_id ev \<noteq> None then ContractTx
      else if \<exists>ev \<in> set evs. bank_event ev \<noteq> None then BankTx
      else UnknownTx)"
proof -
  show ?thesis
    using find_map_attestation find_map_bank
    unfolding classify_events_def classify_bounty_events_eq classify_contract_events_eq find_map_ex
    by (auto split: option.splits)
qed

text \<open>A transaction that claims bounties is tallied over all of its claims: the kind is
  \<open>Claimed\<close> whichever bounty event came first, the count is the number of claim events that decode
  (modulo the width of the counter), the total is the sum of their payouts, clipped at the largest
  128-bit amount, and unreadable payouts count as zero. Reordering the events changes neither number.\<close>

lemma bounty_claim_tally:
  assumes "claims evs \<noteq> []" and "mset evs' = mset evs"
  shows "\<exists>i. classify_bounty_events evs' =
    Some (BountyEvent i (BClaimed (length (claims evs) mod 2 ^ 32)
      (show_nat (min (sum_list (map payout_value (claims evs))) (2 ^ 128 - 1)))))"
proof -
  have ms: "mset (claims evs') = mset (claims evs)"
    using assms(2) by (simp add: mset_claims)
  have len: "length (claims evs') = length (claims evs)"
    using ms by (metis size_mset)
  have tot: "total_payout evs' = sum_list (map payout_value (claims evs))"
    unfolding total_payout_def using ms by (metis mset_map sum_mset_sum_list)
  have ne: "claims evs' \<noteq> []" using len assms(1) by auto
  then obtain ev where "ev \<in> set evs'" "claim_of ev \<noteq> None"
    by (auto simp: claims_def map_filter_Nil_iff)
  then have "find_map bounty_event_id evs' \<noteq> None"
    unfolding find_map_ex [symmetric] using claim_is_bounty_event by blast
  then obtain i k where "find_map bounty_event_id evs' = Some (i, k)" by force
  with ne show ?thesis
    by (simp add: classify_bounty_events_eq len tot u128_max_def)
qed

text \<open>Among the attestation events the first one that decodes decides, whichever kind it is: a
  schema registration followed by an attestor-set registration is filed as a schema, and in the other
  order as an attestor set. The list in the documentation of \<^verbatim>\<open>classify_events\<close> ranks the
  attestor set first in both cases.\<close>

lemma attestation_order_decides:
  "(\<forall>ev evs tx. attestation_event C J ev = Some tx \<longrightarrow> classify_events C J (ev # evs) = tx) \<and>
   (\<exists>s. classify_events C J [sample_schema_event, sample_set_event] = RegisterSchema s) \<and>
   (\<exists>a. classify_events C J [sample_set_event, sample_schema_event] = RegisterAttestorSet a)"
  by (auto simp: classify_events_def sample_schema_event_decodes sample_set_event_decodes)

text \<open>A transaction is dropped exactly when its receipt is neither \<^verbatim>\<open>successful\<close> nor
  \<^verbatim>\<open>reverted\<close>; otherwise it is kept with its hash and numbers, committed exactly when the
  receipt says successful. A kept transaction whose events do not decode lists every event key in
  order.\<close>

lemma classify_tx_outcomes:
  "(classify_tx C J tx evs = None \<longleftrightarrow> rp_result (lt_receipt tx) \<notin> {''successful'', ''reverted''}) \<and>
   (\<forall>c. classify_tx C J tx evs = Some c \<longrightarrow>
      ctx_hash c = lt_hash tx \<and> ctx_batch_number c = lt_batch_number tx \<and>
      ctx_global_tx_number c = lt_number tx \<and> ctx_outcome c \<noteq> Skipped \<and>
      (ctx_outcome c = Committed \<longleftrightarrow> rp_result (lt_receipt tx) = ''successful'') \<and>
      (tx_module (ctx_kind c) = UnknownTx \<longrightarrow> ctx_kind c = Unknown (map ev_key evs)))"
  using classify_events_Unknown [of C J evs]
  by (auto simp: classify_tx_def outcome_of_def Let_def split: if_splits)

end
