(* ===== verification/Decode.thy ===== *)
theory Decode
  imports Prelude
begin

text \<open>
  The reader of persisted signed-transaction bodies, \<^verbatim>\<open>crates/indexer/src/decode.rs\<close>:
  the authenticator wrapper, the front-anchored public key and the tail-anchored nonce. Base64 and
  bech32m are the crates the module calls; their decoding and encoding functions are parameters.
  The byte layout the module documents is the definition \<open>tx_v0_bytes\<close>, against which the reader
  is verified.
\<close>

section \<open>Constants\<close>

definition V0_TAG :: u8 where "V0_TAG = 0"
definition SIG_LEN :: nat where "SIG_LEN = 64"
definition PUBKEY_LEN :: nat where "PUBKEY_LEN = 32"
definition ADDRESS_LEN :: nat where "ADDRESS_LEN = 28"
definition INNER_PUBKEY_START :: nat where "INNER_PUBKEY_START = 1 + SIG_LEN"
definition INNER_PUBKEY_END :: nat where "INNER_PUBKEY_END = INNER_PUBKEY_START + PUBKEY_LEN"
definition WRAPPER_LEN :: nat where "WRAPPER_LEN = 5"
definition CHAIN_ID_LEN :: nat where "CHAIN_ID_LEN = 8"
definition MAX_FEE_LEN :: nat where "MAX_FEE_LEN = 16"
definition PRIORITY_FEE_LEN :: nat where "PRIORITY_FEE_LEN = 8"
definition UNIQ_NONCE_LEN :: nat where "UNIQ_NONCE_LEN = 8"
definition UNIQ_TAG_NONCE :: u8 where "UNIQ_TAG_NONCE = 0"
definition GAS_NONE_TAG :: u8 where "GAS_NONE_TAG = 0"
definition GAS_SOME_TAG :: u8 where "GAS_SOME_TAG = 1"
definition GAS_SOME_WIDTH :: nat where "GAS_SOME_WIDTH = 16"

lemmas tx_consts =
  V0_TAG_def SIG_LEN_def PUBKEY_LEN_def ADDRESS_LEN_def INNER_PUBKEY_START_def INNER_PUBKEY_END_def
  WRAPPER_LEN_def CHAIN_ID_LEN_def MAX_FEE_LEN_def PRIORITY_FEE_LEN_def UNIQ_NONCE_LEN_def
  UNIQ_TAG_NONCE_def GAS_NONE_TAG_def GAS_SOME_TAG_def GAS_SOME_WIDTH_def

section \<open>Little-endian integers\<close>

fun from_le :: "u8 list \<Rightarrow> nat" where
  "from_le [] = 0"
| "from_le (b # bs) = unat b + 256 * from_le bs"

fun to_le :: "nat \<Rightarrow> nat \<Rightarrow> u8 list" where
  "to_le 0 n = []"
| "to_le (Suc k) n = of_nat (n mod 256) # to_le k (n div 256)"

definition u64_from_le_bytes :: "u8 list \<Rightarrow> u64" where
  "u64_from_le_bytes bs = of_nat (from_le bs)"

section \<open>The reader\<close>

record decoded_tx_body =
  dt_sender :: string
  dt_sender_pubkey :: string
  dt_nonce :: "u64 option"

definition byte_at :: "u8 list \<Rightarrow> nat \<Rightarrow> u8 option" where
  "byte_at bs i = (if i < length bs then Some (bs ! i) else None)"

definition slice :: "u8 list \<Rightarrow> nat \<Rightarrow> nat \<Rightarrow> u8 list" where
  "slice bs a b = take (b - a) (drop a bs)"

definition checked_sub :: "nat \<Rightarrow> nat \<Rightarrow> nat option" where
  "checked_sub a b = (if b \<le> a then Some (a - b) else None)"

definition strip_authenticator_wrapper :: "u8 list \<Rightarrow> u8 list" where
  "strip_authenticator_wrapper raw =
     (if length raw > WRAPPER_LEN \<and> raw ! 0 = V0_TAG \<and>
         from_le (slice raw 1 5) = length raw - WRAPPER_LEN \<and> raw ! WRAPPER_LEN = V0_TAG
      then drop WRAPPER_LEN raw else raw)"

text \<open>One pass of the loop over the two gas shapes; a \<^verbatim>\<open>continue\<close> goes on to the next.\<close>

fun parse_nonce_shapes :: "u8 list \<Rightarrow> nat list \<Rightarrow> u64 option" where
  "parse_nonce_shapes inner [] = None"
| "parse_nonce_shapes inner (gas_field_len # shapes) =
     (let m = length inner;
          expect_gas_tag = (if gas_field_len = 1 then GAS_NONE_TAG else GAS_SOME_TAG);
          details_len = PRIORITY_FEE_LEN + MAX_FEE_LEN + gas_field_len + CHAIN_ID_LEN;
          uniq_total = 1 + UNIQ_NONCE_LEN
      in case checked_sub m (CHAIN_ID_LEN + gas_field_len) of
           None \<Rightarrow> parse_nonce_shapes inner shapes
         | Some gas_tag_off \<Rightarrow>
           (case checked_sub m (details_len + uniq_total) of
              None \<Rightarrow> parse_nonce_shapes inner shapes
            | Some uniq_tag_off \<Rightarrow>
                if uniq_tag_off < INNER_PUBKEY_END then parse_nonce_shapes inner shapes
                else if byte_at inner gas_tag_off \<noteq> Some expect_gas_tag
                  then parse_nonce_shapes inner shapes
                else if byte_at inner uniq_tag_off \<noteq> Some UNIQ_TAG_NONCE
                  then parse_nonce_shapes inner shapes
                else Some (u64_from_le_bytes
                       (slice inner (uniq_tag_off + 1) (uniq_tag_off + 1 + UNIQ_NONCE_LEN)))))"

definition parse_nonce :: "u8 list \<Rightarrow> u64 \<Rightarrow> u64 option" where
  "parse_nonce inner expected_chain_id =
     (let m = length inner
      in if m < CHAIN_ID_LEN then None
         else if u64_from_le_bytes (drop (m - CHAIN_ID_LEN) inner) \<noteq> expected_chain_id then None
         else parse_nonce_shapes inner [1, 1 + GAS_SOME_WIDTH])"

definition decode_tx_body ::
  "(string \<Rightarrow> u8 list option) \<Rightarrow> (string \<Rightarrow> u8 list \<Rightarrow> string option) \<Rightarrow>
   string \<Rightarrow> u64 \<Rightarrow> decoded_tx_body option" where
  "decode_tx_body base64_decode encode_bech32m body_b64 expected_chain_id =
     (let body = trim body_b64
      in if body = [] then None
         else case base64_decode body of
           None \<Rightarrow> None
         | Some raw \<Rightarrow>
           (let inner = strip_authenticator_wrapper raw
            in if byte_at inner 0 \<noteq> Some V0_TAG \<or> length inner < INNER_PUBKEY_END then None
               else let pubkey = slice inner INNER_PUBKEY_START INNER_PUBKEY_END
                    in case encode_bech32m ''lig'' (take ADDRESS_LEN pubkey) of
                         None \<Rightarrow> None
                       | Some sender \<Rightarrow>
                         (case encode_bech32m ''lpk'' pubkey of
                            None \<Rightarrow> None
                          | Some sender_pubkey \<Rightarrow>
                              Some \<lparr>dt_sender = sender, dt_sender_pubkey = sender_pubkey,
                                    dt_nonce = parse_nonce inner expected_chain_id\<rparr>)))"

section \<open>The documented layout\<close>

definition gas_bytes :: "(nat \<times> nat) option \<Rightarrow> u8 list" where
  "gas_bytes gas =
     (case gas of None \<Rightarrow> [GAS_NONE_TAG] | Some (g1, g2) \<Rightarrow> GAS_SOME_TAG # to_le 8 g1 @ to_le 8 g2)"

definition tx_v0_bytes ::
  "u8 list \<Rightarrow> u8 list \<Rightarrow> u8 list \<Rightarrow> u64 \<Rightarrow> nat \<Rightarrow> nat \<Rightarrow> (nat \<times> nat) option \<Rightarrow> u64 \<Rightarrow> u8 list" where
  "tx_v0_bytes sig pub_key runtime_call n prio max_fee gas cid =
     V0_TAG # sig @ pub_key @ runtime_call @ (UNIQ_TAG_NONCE # to_le 8 (unat n)) @
     to_le 8 prio @ to_le 16 max_fee @ gas_bytes gas @ to_le 8 (unat cid)"

definition wrap_standard :: "u8 list \<Rightarrow> u8 list" where
  "wrap_standard inner = V0_TAG # to_le 4 (length inner) @ inner"

section \<open>Lemmas\<close>

lemma length_to_le [simp]: "length (to_le k n) = k"
  by (induction k arbitrary: n) auto

lemma from_le_to_le: "from_le (to_le k n) = n mod 256 ^ k"
proof (induction k arbitrary: n)
  case 0
  then show ?case by simp
next
  case (Suc k)
  have "unat (of_nat (n mod 256) :: u8) = n mod 256"
    by (simp add: unat_of_nat)
  then show ?case
    by (simp add: Suc mod_mult2_eq)
qed

lemma u64_from_le_to_le [simp]: "u64_from_le_bytes (to_le 8 (unat x)) = x"
proof -
  have "unat x < 256 ^ 8"
    using unsigned_less [of x, where ?'a = nat] by simp
  then show ?thesis
    by (simp add: u64_from_le_bytes_def from_le_to_le)
qed

lemma to_le_append: "to_le (j + k) n = to_le j n @ to_le k (n div 256 ^ j)"
  by (induction j arbitrary: n) (simp_all add: div_mult2_eq)

lemma to_le_last_zero: "n < 256 ^ k \<Longrightarrow> to_le (Suc k) n ! k = 0"
  using to_le_append [of k 1 n] by (simp add: nth_append)

lemma byte_at_append:
  "byte_at (xs @ ys) i = (if i < length xs then byte_at xs i else byte_at ys (i - length xs))"
  by (auto simp: byte_at_def nth_append)

lemma slice_append:
  "a \<le> b \<Longrightarrow> length xs = a \<Longrightarrow> length ys = b - a \<Longrightarrow> slice (xs @ ys @ zs) a b = ys"
  by (simp add: slice_def)

lemma strip_wrap:
  assumes "inner \<noteq> []" and "hd inner = V0_TAG" and "length inner < 2 ^ 32"
  shows "strip_authenticator_wrapper (wrap_standard inner) = inner"
proof -
  have "slice (wrap_standard inner) 1 5 = to_le 4 (length inner)"
    using slice_append [of 1 5 "[V0_TAG]" "to_le 4 (length inner)" inner]
    by (simp add: wrap_standard_def)
  moreover have "wrap_standard inner ! 5 = V0_TAG"
    using assms(1,2) by (cases inner) (auto simp: wrap_standard_def nth_append)
  moreover have "drop 5 (wrap_standard inner) = inner" "length (wrap_standard inner) = length inner + 5"
    by (simp_all add: wrap_standard_def)
  moreover have "wrap_standard inner ! 0 = V0_TAG"
    by (simp add: wrap_standard_def)
  ultimately show ?thesis
    using assms
    by (auto simp: strip_authenticator_wrapper_def WRAPPER_LEN_def from_le_to_le)
qed

lemma length_tx_v0:
  "length sig = 64 \<Longrightarrow> length pk = 32 \<Longrightarrow>
   length (tx_v0_bytes sig pk call n prio fee gas cid) =
     length call + (case gas of None \<Rightarrow> 139 | Some _ \<Rightarrow> 155)"
  by (auto simp: tx_v0_bytes_def gas_bytes_def split: option.splits)

text \<open>
  The reader on any byte list with 97 or more bytes before the field it takes for the uniqueness tag:
  the first shape wins whenever the byte nine from the end and the byte 42 from the end are zero.
\<close>

lemma parse_nonce_first_shape:
  assumes "inner = front @ [0] @ taken @ mid @ [0] @ to_le 8 (unat cid)"
    and "97 \<le> length front" and "length taken = 8" and "length mid = 24"
  shows "parse_nonce inner cid = Some (u64_from_le_bytes taken)"
proof -
  have m: "length inner = length front + 42"
    using assms by simp
  have cid: "drop (length inner - 8) inner = to_le 8 (unat cid)"
    using assms by simp
  have gas: "byte_at inner (length inner - 9) = Some 0"
    using assms by (simp add: byte_at_append byte_at_def nth_append)
  have uniq: "byte_at inner (length front) = Some 0"
    using assms by (simp add: byte_at_append byte_at_def)
  have tk: "slice inner (length front + 1) (length front + 9) = taken"
    using assms by (simp add: slice_def)
  show ?thesis
    using m cid gas uniq tk assms(2)
    by (simp add: parse_nonce_def tx_consts checked_sub_def Let_def add.commute)
qed

lemma parse_nonce_tx_none:
  assumes "length sig = 64" and "length pk = 32"
  shows "parse_nonce (tx_v0_bytes sig pk call n prio fee None cid) cid = Some n"
proof -
  have "tx_v0_bytes sig pk call n prio fee None cid =
      (0 # sig @ pk @ call) @ [0] @ to_le 8 (unat n) @ (to_le 8 prio @ to_le 16 fee) @ [0] @
      to_le 8 (unat cid)"
    by (simp add: tx_v0_bytes_def gas_bytes_def tx_consts)
  from parse_nonce_first_shape [OF this] assms show ?thesis by simp
qed

lemma to_le_8_split: "n < 256 ^ 7 \<Longrightarrow> to_le 8 n = to_le 7 n @ [0]"
  using to_le_append [of 7 1 n] by simp

lemma parse_nonce_tx_some:
  assumes "length sig = 64" and "length pk = 32" and "prio < 2 ^ 56" and "g2 < 2 ^ 56"
  shows "parse_nonce (tx_v0_bytes sig pk call n prio fee (Some (g1, g2)) cid) cid =
    Some (of_nat fee)"
proof -
  have "prio < 256 ^ 7" and "g2 < 256 ^ 7" using assms by simp_all
  then have sp: "to_le 8 prio = to_le 7 prio @ [0]" "to_le 8 g2 = to_le 7 g2 @ [0]"
    by (simp_all add: to_le_8_split)
  have fee: "to_le 16 fee = to_le 8 fee @ to_le 8 (fee div 256 ^ 8)"
    using to_le_append [of 8 8 fee] by simp
  have "tx_v0_bytes sig pk call n prio fee (Some (g1, g2)) cid =
      (0 # sig @ pk @ call @ (0 # to_le 8 (unat n)) @ to_le 7 prio) @ [0] @ to_le 8 fee @
      (to_le 8 (fee div 256 ^ 8) @ 1 # to_le 8 g1 @ to_le 7 g2) @ [0] @ to_le 8 (unat cid)"
    by (simp add: tx_v0_bytes_def gas_bytes_def tx_consts sp fee)
  from parse_nonce_first_shape [OF this]
  have "parse_nonce (tx_v0_bytes sig pk call n prio fee (Some (g1, g2)) cid) cid =
      Some (u64_from_le_bytes (to_le 8 fee))"
    using assms by simp
  moreover have "u64_from_le_bytes (to_le 8 fee) = of_nat fee"
    by (rule word_unat_eq_iff [THEN iffD2])
      (simp add: u64_from_le_bytes_def from_le_to_le unat_of_nat)
  ultimately show ?thesis by simp
qed

lemma parse_nonce_chain_id:
  "parse_nonce inner cid = Some n \<Longrightarrow>
   8 \<le> length inner \<and> u64_from_le_bytes (drop (length inner - 8) inner) = cid"
  by (auto simp: parse_nonce_def CHAIN_ID_LEN_def Let_def split: if_splits)

lemma parse_nonce_wrong_chain:
  "8 \<le> length inner \<Longrightarrow> u64_from_le_bytes (drop (length inner - 8) inner) \<noteq> cid \<Longrightarrow>
   parse_nonce inner cid = None"
  by (simp add: parse_nonce_def CHAIN_ID_LEN_def Let_def)

lemma tx_v0_tail: "drop (length (tx_v0_bytes sig pk call n prio fee gas cid) - 8)
    (tx_v0_bytes sig pk call n prio fee gas cid) = to_le 8 (unat cid)"
proof -
  have "tx_v0_bytes sig pk call n prio fee gas cid =
      (V0_TAG # sig @ pk @ call @ (UNIQ_TAG_NONCE # to_le 8 (unat n)) @ to_le 8 prio @ to_le 16 fee @
       gas_bytes gas) @ to_le 8 (unat cid)"
    by (simp add: tx_v0_bytes_def)
  then show ?thesis
    by (metis add_diff_cancel_right' append_eq_conv_conj length_append length_to_le)
qed

lemma tx_v0_pubkey:
  "length sig = 64 \<Longrightarrow> length pk = 32 \<Longrightarrow>
   slice (tx_v0_bytes sig pk call n prio fee gas cid) INNER_PUBKEY_START INNER_PUBKEY_END = pk"
  by (simp add: tx_v0_bytes_def tx_consts slice_def)

lemma decode_tx_body_wrapped:
  assumes "length sig = 64" and "length pk = 32" and "length call < 2 ^ 31"
    and "trim b \<noteq> []"
    and "base64_decode (trim b) = Some (wrap_standard (tx_v0_bytes sig pk call n prio fee gas cid))"
    and "encode_bech32m ''lig'' (take 28 pk) = Some addr" and "encode_bech32m ''lpk'' pk = Some lpk"
  shows "decode_tx_body base64_decode encode_bech32m b expected =
    Some \<lparr>dt_sender = addr, dt_sender_pubkey = lpk,
          dt_nonce = parse_nonce (tx_v0_bytes sig pk call n prio fee gas cid) expected\<rparr>"
proof -
  let ?tx = "tx_v0_bytes sig pk call n prio fee gas cid"
  have len: "length ?tx < 2 ^ 32" "97 \<le> length ?tx"
    using assms(1-3) by (auto simp: length_tx_v0 split: option.splits)
  have hd: "?tx \<noteq> []" "hd ?tx = V0_TAG" "byte_at ?tx 0 = Some V0_TAG"
    by (simp_all add: tx_v0_bytes_def byte_at_def)
  have "strip_authenticator_wrapper (wrap_standard ?tx) = ?tx"
    using len hd by (intro strip_wrap) auto
  then show ?thesis
    using assms len hd tx_v0_pubkey [OF assms(1,2)]
    by (simp add: decode_tx_body_def Let_def INNER_PUBKEY_END_def INNER_PUBKEY_START_def
        SIG_LEN_def PUBKEY_LEN_def ADDRESS_LEN_def)
qed

section \<open>Properties\<close>

text \<open>C12. Decoding a persisted body laid out as the module documents, for every signature, runtime call, fee
  and nonce, with or without a gas limit, recovers the signer address (the first 28 bytes of the public
  key) and the public key. Without a gas limit the nonce is recovered exactly; of a transaction with a gas
  limit the nonce is not claimed. When the configured chain id is not the transaction's, the nonce and only
  the nonce is withheld, in both layouts.\<close>

theorem decode_tx_body_roundtrip:
  assumes "length sig = 64" and "length pk = 32" and "length call < 2 ^ 31"
    and "trim b \<noteq> []"
    and "base64_decode (trim b) = Some (wrap_standard (tx_v0_bytes sig pk call n prio fee gas cid))"
    and "encode_bech32m ''lig'' (take 28 pk) = Some addr" and "encode_bech32m ''lpk'' pk = Some lpk"
  shows "\<exists>m. decode_tx_body base64_decode encode_bech32m b expected =
      Some \<lparr>dt_sender = addr, dt_sender_pubkey = lpk, dt_nonce = m\<rparr> \<and>
    (gas = None \<longrightarrow> m = (if expected = cid then Some n else None)) \<and> (expected \<noteq> cid \<longrightarrow> m = None)"
proof -
  let ?tx = "tx_v0_bytes sig pk call n prio fee gas cid"
  have "8 \<le> length ?tx" using assms(1,2) by (simp add: length_tx_v0 split: option.split)
  then have "parse_nonce ?tx expected = None" if "expected \<noteq> cid"
    using that by (intro parse_nonce_wrong_chain) (simp_all add: tx_v0_tail)
  moreover have "parse_nonce ?tx cid = Some n" if "gas = None"
    using parse_nonce_tx_none [OF assms(1,2)] that by simp
  moreover have "decode_tx_body base64_decode encode_bech32m b expected =
      Some \<lparr>dt_sender = addr, dt_sender_pubkey = lpk, dt_nonce = parse_nonce ?tx expected\<rparr>"
    using assms by (rule decode_tx_body_wrapped)
  ultimately show ?thesis by auto
qed

theorem decode_tx_body_roundtrip_witness:
  "decode_tx_body
     (\<lambda>_. Some (wrap_standard (tx_v0_bytes (replicate 64 7) (replicate 32 9) [1, 2, 3] 5 0 100000000 None 4242)))
     (\<lambda>hrp bs. Some (hrp @ ''1'')) '' QQ== '' 4242 =
   Some \<lparr>dt_sender = ''lig1'', dt_sender_pubkey = ''lpk1'', dt_nonce = Some 5\<rparr>"
proof -
  let ?dec = "\<lambda>_ :: string. Some (wrap_standard
    (tx_v0_bytes (replicate 64 7) (replicate 32 9) [1, 2, 3] 5 0 100000000 None 4242))"
  have t: "trim '' QQ== '' \<noteq> []"
    by (simp add: trim_def is_space_def)
  have "\<exists>m. decode_tx_body ?dec (\<lambda>hrp bs. Some (hrp @ ''1'')) '' QQ== '' 4242 =
      Some \<lparr>dt_sender = ''lig1'', dt_sender_pubkey = ''lpk1'', dt_nonce = m\<rparr> \<and>
    ((None :: (nat \<times> nat) option) = None \<longrightarrow> m = (if (4242 :: u64) = 4242 then Some 5 else None)) \<and>
    ((4242 :: u64) \<noteq> 4242 \<longrightarrow> m = None)"
    by (rule decode_tx_body_roundtrip
        [of "replicate 64 7" "replicate 32 9" "[1, 2, 3]" "'' QQ== ''" ?dec 5 0 100000000 None 4242])
      (simp_all add: t)
  then show ?thesis by simp
qed

text \<open>C18. A transaction that does set a gas limit is misread: whenever the second gas component and
  the priority fee are below \<open>2 ^ 56\<close>, the reader takes the layout without a gas limit first, both
  of its tag bytes happen to be zero, and the value returned as the nonce is the low 64 bits of the
  maximum fee, whatever the real nonce is. The module says a validation miss yields no nonce and
  that a guessed nonce is never written.\<close>

theorem gas_limit_nonce_misread:
  assumes "length sig = 64" and "length pk = 32" and "prio < 2 ^ 56" and "g2 < 2 ^ 56"
  shows "parse_nonce (tx_v0_bytes sig pk call n prio fee (Some (g1, g2)) cid) cid = Some (of_nat fee)"
  using assms by (rule parse_nonce_tx_some)

theorem gas_limit_nonce_misread_witness:
  "parse_nonce (tx_v0_bytes (replicate 64 7) (replicate 32 9) [1, 2, 3] 5 0 100000000
     (Some (1000, 1000)) 4242) 4242 = Some 100000000"
  using gas_limit_nonce_misread [of "replicate 64 7" "replicate 32 9" 0 1000 "[1, 2, 3]" 5 100000000 1000 4242]
  by simp

text \<open>A nonce is only ever reported from a body whose last eight bytes are the configured chain
  id, and a wrapped body and its bare transaction decode to the same nonce.\<close>

lemma nonce_chain_anchored:
  "(\<forall>n. parse_nonce inner cid = Some n \<longrightarrow>
      8 \<le> length inner \<and> u64_from_le_bytes (drop (length inner - 8) inner) = cid) \<and>
   (inner \<noteq> [] \<and> hd inner = V0_TAG \<and> length inner < 2 ^ 32 \<longrightarrow>
      parse_nonce (strip_authenticator_wrapper (wrap_standard inner)) cid = parse_nonce inner cid)"
  using parse_nonce_chain_id strip_wrap by auto

end
