(* ===== verification/Db_Tx.thy ===== *)
theory Db_Tx
  imports Db_Slots Parser Decode
begin

text \<open>
  The writes of \<^verbatim>\<open>transactions\<close> and \<^verbatim>\<open>address_summaries\<close> in
  \<^verbatim>\<open>crates/indexer/src/db.rs\<close>. A statement checks what Postgres checks, in its order: the
  \<^verbatim>\<open>CHECK\<close> constraints of the proposed row, the conflict on the key, the remaining unique
  indexes, the foreign keys.
\<close>

section \<open>Labels\<close>

definition bounty_event_kind_label :: "bounty_event_kind \<Rightarrow> string" where
  "bounty_event_kind_label kind =
     (case kind of BPosted \<Rightarrow> ''posted'' | BClaimed _ _ \<Rightarrow> ''claimed'' | BDisputed \<Rightarrow> ''disputed''
      | BDisputeResolved \<Rightarrow> ''dispute_resolved'' | BExpired \<Rightarrow> ''expired'' | BFinalised \<Rightarrow> ''finalised'')"

definition contract_event_kind_label :: "contract_event_kind \<Rightarrow> string" where
  "contract_event_kind_label kind =
     (case kind of CPosted \<Rightarrow> ''posted'' | CCommitted \<Rightarrow> ''committed'' | CDelivered \<Rightarrow> ''delivered''
      | CAccepted \<Rightarrow> ''accepted'' | CRejected \<Rightarrow> ''rejected'' | CDisputeResolved \<Rightarrow> ''dispute_resolved''
      | CCancelled \<Rightarrow> ''cancelled'' | CExpired \<Rightarrow> ''expired'')"

fun kind_label :: "indexer_tx \<Rightarrow> string" where
  "kind_label (Transfer _) = ''transfer''"
| "kind_label (RegisterAttestorSet _) = ''register_attestor_set''"
| "kind_label (RegisterSchema _) = ''register_schema''"
| "kind_label (SubmitAttestation _) = ''submit_attestation''"
| "kind_label (BountyEvent _ _) = ''bounty_event''"
| "kind_label (ContractEvent _ _) = ''contract_event''"
| "kind_label (Unknown _) = ''unknown''"

definition json_opt :: "string option \<Rightarrow> json" where
  "json_opt s = (case s of None \<Rightarrow> JNull | Some x \<Rightarrow> JString x)"

fun kind_details :: "indexer_tx \<Rightarrow> json" where
  "kind_details (Transfer t) =
     JObject [(''from'', JString (it_from t)), (''to'', JString (it_to t)),
       (''amount_nano'', JString (it_amount_nano t)), (''token_id'', JString (it_token_id t))]"
| "kind_details (RegisterAttestorSet d) =
     JObject [(''attestor_set_id'', JString (ira_attestor_set_id d)),
       (''members'', JArray (map JString (ira_members d))),
       (''threshold'', JInt (int (ira_threshold d)))]"
| "kind_details (RegisterSchema d) =
     JObject [(''schema_id'', JString (irs_schema_id d)), (''name'', JString (irs_name d)),
       (''version'', JInt (int (irs_version d))),
       (''attestor_set_id'', JString (irs_attestor_set_id d)),
       (''fee_routing_bps'', JInt (int (irs_fee_routing_bps d))),
       (''fee_routing_addr'', json_opt (irs_fee_routing_addr d)),
       (''payload_shape_hash'', JString (irs_payload_shape_hash d))]"
| "kind_details (SubmitAttestation d) =
     JObject [(''schema_id'', JString (isa_schema_id d)), (''payload_hash'', JString (isa_payload_hash d)),
       (''signature_count'', JInt (int (isa_signature_count d)))]"
| "kind_details (BountyEvent i kind) =
     JObject ([(''bounty_id'', JString i), (''event'', JString (bounty_event_kind_label kind))] @
       (case kind of
          BClaimed cnt payout \<Rightarrow>
            [(''claim_count'', JInt (int cnt)), (''total_payout_nano'', JString payout)]
        | _ \<Rightarrow> []))"
| "kind_details (ContractEvent i kind) =
     JObject [(''contract_id'', JString i), (''event'', JString (contract_event_kind_label kind))]"
| "kind_details (Unknown event_keys) =
     JObject [(''event_keys'', JArray (map JString event_keys))]"

fun event_sender :: "indexer_tx \<Rightarrow> string option" where
  "event_sender (Transfer t) = Some (it_from t)"
| "event_sender (RegisterAttestorSet d) = Some (ira_registered_by d)"
| "event_sender (RegisterSchema d) = Some (irs_owner d)"
| "event_sender (SubmitAttestation d) = Some (isa_submitter d)"
| "event_sender (BountyEvent _ _) = None"
| "event_sender (ContractEvent _ _) = None"
| "event_sender (Unknown _) = None"

fun protocol_fee_nano :: "indexer_tx \<Rightarrow> int option" where
  "protocol_fee_nano (Transfer _) = Some 0"
| "protocol_fee_nano (RegisterAttestorSet _) = Some 50000000"
| "protocol_fee_nano (RegisterSchema _) = Some 100000000"
| "protocol_fee_nano (SubmitAttestation _) = Some 100000"
| "protocol_fee_nano (BountyEvent _ _) = None"
| "protocol_fee_nano (ContractEvent _ _) = None"
| "protocol_fee_nano (Unknown _) = None"

section \<open>Transactions\<close>

text \<open>The position counter is an \<^verbatim>\<open>i32\<close> that wraps; \<^const>\<open>sint\<close> reads it.\<close>

type_synonym i32 = "32 word"

definition new_tx_row ::
  "classified_tx \<Rightarrow> u64 \<Rightarrow> i32 \<Rightarrow> string list \<Rightarrow> decoded_tx_body option \<Rightarrow> string \<Rightarrow> time \<Rightarrow> tx_row" where
  "new_tx_row c slot_height position raw_event_keys decoded outcome t =
     \<lparr>t_hash = ctx_hash c,
      t_slot = as_i64 slot_height,
      t_position = sint position,
      t_sender = coalesce (map_option dt_sender decoded) (event_sender (ctx_kind c)),
      t_sender_pubkey = map_option dt_sender_pubkey decoded,
      t_nonce = map_option i64_clamped (Option.bind decoded dt_nonce),
      t_fee_paid_nano = Some 0,
      t_protocol_fee_nano = protocol_fee_nano (ctx_kind c),
      t_kind = kind_label (ctx_kind c),
      t_details = kind_details (ctx_kind c),
      t_raw = JObject [(''batch_number'', JInt (uint (ctx_batch_number c))),
                       (''global_tx_number'', JInt (uint (ctx_global_tx_number c))),
                       (''event_keys'', JArray (map JString raw_event_keys))],
      t_outcome = outcome,
      t_revert_reason = None,
      t_indexed_at = t\<rparr>"

definition merge_tx_row :: "tx_row \<Rightarrow> time \<Rightarrow> tx_row \<Rightarrow> tx_row" where
  "merge_tx_row new t old =
     old\<lparr>t_slot := t_slot new,
         t_position := t_position new,
         t_sender := coalesce (t_sender new) (t_sender old),
         t_sender_pubkey := coalesce (t_sender_pubkey new) (t_sender_pubkey old),
         t_nonce := coalesce (t_nonce new) (t_nonce old),
         t_fee_paid_nano := t_fee_paid_nano new,
         t_protocol_fee_nano := t_protocol_fee_nano new,
         t_kind := t_kind new,
         t_details := t_details new,
         t_raw := t_raw new,
         t_outcome := t_outcome new,
         t_indexed_at := t\<rparr>"

text \<open>The row a conflict-handling insert would leave: the new row, or the old one merged.\<close>

definition tx_written :: "tx_row \<Rightarrow> time \<Rightarrow> db \<Rightarrow> tx_row" where
  "tx_written new t d =
     (case find_row t_hash (t_hash new) (transactions d) of
        None \<Rightarrow> new
      | Some old \<Rightarrow> merge_tx_row new t old)"

definition position_taken :: "tx_row \<Rightarrow> db \<Rightarrow> bool" where
  "position_taken new d \<longleftrightarrow>
     (\<exists>r \<in> set (transactions d). t_hash r \<noteq> t_hash new \<and> t_slot r = t_slot new \<and> t_position r = t_position new)"

definition insert_tx_stmt :: "(time \<Rightarrow> tx_row) \<Rightarrow> unit stmt" where
  "insert_tx_stmt row t d =
     (let new = row t in
      if \<not> tx_check new then Inl (CheckViolation ''transactions'')
      else if \<not> tx_check (tx_written new t d) then Inl (CheckViolation ''transactions'')
      else if position_taken new d then Inl (UniqueViolation ''transactions_slot_position_unique'')
      else if find_row s_height (t_slot new) (slots d) = None then Inl (ForeignKeyViolation ''slot'')
      else Inr (d\<lparr>transactions := upsert t_hash new (merge_tx_row new t) (transactions d)\<rparr>, ()))"

definition insert_transaction ::
  "pg \<Rightarrow> classified_tx \<Rightarrow> u64 \<Rightarrow> i32 \<Rightarrow> string list \<Rightarrow> decoded_tx_body option \<Rightarrow> unit op" where
  "insert_transaction P c slot_height position raw_event_keys decoded =
     (case ctx_outcome c of
        Skipped \<Rightarrow> op_ok ()
      | Committed \<Rightarrow> exec P (insert_tx_stmt
          (new_tx_row c slot_height position raw_event_keys decoded ''committed''))
      | Reverted \<Rightarrow> exec P (insert_tx_stmt
          (new_tx_row c slot_height position raw_event_keys decoded ''reverted'')))"

section \<open>Address summaries\<close>

datatype address_role = Sender | Receiver

text \<open>\<^verbatim>\<open>LEAST\<close> and \<^verbatim>\<open>GREATEST\<close> ignore nulls.\<close>

fun least :: "int option \<Rightarrow> int option \<Rightarrow> int option" where
  "least (Some a) (Some b) = Some (min a b)"
| "least None b = b"
| "least a None = a"

fun greatest :: "int option \<Rightarrow> int option \<Rightarrow> int option" where
  "greatest (Some a) (Some b) = Some (max a b)"
| "greatest None b = b"
| "greatest a None = a"

definition new_activity_row ::
  "string \<Rightarrow> int \<Rightarrow> int \<Rightarrow> int \<Rightarrow> string \<Rightarrow> time \<Rightarrow> time \<Rightarrow> address_row" where
  "new_activity_row address sent_inc recv_inc slot tx ts t =
     \<lparr>ad_address = address, ad_txs_sent_count = sent_inc, ad_txs_received_count = recv_inc,
      ad_first_seen_slot = Some slot, ad_first_seen_tx = Some tx, ad_first_seen_timestamp = Some ts,
      ad_last_seen_slot = Some slot, ad_last_seen_tx = Some tx, ad_last_seen_timestamp = Some ts,
      ad_schemas_owned_count = 0, ad_attestor_member_count = 0, ad_indexed_at = t\<rparr>"

definition earlier :: "int \<Rightarrow> int option \<Rightarrow> bool" where
  "earlier x old \<longleftrightarrow> (case old of None \<Rightarrow> True | Some y \<Rightarrow> x < y)"

definition later :: "int \<Rightarrow> int option \<Rightarrow> bool" where
  "later x old \<longleftrightarrow> (case old of None \<Rightarrow> True | Some y \<Rightarrow> x > y)"

definition merge_activity_row ::
  "int \<Rightarrow> int \<Rightarrow> int \<Rightarrow> string \<Rightarrow> time \<Rightarrow> time \<Rightarrow> address_row \<Rightarrow> address_row" where
  "merge_activity_row sent_inc recv_inc slot tx ts t old =
     old\<lparr>ad_txs_sent_count := ad_txs_sent_count old + sent_inc,
         ad_txs_received_count := ad_txs_received_count old + recv_inc,
         ad_first_seen_slot := least (ad_first_seen_slot old) (Some slot),
         ad_first_seen_tx := (if earlier slot (ad_first_seen_slot old) then Some tx else ad_first_seen_tx old),
         ad_first_seen_timestamp :=
           (if earlier ts (ad_first_seen_timestamp old) then Some ts else ad_first_seen_timestamp old),
         ad_last_seen_slot := greatest (ad_last_seen_slot old) (Some slot),
         ad_last_seen_tx := (if later slot (ad_last_seen_slot old) then Some tx else ad_last_seen_tx old),
         ad_last_seen_timestamp :=
           (if later ts (ad_last_seen_timestamp old) then Some ts else ad_last_seen_timestamp old),
         ad_indexed_at := t\<rparr>"

definition address_row_ok :: "address_row \<Rightarrow> (db_error, unit) result" where
  "address_row_ok r =
     (if \<not> int8_ok (ad_txs_sent_count r) \<or> \<not> int8_ok (ad_txs_received_count r) \<or>
         \<not> int4_ok (ad_schemas_owned_count r) then Inl NumericOutOfRange
      else if \<not> address_check r then Inl (CheckViolation ''address_summaries'')
      else Inr ())"

definition upsert_address_stmt :: "(time \<Rightarrow> address_row) \<Rightarrow> (time \<Rightarrow> address_row \<Rightarrow> address_row) \<Rightarrow> unit stmt" where
  "upsert_address_stmt row merge t d =
     (let new = row t;
          written = (case find_row ad_address (ad_address new) (address_summaries d) of
                       None \<Rightarrow> new | Some old \<Rightarrow> merge t old)
      in bind_result (address_row_ok new) (\<lambda>_. bind_result (address_row_ok written) (\<lambda>_.
           Inr (d\<lparr>address_summaries := upsert ad_address new (merge t) (address_summaries d)\<rparr>, ()))))"

definition role_incs :: "address_role \<Rightarrow> int \<times> int" where
  "role_incs role = (case role of Sender \<Rightarrow> (1, 0) | Receiver \<Rightarrow> (0, 1))"

definition upsert_address_activity ::
  "pg \<Rightarrow> string \<Rightarrow> address_role \<Rightarrow> u64 \<Rightarrow> string \<Rightarrow> time \<Rightarrow> unit op" where
  "upsert_address_activity P address role slot_height tx_hash timestamp =
     (case role_incs role of
        (sent_inc, recv_inc) \<Rightarrow>
          exec P (upsert_address_stmt
            (new_activity_row address sent_inc recv_inc (as_i64 slot_height) tx_hash timestamp)
            (merge_activity_row sent_inc recv_inc (as_i64 slot_height) tx_hash timestamp)))"

definition new_owner_row :: "string \<Rightarrow> int \<Rightarrow> string \<Rightarrow> time \<Rightarrow> time \<Rightarrow> address_row" where
  "new_owner_row owner slot tx ts t =
     (new_activity_row owner 0 0 slot tx ts t)\<lparr>ad_schemas_owned_count := 1\<rparr>"

definition bump_address_schemas_owned ::
  "pg \<Rightarrow> string \<Rightarrow> u64 \<Rightarrow> string \<Rightarrow> time \<Rightarrow> unit op" where
  "bump_address_schemas_owned P owner slot_height tx_hash timestamp =
     exec P (upsert_address_stmt (new_owner_row owner (as_i64 slot_height) tx_hash timestamp)
       (\<lambda>t old. old\<lparr>ad_schemas_owned_count := ad_schemas_owned_count old + 1, ad_indexed_at := t\<rparr>))"

definition bump_attestor_member_count :: "pg \<Rightarrow> string \<Rightarrow> unit op" where
  "bump_attestor_member_count P member_pubkey = op_ok ()"

section \<open>Lemmas on transactions\<close>

definition tx_of :: "db \<Rightarrow> string \<Rightarrow> tx_row option" where
  "tx_of d h = find_row t_hash h (transactions d)"

lemma merge_tx_hash [simp]: "t_hash (merge_tx_row new t r) = t_hash r"
  by (simp add: merge_tx_row_def)

lemma new_tx_simps [simp]:
  "t_hash (new_tx_row c s i ks dec out t) = ctx_hash c"
  "t_slot (new_tx_row c s i ks dec out t) = as_i64 s"
  "t_position (new_tx_row c s i ks dec out t) = sint i"
  "t_outcome (new_tx_row c s i ks dec out t) = out"
  "t_revert_reason (new_tx_row c s i ks dec out t) = None"
  "t_kind (new_tx_row c s i ks dec out t) = kind_label (ctx_kind c)"
  by (simp_all add: new_tx_row_def)

lemma kind_label_known: "kind_label k \<in> set tx_kinds"
  by (cases k) (simp_all add: tx_kinds_def)

lemma new_tx_check: "tx_check (new_tx_row c s i ks dec out t) \<longleftrightarrow> out = ''committed''"
  using kind_label_known by (auto simp: tx_check_def revert_reason_consistent_def)

text \<open>What the table constraints say of all rows, and that no row has a revert reason.\<close>

definition tx_wf :: "db \<Rightarrow> bool" where
  "tx_wf d \<longleftrightarrow>
     unique_key t_hash (transactions d) \<and>
     unique_key (\<lambda>r. (t_slot r, t_position r)) (transactions d) \<and>
     (\<forall>r \<in> set (transactions d). tx_check r \<and> t_revert_reason r = None \<and>
        find_row s_height (t_slot r) (slots d) \<noteq> None)"

lemma tx_wf_no_reason: "tx_wf d \<Longrightarrow> tx_of d h = Some r \<Longrightarrow> t_revert_reason r = None"
  by (auto simp: tx_wf_def tx_of_def dest: find_row_SomeD)

lemma insert_tx_stmt_Inr:
  "insert_tx_stmt row t d = Inr (d', u) \<longleftrightarrow>
     tx_check (row t) \<and> tx_check (tx_written (row t) t d) \<and> \<not> position_taken (row t) d \<and>
     find_row s_height (t_slot (row t)) (slots d) \<noteq> None \<and>
     d' = d\<lparr>transactions := upsert t_hash (row t) (merge_tx_row (row t) t) (transactions d)\<rparr>"
  by (auto simp: insert_tx_stmt_def Let_def)

lemma set_upsert_tx:
  "r \<in> set (upsert t_hash new (merge_tx_row new t) rows) \<Longrightarrow> unique_key t_hash rows \<Longrightarrow>
     (r \<in> set rows \<and> t_hash r \<noteq> t_hash new) \<or>
     (r = (case find_row t_hash (t_hash new) rows of None \<Rightarrow> new | Some old \<Rightarrow> merge_tx_row new t old))"
  using unique_key_upsert [of t_hash "merge_tx_row new t" rows new]
    find_row_upsert [of t_hash "merge_tx_row new t" "t_hash r" new rows]
    find_row_Some_iff [of t_hash "upsert t_hash new (merge_tx_row new t) rows" "t_hash r" r]
    find_row_Some_iff [of t_hash rows "t_hash r" r]
  by (auto split: if_splits)

lemma unique_key_intro:
  assumes "distinct rows" and "\<And>r r'. r \<in> set rows \<Longrightarrow> r' \<in> set rows \<Longrightarrow> key r = key r' \<Longrightarrow> r = r'"
  shows "unique_key key rows"
  using assms by (simp add: unique_key_def distinct_map inj_on_def)

lemma unique_key_inj:
  "unique_key key rows \<Longrightarrow> r \<in> set rows \<Longrightarrow> r' \<in> set rows \<Longrightarrow> key r = key r' \<Longrightarrow> r = r'"
  by (simp add: unique_key_def distinct_map inj_on_def)

lemma tx_written_pos [simp]:
  "t_slot (tx_written new t d) = t_slot new"
  "t_position (tx_written new t d) = t_position new"
  "t_hash (tx_written new t d) = t_hash new"
  by (auto simp: tx_written_def merge_tx_row_def split: option.splits dest: find_row_SomeD)

lemma tx_wf_insert:
  assumes "tx_wf d" and "insert_tx_stmt row t d = Inr (d', u)" and "t_revert_reason (row t) = None"
  shows "tx_wf d'"
proof -
  let ?new = "row t" and ?w = "tx_written (row t) t d"
  let ?rows' = "upsert t_hash ?new (merge_tx_row ?new t) (transactions d)"
  from assms(2) have ck: "tx_check ?w" and free: "\<not> position_taken ?new d"
    and fk: "find_row s_height (t_slot ?new) (slots d) \<noteq> None"
    and d': "d' = d\<lparr>transactions := ?rows'\<rparr>"
    by (auto simp: insert_tx_stmt_Inr)
  have uh: "unique_key t_hash (transactions d)" using assms(1) by (simp add: tx_wf_def)
  have uh': "unique_key t_hash ?rows'" using uh by (simp add: unique_key_upsert)
  have mem: "(r \<in> set (transactions d) \<and> t_hash r \<noteq> t_hash ?new) \<or> r = ?w" if "r \<in> set ?rows'" for r
    using set_upsert_tx [OF that uh] by (simp add: tx_written_def)
  have "unique_key (\<lambda>r. (t_slot r, t_position r)) ?rows'"
  proof (rule unique_key_intro)
    show "distinct ?rows'" using uh' by (simp add: unique_key_def distinct_map)
    show "r = r'" if "r \<in> set ?rows'" "r' \<in> set ?rows'" "(t_slot r, t_position r) = (t_slot r', t_position r')"
      for r r'
      using mem [OF that(1)] mem [OF that(2)] that(3) free assms(1)
        unique_key_inj [of "\<lambda>r. (t_slot r, t_position r)" "transactions d" r r']
      by (auto simp: position_taken_def tx_wf_def)
  qed
  moreover have "t_revert_reason ?w = None"
    using assms(1,3) by (auto simp: tx_written_def merge_tx_row_def tx_wf_def split: option.splits dest: find_row_SomeD)
  ultimately show ?thesis
    using uh' mem ck fk assms(1) by (fastforce simp: tx_wf_def d')
qed

section \<open>Activities\<close>

text \<open>The activities of an address, and the summary row they should leave.\<close>

record activity =
  act_address :: string
  act_role :: address_role
  act_slot :: u64
  act_tx :: string
  act_timestamp :: time

definition record_activity :: "pg \<Rightarrow> activity \<Rightarrow> pool \<Rightarrow> pool" where
  "record_activity P a p =
     snd (upsert_address_activity P (act_address a) (act_role a) (act_slot a) (act_tx a) (act_timestamp a) p)"

definition address_of :: "db \<Rightarrow> string \<Rightarrow> address_row option" where
  "address_of d a = find_row ad_address a (address_summaries d)"

definition slot_nums :: "activity list \<Rightarrow> int set" where
  "slot_nums acts = (\<lambda>a. as_i64 (act_slot a)) ` set acts"

definition role_count :: "address_role \<Rightarrow> activity list \<Rightarrow> int" where
  "role_count role acts = int (length (filter (\<lambda>a. act_role a = role) acts))"

definition first_tx_at :: "int \<Rightarrow> activity list \<Rightarrow> string" where
  "first_tx_at s acts = act_tx (hd (filter (\<lambda>a. as_i64 (act_slot a) = s) acts))"

definition summarises :: "address_row \<Rightarrow> activity list \<Rightarrow> bool" where
  "summarises r acts \<longleftrightarrow>
     ad_txs_sent_count r = role_count Sender acts \<and>
     ad_txs_received_count r = role_count Receiver acts \<and>
     ad_first_seen_slot r = Some (Min (slot_nums acts)) \<and>
     ad_last_seen_slot r = Some (Max (slot_nums acts)) \<and>
     ad_first_seen_tx r = Some (first_tx_at (Min (slot_nums acts)) acts) \<and>
     ad_last_seen_tx r = Some (first_tx_at (Max (slot_nums acts)) acts) \<and>
     ad_first_seen_timestamp r = Some (Min (act_timestamp ` set acts)) \<and>
     ad_last_seen_timestamp r = Some (Max (act_timestamp ` set acts)) \<and>
     ad_schemas_owned_count r = 0 \<and> ad_attestor_member_count r = 0"

lemma merge_activity_address [simp]: "ad_address (merge_activity_row si ri s tx ts t r) = ad_address r"
  by (simp add: merge_activity_row_def)

lemma slot_nums_snoc: "slot_nums (acts @ [a]) = insert (as_i64 (act_slot a)) (slot_nums acts)"
  by (auto simp: slot_nums_def)

lemma finite_slot_nums [simp]: "finite (slot_nums acts)" "slot_nums acts = {} \<longleftrightarrow> acts = []"
  by (auto simp: slot_nums_def)

lemma first_tx_at_snoc:
  "s \<in> slot_nums acts \<Longrightarrow> first_tx_at s (acts @ [a]) = first_tx_at s acts"
  "s \<notin> slot_nums acts \<Longrightarrow> s = as_i64 (act_slot a) \<Longrightarrow> first_tx_at s (acts @ [a]) = act_tx a"
proof -
  have ne: "filter (\<lambda>a. as_i64 (act_slot a) = s) acts = [] \<longleftrightarrow> s \<notin> slot_nums acts"
    by (auto simp: slot_nums_def filter_empty_conv)
  show "s \<in> slot_nums acts \<Longrightarrow> first_tx_at s (acts @ [a]) = first_tx_at s acts"
    using ne by (simp add: first_tx_at_def)
  show "s \<notin> slot_nums acts \<Longrightarrow> s = as_i64 (act_slot a) \<Longrightarrow> first_tx_at s (acts @ [a]) = act_tx a"
    using ne by (auto simp: first_tx_at_def)
qed

lemma summarises_first:
  assumes "role_incs (act_role a) = (si, ri)"
  shows "summarises (new_activity_row x si ri (as_i64 (act_slot a)) (act_tx a) (act_timestamp a) t) [a]"
  using assms
  by (cases "act_role a")
     (auto simp: summarises_def new_activity_row_def role_count_def slot_nums_def first_tx_at_def role_incs_def)

lemma min_insert_cases:
  fixes A :: "int set"
  assumes "finite A" "A \<noteq> {}"
  shows "Min (insert x A) = (if x < Min A then x else Min A)" "Max (insert x A) = (if x > Max A then x else Max A)"
  unfolding Min_insert [OF assms] Max_insert [OF assms] min_def max_def by auto

lemma outside_range:
  fixes A :: "int set"
  assumes "finite A"
  shows "x < Min A \<Longrightarrow> x \<notin> A" "x > Max A \<Longrightarrow> x \<notin> A"
  using Min_le [OF assms, of x] Max_ge [OF assms, of x] by (metis leD)+

lemma first_tx_extremes:
  assumes "acts \<noteq> []"
  shows "first_tx_at (if as_i64 (act_slot a) < Min (slot_nums acts) then as_i64 (act_slot a)
        else Min (slot_nums acts)) (acts @ [a]) =
      (if as_i64 (act_slot a) < Min (slot_nums acts) then act_tx a else first_tx_at (Min (slot_nums acts)) acts)"
    and "first_tx_at (if as_i64 (act_slot a) > Max (slot_nums acts) then as_i64 (act_slot a)
        else Max (slot_nums acts)) (acts @ [a]) =
      (if as_i64 (act_slot a) > Max (slot_nums acts) then act_tx a else first_tx_at (Max (slot_nums acts)) acts)"
proof -
  have fin: "finite (slot_nums acts)" "slot_nums acts \<noteq> {}" using assms by auto
  note snoc = first_tx_at_snoc(1) [OF Min_in [OF fin], of a] first_tx_at_snoc(1) [OF Max_in [OF fin], of a]
    first_tx_at_snoc(2) [OF outside_range(1) [OF fin(1)] refl]
    first_tx_at_snoc(2) [OF outside_range(2) [OF fin(1)] refl]
  show "first_tx_at (if as_i64 (act_slot a) < Min (slot_nums acts) then as_i64 (act_slot a)
        else Min (slot_nums acts)) (acts @ [a]) =
      (if as_i64 (act_slot a) < Min (slot_nums acts) then act_tx a else first_tx_at (Min (slot_nums acts)) acts)"
    using snoc by presburger
  show "first_tx_at (if as_i64 (act_slot a) > Max (slot_nums acts) then as_i64 (act_slot a)
        else Max (slot_nums acts)) (acts @ [a]) =
      (if as_i64 (act_slot a) > Max (slot_nums acts) then act_tx a else first_tx_at (Max (slot_nums acts)) acts)"
    using snoc by presburger
qed

lemma role_count_snoc:
  "role_count role (acts @ [a]) = role_count role acts + (if act_role a = role then 1 else 0)"
  by (simp add: role_count_def)

lemma summarises_next:
  assumes "summarises r acts" and "acts \<noteq> []" and "role_incs (act_role a) = (si, ri)"
  shows "summarises (merge_activity_row si ri (as_i64 (act_slot a)) (act_tx a) (act_timestamp a) t r) (acts @ [a])"
proof -
  have inc: "(if act_role a = Sender then 1 else 0) = si" "(if act_role a = Receiver then 1 else 0) = ri"
    using assms(3) by (cases "act_role a"; simp add: role_incs_def)+
  have ts: "act_timestamp ` set (acts @ [a]) = insert (act_timestamp a) (act_timestamp ` set acts)" by auto
  have fin: "finite (slot_nums acts)" "slot_nums acts \<noteq> {}"
    "finite (act_timestamp ` set acts)" "act_timestamp ` set acts \<noteq> {}" using assms(2) by auto
  note ins = min_insert_cases [OF fin(1,2)] min_insert_cases [OF fin(3,4)]
  show ?thesis
    unfolding summarises_def role_count_snoc inc ts slot_nums_snoc ins first_tx_extremes [OF assms(2)]
    using assms(1)
    by (simp add: summarises_def merge_activity_row_def earlier_def later_def min_def max_def
        del: Min_gr_iff Max_less_iff Min_le_iff Max_ge_iff)
qed

lemma address_row_ok_iff:
  "address_row_ok r = Inr u \<longleftrightarrow> int8_ok (ad_txs_sent_count r) \<and> int8_ok (ad_txs_received_count r) \<and>
     int4_ok (ad_schemas_owned_count r) \<and> address_check r"
  by (auto simp: address_row_ok_def)

lemma new_activity_ok: "role_incs role = (si, ri) \<Longrightarrow> address_row_ok (new_activity_row a si ri s tx ts t) = Inr ()"
  by (cases role) (auto simp: address_row_ok_iff role_incs_def new_activity_row_def address_check_def
      all_or_nothing_def int8_ok_def int4_ok_def i64_max_def i32_max_def)

lemma record_activity_other:
  assumes "act_address a \<noteq> x"
  shows "address_of (p_db (record_activity P a p)) x = address_of (p_db p) x"
  using assms unfolding record_activity_def upsert_address_activity_def
  by (auto simp: exec_def upsert_address_stmt_def address_of_def find_row_upsert bind_result_def
      new_activity_row_def Let_def split: sum.splits prod.splits)

lemma record_activity_own:
  assumes "\<not> pg_fault P (p_seq p)" and "role_incs (act_role a) = (si, ri)"
    and "\<forall>r t. address_of (p_db p) (act_address a) = Some r \<longrightarrow>
      address_row_ok (merge_activity_row si ri (as_i64 (act_slot a)) (act_tx a) (act_timestamp a) t r) = Inr ()"
  shows "\<exists>t. address_of (p_db (record_activity P a p)) (act_address a) =
    Some (case address_of (p_db p) (act_address a) of
        None \<Rightarrow> new_activity_row (act_address a) si ri (as_i64 (act_slot a)) (act_tx a) (act_timestamp a) t
      | Some r \<Rightarrow> merge_activity_row si ri (as_i64 (act_slot a)) (act_tx a) (act_timestamp a) t r)"
proof -
  let ?new = "new_activity_row (act_address a) si ri (as_i64 (act_slot a)) (act_tx a) (act_timestamp a)"
  have addr: "ad_address (?new t) = act_address a" for t by (simp add: new_activity_row_def)
  show ?thesis
    using assms unfolding record_activity_def upsert_address_activity_def
    by (cases "address_of (p_db p) (act_address a)")
       (auto simp: exec_def upsert_address_stmt_def address_of_def find_row_upsert addr
         new_activity_ok [OF assms(2)] Let_def intro!: exI [of _ "pg_now P (p_seq p)"])
qed

lemma role_count_bounds: "0 \<le> role_count role acts" "role_count role acts \<le> int (length acts)"
  by (simp_all add: role_count_def)

lemma merged_row_ok:
  assumes "summarises r acts" and "acts \<noteq> []" and "int (length acts) < i64_max"
    and "role_incs (act_role (a :: activity)) = (si, ri)"
  shows "address_row_ok (merge_activity_row si ri (as_i64 (act_slot a)) (act_tx a) (act_timestamp a) t r) = Inr ()"
proof -
  let ?r = "merge_activity_row si ri (as_i64 (act_slot a)) (act_tx a) (act_timestamp a) t r"
  have s: "summarises ?r (acts @ [a])" by (rule summarises_next [OF assms(1,2,4)])
  then have cnt: "ad_txs_sent_count ?r = role_count Sender (acts @ [a])"
    "ad_txs_received_count ?r = role_count Receiver (acts @ [a])"
    "ad_schemas_owned_count ?r = 0" "ad_attestor_member_count ?r = 0"
    by (simp_all add: summarises_def)
  have le: "role_count role (acts @ [a]) \<le> i64_max" for role
    using role_count_bounds(2) [of role "acts @ [a]"] assms(3) by simp
  have "all_or_nothing (ad_first_seen_slot ?r) (ad_first_seen_tx ?r) (ad_first_seen_timestamp ?r)"
    "all_or_nothing (ad_last_seen_slot ?r) (ad_last_seen_tx ?r) (ad_last_seen_timestamp ?r)"
    using s by (simp_all add: summarises_def all_or_nothing_def)
  then show ?thesis
    using le role_count_bounds(1) [of Sender "acts @ [a]"] role_count_bounds(1) [of Receiver "acts @ [a]"]
    by (simp add: address_row_ok_iff address_check_def cnt int8_ok_def int4_ok_def i32_max_def)
qed

definition sample_transfer :: "string \<Rightarrow> tx_outcome \<Rightarrow> classified_tx" where
  "sample_transfer h out = \<lparr>ctx_hash = h, ctx_batch_number = 1, ctx_global_tx_number = 1, ctx_outcome = out,
     ctx_kind = Transfer \<lparr>it_from = ''lig1a'', it_to = ''lig1b'', it_amount_nano = ''5'', it_token_id = ''token_1a''\<rparr>\<rparr>"

section \<open>Properties\<close>

text \<open>C17. A reverted transaction is never indexed: the insert writes a null revert reason, which
  the consistency constraint of the table refuses for the outcome \<^verbatim>\<open>reverted\<close>, so the
  statement fails whatever the database holds and leaves it unchanged.\<close>

theorem reverted_tx_never_indexed:
  assumes "ctx_outcome c = Reverted"
  shows "\<exists>e p'. insert_transaction P c slot pos ks decoded p = (Inl e, p') \<and> p_db p' = p_db p"
  using assms
  by (auto simp: insert_transaction_def exec_def insert_tx_stmt_def new_tx_check Let_def)

theorem reverted_tx_never_indexed_witness:
  "\<exists>e p'. insert_transaction calm_pg (sample_transfer ''h'' Reverted) 1 0 [] None one_slot_pool = (Inl e, p') \<and>
     p_db p' = p_db one_slot_pool"
  by (rule reverted_tx_never_indexed) (simp add: sample_transfer_def)

text \<open>A committed transaction of an indexed slot is indexed, whatever its kind, unless another
  transaction holds its position: the row has the kind and position given, the decoded signer wins
  over the sender of the events, and a signer, public key or nonce known before is not lost when the
  body is missing on a later pass. Rows of other transactions do not change and the constraints of
  the table hold afterwards.\<close>

lemma committed_tx_indexed:
  assumes "ctx_outcome c = Committed" and "tx_wf (p_db p)" and "\<not> pg_fault P (p_seq p)"
    and "slot_of (p_db p) (as_i64 slot) \<noteq> None"
    and "\<forall>r \<in> set (transactions (p_db p)).
      t_slot r = as_i64 slot \<and> t_position r = sint pos \<longrightarrow> t_hash r = ctx_hash c"
  shows "\<exists>p' r. insert_transaction P c slot pos ks decoded p = (Inr (), p') \<and>
    tx_of (p_db p') (ctx_hash c) = Some r \<and> t_slot r = as_i64 slot \<and> t_position r = sint pos \<and>
    t_kind r = kind_label (ctx_kind c) \<and> t_outcome r = ''committed'' \<and> t_revert_reason r = None \<and>
    (\<forall>b. decoded = Some b \<longrightarrow> t_sender r = Some (dt_sender b) \<and> t_sender_pubkey r = Some (dt_sender_pubkey b)) \<and>
    (\<forall>old. decoded = None \<and> tx_of (p_db p) (ctx_hash c) = Some old \<longrightarrow>
       t_sender_pubkey r = t_sender_pubkey old \<and> t_nonce r = t_nonce old \<and>
       t_sender r = coalesce (event_sender (ctx_kind c)) (t_sender old)) \<and>
    tx_wf (p_db p') \<and>
    (\<forall>h. h \<noteq> ctx_hash c \<longrightarrow> tx_of (p_db p') h = tx_of (p_db p) h)"
proof -
  let ?t = "pg_now P (p_seq p)" and ?d = "p_db p"
  define row where "row = new_tx_row c slot pos ks decoded ''committed''"
  have h: "t_hash (row t) = ctx_hash c" for t by (simp add: row_def)
  have ck: "tx_check (tx_written (row ?t) ?t ?d)"
    using tx_wf_no_reason [OF assms(2)] kind_label_known
    by (auto simp: tx_written_def merge_tx_row_def tx_check_def revert_reason_consistent_def row_def tx_of_def
        split: option.splits)
  obtain d' where st: "insert_tx_stmt row ?t ?d = Inr (d', ())"
    using ck assms(4,5) unfolding insert_tx_stmt_Inr
    by (auto simp: row_def new_tx_check position_taken_def slot_of_def)
  have ok: "insert_transaction P c slot pos ks decoded p = (Inr (), p\<lparr>p_seq := Suc (p_seq p), p_db := d'\<rparr>)"
    using st assms(1,3) by (simp add: insert_transaction_def exec_def row_def Let_def)
  have look: "tx_of d' x = (if x = ctx_hash c
      then Some (case tx_of ?d x of None \<Rightarrow> row ?t | Some old \<Rightarrow> merge_tx_row (row ?t) ?t old) else tx_of ?d x)" for x
    using st by (auto simp: insert_tx_stmt_Inr tx_of_def find_row_upsert h)
  have "tx_wf d'" using tx_wf_insert [OF assms(2) st] by (simp add: row_def)
  then show ?thesis
    using ok tx_wf_no_reason [OF assms(2), of "ctx_hash c"]
    by (cases "tx_of ?d (ctx_hash c)") (auto simp: look row_def new_tx_row_def merge_tx_row_def)
qed

text \<open>C15. The summary row of an address is exact. Recording any sequence of activities, of any
  addresses interleaved, leaves for each address one row with the number of transactions it sent and
  received, the smallest and largest slot and timestamp it was seen at, and the transaction that came
  first in the smallest slot. The transaction shown for the last slot is the first one recorded
  there, not the last.\<close>

theorem address_summary_correct:
  assumes "\<forall>n. \<not> pg_fault P n" and "address_of (p_db p) x = None"
    and "filter (\<lambda>a. act_address a = x) acts \<noteq> []" and "int (length acts) < i64_max"
  shows "\<exists>r. address_of (p_db (fold (record_activity P) acts p)) x = Some r \<and>
    summarises r (filter (\<lambda>a. act_address a = x) acts)"
  using assms(3,4)
proof (induction acts rule: rev_induct)
  case Nil
  then show ?case by simp
next
  case (snoc a acts)
  let ?p = "fold (record_activity P) acts p" and ?own = "filter (\<lambda>a. act_address a = x) acts"
  obtain si ri where inc: "role_incs (act_role a) = (si, ri)" by force
  show ?case
  proof (cases "act_address a = x")
    case False
    with snoc show ?thesis by (simp add: record_activity_other)
  next
    case True
    show ?thesis
    proof (cases "?own = []")
      case none: True
      then have "address_of (p_db ?p) x = address_of (p_db p) x"
        by (induction acts rule: rev_induct) (auto simp: record_activity_other split: if_splits)
      with record_activity_own [OF assms(1) [rule_format] inc, of ?p] assms(2) True none show ?thesis
        using summarises_first [OF inc] by fastforce
    next
      case some: False
      with snoc obtain r where r: "address_of (p_db ?p) x = Some r" "summarises r ?own" by auto
      have "length ?own \<le> length acts" by (rule length_filter_le)
      with snoc.prems(2) have "int (length ?own) < i64_max" by (simp del: length_filter_le)
      with record_activity_own [OF assms(1) [rule_format] inc, of ?p] r some True show ?thesis
        using merged_row_ok [OF r(2) some _ inc] summarises_next [OF r(2) some inc] by fastforce
    qed
  qed
qed

definition sample_activity :: "string \<Rightarrow> u64 \<Rightarrow> activity" where
  "sample_activity tx n = \<lparr>act_address = ''lig1a'', act_role = Sender, act_slot = n, act_tx = tx, act_timestamp = 5\<rparr>"

theorem address_summary_correct_witness:
  "\<exists>r. address_of (p_db (fold (record_activity calm_pg)
       [sample_activity ''t1'' 1, sample_activity ''t2'' 1] fresh_pool)) ''lig1a'' = Some r \<and>
     ad_txs_sent_count r = 2 \<and> ad_last_seen_tx r = Some ''t1''"
  using address_summary_correct [of calm_pg fresh_pool "''lig1a''" "[sample_activity ''t1'' 1, sample_activity ''t2'' 1]"]
  by (auto simp: sample_activity_def fresh_pool_def empty_db_def address_of_def i64_max_def summarises_def
      role_count_def first_tx_at_def slot_nums_def as_i64_one)

end
