(* ===== verification/Handlers.thy ===== *)
theory Handlers
  imports Queries Client Bank Db_Slots Db_Tx "HOL-Library.List_Lexorder" "HOL-Library.Char_ord"
begin

text \<open>
  The read endpoints for blocks, transactions and addresses of \<^verbatim>\<open>crates/api/src/handlers.rs\<close>,
  with the response shapes of \<^verbatim>\<open>crates/api/src/responses.rs\<close>. A handler runs its queries on
  the pool and answers with a body and the lifetime its \<^verbatim>\<open>Cache-Control\<close> header grants, or
  with an error status and its JSON body. The list endpoints share their last part, \<open>list_page\<close>; for
  each of them the contract of keyset pagination is proved by an interpretation.
\<close>

section \<open>Responses\<close>

datatype 'a reply =
    Reply (rep_body: 'a) (rep_max_age: "nat option")
  | Error_reply (rep_status: nat) (rep_error: json)

definition TTL_LIVE_SECS :: nat where "TTL_LIVE_SECS = 5"
definition TTL_MODEST_SECS :: nat where "TTL_MODEST_SECS = 30"
definition TTL_SLOW_SECS :: nat where "TTL_SLOW_SECS = 60"
definition TTL_IMMUTABLE_SECS :: nat where "TTL_IMMUTABLE_SECS = 300"

definition cached :: "'a \<Rightarrow> nat \<Rightarrow> 'a reply" where
  "cached body max_age_secs = Reply body (Some max_age_secs)"

definition internal_error :: "'a reply" where
  "internal_error = Error_reply 500 (JObject [(''error'', JString ''internal error''), (''tracking'', JNull)])"

definition not_found :: "string \<Rightarrow> 'a reply" where
  "not_found msg = Error_reply 404 (JObject [(''error'', JString msg), (''tracking'', JNull)])"

text \<open>A query that fails is answered with an internal error.\<close>

definition respond :: "(db_error, 'a) result \<times> pool \<Rightarrow> ('a \<Rightarrow> 'b reply) \<Rightarrow> 'b reply \<times> pool" where
  "respond rp f = (case fst rp of Inl _ \<Rightarrow> internal_error | Inr a \<Rightarrow> f a, snd rp)"

definition or_not_found :: "string \<Rightarrow> ('a \<Rightarrow> 'b reply) \<Rightarrow> 'a option \<Rightarrow> 'b reply" where
  "or_not_found msg f x = (case x of None \<Rightarrow> not_found msg | Some a \<Rightarrow> f a)"

record 'a page =
  page_data :: "'a list"
  page_next :: "string option"
  page_limit :: u32

record pagination_params =
  pp_limit :: "u32 option"
  pp_before :: "string option"

definition list_page :: "('r \<Rightarrow> string option) \<Rightarrow> ('r \<Rightarrow> 'a) \<Rightarrow> u32 \<Rightarrow> nat \<Rightarrow> 'r list \<Rightarrow> 'a page reply" where
  "list_page cur view limit ttl rows =
     (let (shown, next) = cut_page cur (unat limit) rows
      in cached \<lparr>page_data = map view shown, page_next = next, page_limit = limit\<rparr> ttl)"

text \<open>What a client reads off a page.\<close>

definition page_of :: "'a page reply \<times> pool \<Rightarrow> 'a list \<times> string option" where
  "page_of rp = (case fst rp of Reply pg _ \<Rightarrow> (page_data pg, page_next pg) | Error_reply _ _ \<Rightarrow> ([], None))"

lemma page_of_list:
  assumes "\<not> pg_fault P (p_seq p)"
  shows "page_of (respond (read_op P q p) (list_page cur view (resolve_limit l) ttl)) =
    apfst (map view) (cut_page cur (page_size l) (q (p_db p)))"
  using assms
  by (simp add: read_op_simps respond_def list_page_def page_of_def cached_def page_size_def split: prod.split)

section \<open>Info\<close>

record info_response =
  inf_chain_id :: string
  inf_chain_hash :: string
  inf_version :: string
  inf_indexer_height :: "u64 option"
  inf_head_height :: "u64 option"
  inf_head_lag_slots :: "u64 option"

definition saturating_sub_u64 :: "u64 \<Rightarrow> u64 \<Rightarrow> u64" where
  "saturating_sub_u64 a b = (if b \<le> a then a - b else 0)"

text \<open>
  The client is built first; when that fails, neither request is made. The two requests of
  \<^verbatim>\<open>tokio::join!\<close> are made one after the other here.
\<close>

definition info :: "'k api_env \<Rightarrow> node_client option \<Rightarrow> pool \<Rightarrow> info_response reply \<times> pool" where
  "info E client p =
     (let (h, p1) = max_slot_height (ae_pg E) p;
          indexer_height = (case h of Inl _ \<Rightarrow> None | Inr x \<Rightarrow> map_option as_u64 x);
          (chain_info, chain_head, p3) =
            (case client of
               None \<Rightarrow> (None, None, p1)
             | Some C \<Rightarrow>
                 (let (i, p2) = rollup_info C p1; (s, p3) = latest_slot C p2
                  in (case i of Inl _ \<Rightarrow> None | Inr x \<Rightarrow> Some x,
                      case s of Inl _ \<Rightarrow> None | Inr x \<Rightarrow> Some (sl_number x), p3)));
          head_lag = (case (chain_head, indexer_height) of
                        (Some head, Some at) \<Rightarrow> Some (saturating_sub_u64 head at) | _ \<Rightarrow> None)
      in (cached
            \<lparr>inf_chain_id = (case chain_info of Some i \<Rightarrow> ri_chain_id i | None \<Rightarrow> []),
             inf_chain_hash = (case chain_info of Some i \<Rightarrow> ri_chain_hash i | None \<Rightarrow> []),
             inf_version = (case chain_info of Some i \<Rightarrow> ri_version i | None \<Rightarrow> []),
             inf_indexer_height = indexer_height, inf_head_height = chain_head,
             inf_head_lag_slots = head_lag\<rparr> TTL_LIVE_SECS, p3))"

section \<open>Blocks\<close>

record block_response =
  blk_height :: u64
  blk_hash :: string
  blk_parent_hash :: "string option"
  blk_state_root :: "string option"
  blk_timestamp :: string
  blk_tx_count :: int
  blk_batch_count :: int
  blk_proposer :: "string option"
  blk_size_bytes :: "u64 option"
  blk_finality_status :: "string option"
  blk_finalized_at :: "string option"
  blk_da_block_height :: "u64 option"

definition slot_to_block_response :: "'k api_env \<Rightarrow> slot_row \<Rightarrow> block_response" where
  "slot_to_block_response E row =
     \<lparr>blk_height = as_u64 (s_height row), blk_hash = s_hash row, blk_parent_hash = s_prev_hash row,
      blk_state_root = s_state_root row, blk_timestamp = rfc3339_millis E (s_timestamp row),
      blk_tx_count = s_tx_count row, blk_batch_count = s_batch_count row, blk_proposer = s_proposer row,
      blk_size_bytes = None, blk_finality_status = s_finality_status row,
      blk_finalized_at = map_option (rfc3339_millis E) (s_finalized_at row),
      blk_da_block_height = map_option as_u64 (s_da_block_height row)\<rparr>"

definition blocks_before :: "'k api_env \<Rightarrow> string option \<Rightarrow> int option" where
  "blocks_before E before =
     map_option (\<lambda>c. as_i64 (bc_slot c)) (Option.bind before (cursor_decode (ae_codec E) de_blocks_cursor))"

definition blocks_next :: "'k api_env \<Rightarrow> slot_row \<Rightarrow> string option" where
  "blocks_next E r = cursor_encode (ae_codec E) ser_blocks_cursor \<lparr>bc_slot = as_u64 (s_height r)\<rparr>"

definition blocks_list :: "'k api_env \<Rightarrow> pagination_params \<Rightarrow> pool \<Rightarrow> block_response page reply \<times> pool" where
  "blocks_list E params p =
     (let limit = resolve_limit (pp_limit params);
          before_height = blocks_before E (pp_before params)
      in respond (slots_page (ae_pg E) before_height (unat limit + 1) p)
           (list_page (blocks_next E) (slot_to_block_response E) limit TTL_LIVE_SECS))"

definition block_by_height :: "'k api_env \<Rightarrow> u64 \<Rightarrow> pool \<Rightarrow> block_response reply \<times> pool" where
  "block_by_height E height p =
     respond (slot_by_height (ae_pg E) (as_i64 height) p)
       (or_not_found ''block not found'' (\<lambda>row. cached (slot_to_block_response E row) TTL_IMMUTABLE_SECS))"

section \<open>Transactions\<close>

record tx_response =
  txr_hash :: string
  txr_block_height :: u64
  txr_block_hash :: "string option"
  txr_block_timestamp :: "string option"
  txr_position :: int
  txr_sender :: "string option"
  txr_sender_pubkey :: "string option"
  txr_nonce :: "int option"
  txr_fee_paid_nano :: "string option"
  txr_protocol_fee_nano :: "string option"
  txr_kind :: string
  txr_details :: json
  txr_outcome :: string
  txr_revert_reason :: "string option"

definition tx_row_to_response :: "'k api_env \<Rightarrow> tx_join \<Rightarrow> tx_response" where
  "tx_row_to_response E j =
     (let row = fst j; s = snd j in
      \<lparr>txr_hash = t_hash row, txr_block_height = as_u64 (t_slot row), txr_block_hash = Some (s_hash s),
       txr_block_timestamp = Some (rfc3339_millis E (s_timestamp s)), txr_position = t_position row,
       txr_sender = t_sender row, txr_sender_pubkey = t_sender_pubkey row, txr_nonce = t_nonce row,
       txr_fee_paid_nano = map_option (bigdecimal_text E) (t_fee_paid_nano row),
       txr_protocol_fee_nano = map_option (bigdecimal_text E) (t_protocol_fee_nano row),
       txr_kind = t_kind row, txr_details = t_details row, txr_outcome = t_outcome row,
       txr_revert_reason = t_revert_reason row\<rparr>)"

record txs_list_params = pagination_params +
  tp_kind :: "string option"
  tp_block_height :: "u64 option"

definition as_u32 :: "int \<Rightarrow> u32" where
  "as_u32 i = word_of_int i"

definition u32_as_i32 :: "u32 \<Rightarrow> int" where
  "u32_as_i32 x = sint x"

definition txs_before :: "'k api_env \<Rightarrow> string option \<Rightarrow> (int \<times> int) option" where
  "txs_before E before =
     map_option (\<lambda>c. (as_i64 (tc_slot c), u32_as_i32 (tc_idx c)))
       (Option.bind before (cursor_decode (ae_codec E) de_txs_cursor))"

definition txs_next :: "'k api_env \<Rightarrow> tx_join \<Rightarrow> string option" where
  "txs_next E j =
     cursor_encode (ae_codec E) ser_txs_cursor
       \<lparr>tc_slot = as_u64 (t_slot (fst j)), tc_idx = as_u32 (t_position (fst j))\<rparr>"

definition txs_list :: "'k api_env \<Rightarrow> txs_list_params \<Rightarrow> pool \<Rightarrow> tx_response page reply \<times> pool" where
  "txs_list E params p =
     (let limit = resolve_limit (pp_limit params); before = txs_before E (pp_before params)
      in respond (txs_page (ae_pg E) (tp_kind params) (tp_block_height params) before (unat limit + 1) p)
           (list_page (txs_next E) (tx_row_to_response E) limit TTL_LIVE_SECS))"

definition get_tx_by_hash :: "'k api_env \<Rightarrow> string \<Rightarrow> pool \<Rightarrow> tx_response reply \<times> pool" where
  "get_tx_by_hash E hash p =
     respond (tx_by_hash (ae_pg E) hash p)
       (or_not_found ''tx not found'' (\<lambda>row. cached (tx_row_to_response E row) TTL_IMMUTABLE_SECS))"

section \<open>Addresses\<close>

record token_balance_response =
  tb_token_id :: string
  tb_amount_nano :: string

record seen_at_response =
  sn_block_height :: u64
  sn_timestamp :: string

record address_summary_response =
  asr_address :: string
  asr_balances :: "token_balance_response list"
  asr_tx_count :: u64
  asr_first_seen :: "seen_at_response option"
  asr_last_seen :: "seen_at_response option"
  asr_schemas_owned_count :: u32
  asr_attestor_member_count :: u32

definition seen_at :: "'k api_env \<Rightarrow> int option \<Rightarrow> time option \<Rightarrow> seen_at_response option" where
  "seen_at E slot ts =
     (case (slot, ts) of
        (Some s, Some t) \<Rightarrow> Some \<lparr>sn_block_height = as_u64 s, sn_timestamp = rfc3339_millis E t\<rparr>
      | _ \<Rightarrow> None)"

text \<open>
  The balance comes from the chain; when the request fails, none is shown. The sum of the two counters is an \<^verbatim>\<open>i64\<close> addition, which wraps in a release
  build.
\<close>

definition address_summary ::
  "'k api_env \<Rightarrow> bank \<Rightarrow> 'key signer \<Rightarrow> string \<Rightarrow> pool \<Rightarrow> address_summary_response reply \<times> pool" where
  "address_summary E B sg addr p =
     respond (query_address_summary (ae_pg E) addr p) (\<lambda>row.
       cached
         \<lparr>asr_address = addr,
          asr_balances = (case query_balance_for B sg addr of
             Inr b \<Rightarrow> [\<lparr>tb_token_id = avow_token_id_bech32 B sg, tb_amount_nano = show_nat b\<rparr>] | Inl _ \<Rightarrow> []),
          asr_tx_count = as_u64 (ad_txs_sent_count row + ad_txs_received_count row),
          asr_first_seen = seen_at E (ad_first_seen_slot row) (ad_first_seen_timestamp row),
          asr_last_seen = seen_at E (ad_last_seen_slot row) (ad_last_seen_timestamp row),
          asr_schemas_owned_count = as_u32 (ad_schemas_owned_count row),
          asr_attestor_member_count = as_u32 (ad_attestor_member_count row)\<rparr> TTL_MODEST_SECS)"

definition address_txs :: "'k api_env \<Rightarrow> string \<Rightarrow> pagination_params \<Rightarrow> pool \<Rightarrow> tx_response page reply \<times> pool" where
  "address_txs E addr params p =
     (let limit = resolve_limit (pp_limit params); before = txs_before E (pp_before params)
      in respond (address_txs_page E addr before (unat limit + 1) p)
           (list_page (txs_next E) (tx_row_to_response E) limit TTL_LIVE_SECS))"

section \<open>Casts of the cursors\<close>

lemma u32_as_i32_as_u32: "int4_ok i \<Longrightarrow> u32_as_i32 (as_u32 i) = i"
proof -
  assume "int4_ok i"
  then have "signed_take_bit 31 i = i"
    by (intro signed_take_bit_int_eq_self) (auto simp: int4_ok_def i32_max_def)
  then show ?thesis by (simp add: u32_as_i32_def as_u32_def sint_sbintrunc')
qed

section \<open>The block list\<close>

definition env_ok :: "'k api_env \<Rightarrow> bool" where
  "env_ok E \<longleftrightarrow> codec_ok (ae_codec E) \<and> inj (collate E)"

text \<open>The statement goes through, and the table satisfies its primary key and column types.\<close>

definition reachable :: "'k api_env \<Rightarrow> pool \<Rightarrow> bool" where
  "reachable E p \<longleftrightarrow> \<not> pg_fault (ae_pg E) (p_seq p)"

definition slots_ok :: "db \<Rightarrow> bool" where
  "slots_ok d \<longleftrightarrow> unique_key s_height (slots d) \<and> (\<forall>r \<in> set (slots d). int8_ok (s_height r))"

definition serve_blocks :: "'k api_env \<Rightarrow> u32 option \<Rightarrow> pool \<Rightarrow> string option \<Rightarrow> block_response list \<times> string option" where
  "serve_blocks E l p c = page_of (blocks_list E \<lparr>pp_limit = l, pp_before = c\<rparr> p)"

text \<open>
  A list handler reads a page of its rows from the position its cursor decodes to. Then it is an
  endpoint as soon as the keys are distinct and decoding a row's cursor gives back its key.
\<close>

lemma list_endpoint:
  assumes serve: "\<And>w l p c. good w \<Longrightarrow> serve w l p c = page_of (respond
      (read_op (ae_pg (env w)) (\<lambda>d. select_page (key w) (rows w d) (before w c) (Suc (page_size l))) p)
      (list_page (cur w) (view w) (resolve_limit l) ttl))"
    and head: "\<And>w. before w None = None"
    and cur: "\<And>w d r. good w \<Longrightarrow> okd d \<Longrightarrow> r \<in> set (rows w d) \<Longrightarrow>
      \<exists>c. cur w r = Some c \<and> before w (Some c) = Some (key w r)"
    and dist: "\<And>w d. good w \<Longrightarrow> okd d \<Longrightarrow> distinct (map (key w) (rows w d))"
  shows "keyset_endpoint good (\<lambda>w p. reachable (env w) p \<and> okd (p_db p))
    (\<lambda>w p. rows w (p_db p)) key cur view page_size serve"
proof unfold_locales
  show "0 < page_size l" for l by simp
next
  fix w :: 'a and s s' :: pool and r :: 'c and l :: "u32 option" and c :: string
  assume w: "good w" and s: "reachable (env w) s \<and> okd (p_db s)"
  show "distinct (map (key w) (rows w (p_db s)))" using dist w s by blast
  show "cur w r \<noteq> None" if "r \<in> set (rows w (p_db s))" using cur [OF w _ that] s by auto
  show "serve w l s None = apfst (map (view w)) (cut_page (cur w) (page_size l)
      (select_page (key w) (rows w (p_db s)) None (page_size l + 1)))"
    using s by (simp add: serve [OF w] head reachable_def page_of_list)
  assume s': "reachable (env w) s' \<and> okd (p_db s')" and r: "r \<in> set (rows w (p_db s'))" and c: "cur w r = Some c"
  then have "before w (Some c) = Some (key w r)" using cur [OF w _ r] by auto
  then show "serve w l s (Some c) = apfst (map (view w)) (cut_page (cur w) (page_size l)
      (select_page (key w) (rows w (p_db s)) (Some (key w r)) (page_size l + 1)))"
    using s by (simp add: serve [OF w] reachable_def page_of_list)
qed

lemma encoded_cursor:
  assumes "env_ok E" and "flat_object (ser c)" and "de (ser c) = Some c"
  shows "\<exists>s. cursor_encode (ae_codec E) ser c = Some s \<and> cursor_decode (ae_codec E) de s = Some c"
  using assms cursor_encode_total [of "ae_codec E" ser c] cursor_decode_encode [of "ae_codec E" ser c de c]
  by (auto simp: env_ok_def)

interpretation block_pages: keyset_endpoint "\<lambda>E :: 'k api_env. env_ok E" "\<lambda>E p. reachable E p \<and> slots_ok (p_db p)"
  "\<lambda>E p. slots (p_db p)" "\<lambda>E. s_height" blocks_next slot_to_block_response page_size serve_blocks
proof (rule list_endpoint [where env = "\<lambda>E. E" and before = blocks_before and ttl = TTL_LIVE_SECS])
  fix E :: "'k api_env" and d r
  assume "env_ok E" "slots_ok d" "r \<in> set (slots d)"
  then show "\<exists>c. blocks_next E r = Some c \<and> blocks_before E (Some c) = Some (s_height r)"
    using encoded_cursor [of E ser_blocks_cursor "\<lparr>bc_slot = as_u64 (s_height r)\<rparr>" de_blocks_cursor]
    by (auto simp: blocks_next_def blocks_before_def slots_ok_def as_i64_as_u64)
qed (simp_all add: serve_blocks_def blocks_list_def blocks_before_def slots_page_def page_size_def Let_def
    slots_ok_def unique_key_def)

section \<open>The transaction lists\<close>

definition txs_ok :: "db \<Rightarrow> bool" where
  "txs_ok d \<longleftrightarrow> tx_wf d \<and> unique_key s_height (slots d) \<and>
     (\<forall>r \<in> set (transactions d). int8_ok (t_slot r) \<and> int4_ok (t_position r))"

text \<open>The foreign key of a transaction makes the join keep every row, once.\<close>

lemma join_left:
  assumes "txs_ok d"
  shows "map fst (transactions_join_slots d) = transactions d"
  unfolding transactions_join_slots_def using assms
  by (intro join_fst) (auto simp: txs_ok_def tx_wf_def find_row_None)

lemma join_map:
  assumes "txs_ok d"
  shows "map (\<lambda>j. f (fst j)) (transactions_join_slots d) = map f (transactions d)"
  unfolding join_left [OF assms, symmetric] by simp

lemma join_keys:
  assumes "txs_ok d"
  shows "distinct (map tx_key (transactions_join_slots d))"
proof -
  have "map tx_key (transactions_join_slots d) = map (\<lambda>r. (t_slot r, t_position r)) (transactions d)"
    unfolding tx_key_def by (rule join_map [OF assms])
  then show ?thesis using assms by (simp add: txs_ok_def tx_wf_def unique_key_def)
qed

lemma distinct_keys_filter: "distinct (map f xs) \<Longrightarrow> distinct (map f (filter P xs))"
  by (rule distinct_map_filter)

lemma txs_before_None [simp]: "txs_before E None = None"
  by (simp add: txs_before_def)

lemma txs_cursor_back:
  assumes "env_ok E" and "txs_ok d" and "j \<in> set (transactions_join_slots d)"
  shows "\<exists>c. txs_next E j = Some c \<and> txs_before E (Some c) = Some (tx_key j)"
proof -
  have "fst j \<in> set (transactions d)" using assms(3) by (auto simp: transactions_join_slots_def)
  then have "int8_ok (t_slot (fst j))" "int4_ok (t_position (fst j))"
    using assms(2) by (simp_all add: txs_ok_def)
  then show ?thesis
    using encoded_cursor [OF assms(1), of ser_txs_cursor _ de_txs_cursor]
    by (force simp: txs_next_def txs_before_def tx_key_def as_i64_as_u64 u32_as_i32_as_u32)
qed

definition serve_txs ::
  "'k api_env \<times> string option \<times> u64 option \<Rightarrow> u32 option \<Rightarrow> pool \<Rightarrow> string option \<Rightarrow> tx_response list \<times> string option" where
  "serve_txs w l p c = page_of (txs_list (fst w)
     \<lparr>pp_limit = l, pp_before = c, tp_kind = fst (snd w), tp_block_height = snd (snd w)\<rparr> p)"

interpretation tx_pages: keyset_endpoint "\<lambda>w :: 'k api_env \<times> string option \<times> u64 option. env_ok (fst w)"
  "\<lambda>w p. reachable (fst w) p \<and> txs_ok (p_db p)" "\<lambda>w p. txs_where (fst (snd w)) (snd (snd w)) (p_db p)"
  "\<lambda>w. tx_key" "\<lambda>w. txs_next (fst w)" "\<lambda>w. tx_row_to_response (fst w)" page_size serve_txs
  by (rule list_endpoint [where env = fst and before = "\<lambda>w. txs_before (fst w)" and ttl = TTL_LIVE_SECS])
     (auto simp: serve_txs_def txs_list_def txs_page_def page_size_def txs_where_def Let_def
       intro: distinct_keys_filter join_keys txs_cursor_back)

definition serve_address_txs ::
  "'k api_env \<times> string \<Rightarrow> u32 option \<Rightarrow> pool \<Rightarrow> string option \<Rightarrow> tx_response list \<times> string option" where
  "serve_address_txs w l p c = page_of (address_txs (fst w) (snd w) \<lparr>pp_limit = l, pp_before = c\<rparr> p)"

interpretation address_tx_pages: keyset_endpoint "\<lambda>w :: 'k api_env \<times> string. env_ok (fst w)"
  "\<lambda>w p. reachable (fst w) p \<and> txs_ok (p_db p)"
  "\<lambda>w p. address_txs_where (jsonb_text (fst w)) (snd w) (p_db p)"
  "\<lambda>w. tx_key" "\<lambda>w. txs_next (fst w)" "\<lambda>w. tx_row_to_response (fst w)" page_size serve_address_txs
  by (rule list_endpoint [where env = fst and before = "\<lambda>w. txs_before (fst w)" and ttl = TTL_LIVE_SECS])
     (auto simp: serve_address_txs_def address_txs_def address_txs_page_def page_size_def Let_def
       address_txs_where_def intro: distinct_keys_filter join_keys txs_cursor_back)

section \<open>An environment and stores for the witnesses\<close>

definition sample_env :: "string api_env" where
  "sample_env = \<lparr>ae_pg = calm_pg, ae_codec = net_codec, collate = (\<lambda>s. s), rfc3339_millis = show_int,
     bigdecimal_text = show_int, jsonb_text = (\<lambda>_. ''null'')\<rparr>"

lemma sample_env_ok [simp]: "env_ok sample_env" "reachable sample_env p"
  by (simp_all add: env_ok_def sample_env_def net_codec_ok inj_def reachable_def)

definition sample_slot_row :: "u64 \<Rightarrow> slot_row" where
  "sample_slot_row n = new_slot_row calm_pg (sample_slot n (show_u64 n) finalized) None None None 7"

definition sample_tx_row :: "string \<Rightarrow> i32 \<Rightarrow> tx_row" where
  "sample_tx_row h i = new_tx_row (sample_transfer h Committed) 1 i [] None ''committed'' 7"

definition sample_pool :: pool where
  "sample_pool = \<lparr>p_db = empty_db\<lparr>slots := [sample_slot_row 1, sample_slot_row 2],
     transactions := [sample_tx_row ''ltx1a'' 0, sample_tx_row ''ltx1b'' 1]\<rparr>, p_seq = 0\<rparr>"

lemma sample_rows [simp]:
  "s_height (sample_slot_row n) = as_i64 n"
  "t_hash (sample_tx_row h i) = h"
  "t_slot (sample_tx_row h i) = 1"
  "t_position (sample_tx_row h i) = sint i"
  by (simp_all add: sample_slot_row_def new_slot_row_def sample_slot_def sample_tx_row_def as_i64_one
      sample_transfer_def)

lemma sample_slots [simp]: "slots (p_db sample_pool) = [sample_slot_row 1, sample_slot_row 2]"
  by (simp add: sample_pool_def)

lemma sample_txs [simp]:
  "transactions (p_db sample_pool) = [sample_tx_row ''ltx1a'' 0, sample_tx_row ''ltx1b'' 1]"
  by (simp add: sample_pool_def)

lemma sample_slots_ok [simp]: "slots_ok (p_db sample_pool)"
  by (simp add: slots_ok_def unique_key_def as_i64_one int8_ok_def i64_max_def)

lemma sample_txs_ok [simp]: "txs_ok (p_db sample_pool)"
  using new_tx_check
  by (simp add: txs_ok_def tx_wf_def unique_key_def as_i64_one int8_ok_def int4_ok_def i64_max_def i32_max_def
      sample_tx_row_def new_tx_check) (simp add: sample_transfer_def as_i64_one)

section \<open>Properties\<close>

text \<open>Following the cursors of the block list from the head ends and shows every slot that was indexed
  when the walk began, each height once and in descending order, whatever page size the client asks
  for: new slots above and updates of slots in place (finality, counts) between the page requests do
  not make it skip or repeat a height.\<close>

lemma blocks_walk_complete:
  assumes "env_ok E" and "\<And>i. reachable E (store i)" and "\<And>i. slots_ok (p_db (store i))"
    and "stays_below s_height (\<lambda>i. slots (p_db (store i)))"
    and "length (slots (p_db (store 0))) < fuel"
  shows "\<exists>blocks heights. walk_pages (serve_blocks E l) store fuel 0 None = Some blocks \<and>
    list_all2 (shown s_height (slot_to_block_response E) (\<lambda>i. slots (p_db (store i)))) blocks heights \<and>
    sorted_wrt (\<lambda>a b. b < a) heights \<and> set heights = s_height ` set (slots (p_db (store 0)))"
  using block_pages.walk_complete [of E store fuel l] assms by blast

text \<open>Following the cursors of the transaction list, with any combination of the kind and block filters,
  ends and shows every matching transaction of the store once, newest first by slot and position,
  also while the indexer adds transactions above.\<close>

lemma txs_walk_complete:
  assumes "env_ok E" and "\<And>i. reachable E (store i)" and "\<And>i. txs_ok (p_db (store i))"
    and "stays_below tx_key (\<lambda>i. txs_where kind height (p_db (store i)))"
    and "length (txs_where kind height (p_db (store 0))) < fuel"
  shows "\<exists>txs keys. walk_pages (serve_txs (E, kind, height) l) store fuel 0 None = Some txs \<and>
    list_all2 (shown tx_key (tx_row_to_response E) (\<lambda>i. txs_where kind height (p_db (store i)))) txs keys \<and>
    sorted_wrt (\<lambda>a b. b < a) keys \<and> set keys = tx_key ` set (txs_where kind height (p_db (store 0)))"
  using tx_pages.walk_complete [of "(E, kind, height)" store fuel l] assms by simp

lemma join_row:
  assumes "txs_ok d" and "t \<in> set (transactions d)"
  shows "\<exists>s. find_row (\<lambda>j. t_hash (fst j)) (t_hash t) (transactions_join_slots d) = Some (t, s) \<and>
    s \<in> set (slots d) \<and> s_height s = t_slot t"
proof -
  have u: "unique_key (\<lambda>j. t_hash (fst j)) (transactions_join_slots d)"
    using assms(1) by (simp add: unique_key_def join_map txs_ok_def tx_wf_def)
  obtain s where "(t, s) \<in> set (transactions_join_slots d)"
    using assms(2) unfolding join_left [OF assms(1), symmetric] by auto
  moreover from this have "s \<in> set (slots d)" "s_height s = t_slot t"
    by (auto simp: transactions_join_slots_def)
  ultimately show ?thesis using find_row_Some_iff [OF u] by auto
qed

text \<open>A transaction lookup answers for every hash: with the row and the block it belongs to (hash, height
  and time of the slot the row points at) when the hash is indexed, with 404 when it is not, and with
  500 exactly when the statement fails.\<close>

lemma get_tx_by_hash_correct:
  assumes "txs_ok (p_db p)"
  shows "if pg_fault (ae_pg E) (p_seq p) then fst (get_tx_by_hash E h p) = internal_error
    else case tx_of (p_db p) h of
      None \<Rightarrow> fst (get_tx_by_hash E h p) = not_found ''tx not found''
    | Some t \<Rightarrow> \<exists>s \<in> set (slots (p_db p)). s_height s = t_slot t \<and>
        fst (get_tx_by_hash E h p) = cached (tx_row_to_response E (t, s)) 300"
proof (cases "pg_fault (ae_pg E) (p_seq p)")
  case True
  then show ?thesis by (simp add: get_tx_by_hash_def tx_by_hash_def read_op_simps respond_def)
next
  case False
  note simps = get_tx_by_hash_def tx_by_hash_def read_op_simps(1) [OF False] respond_def or_not_found_def
    TTL_IMMUTABLE_SECS_def
  show ?thesis
  proof (cases "tx_of (p_db p) h")
    case None
    then have "find_row (\<lambda>j. t_hash (fst j)) h (transactions_join_slots (p_db p)) = None"
      by (auto simp: tx_of_def find_row_None transactions_join_slots_def)
    with False None show ?thesis by (simp add: simps)
  next
    case (Some t)
    then have t: "t \<in> set (transactions (p_db p))" "t_hash t = h"
      by (auto simp: tx_of_def dest: find_row_SomeD)
    then show ?thesis using join_row [OF assms t(1)] False Some by (auto simp: simps)
  qed
qed

text \<open>The info endpoint always answers with a body. When the database and the node both answer and the
  index holds slots with non-negative heights, the lag is the distance from the greatest indexed
  height to the node's head, and zero when the index is ahead; when either side is missing, the lag
  is absent.\<close>

lemma info_lag_correct:
  assumes "\<And>r. r \<in> set (slots (p_db p)) \<Longrightarrow> 0 \<le> s_height r \<and> s_height r \<le> i64_max"
  shows "\<exists>i. fst (info E client p) = cached i 5 \<and>
    inf_indexer_height i =
      (if pg_fault (ae_pg E) (p_seq p) \<or> slots (p_db p) = [] then None
       else Some (of_int (Max (s_height ` set (slots (p_db p)))))) \<and>
    inf_head_lag_slots i =
      (case (inf_head_height i, inf_indexer_height i) of
         (Some head, Some _) \<Rightarrow> Some (of_nat (unat head - nat (Max (s_height ` set (slots (p_db p))))))
       | _ \<Rightarrow> None)"
proof -
  let ?rows = "slots (p_db p)" and ?m = "Max (s_height ` set (slots (p_db p)))"
  have m: "0 \<le> ?m \<and> ?m \<le> i64_max" if ne: "?rows \<noteq> []"
  proof -
    obtain r where "r \<in> set ?rows" "?m = s_height r" 
      using Max_in [of "s_height ` set ?rows"] ne unfolding image_iff by auto
    then show ?thesis using assms by simp
  qed
  have sat: "saturating_sub_u64 head (word_of_int ?m) = of_nat (unat head - nat ?m)" if "?rows \<noteq> []" for head
  proof -
    have u: "unat (word_of_int ?m :: u64) = nat ?m"
      using m [OF that] by (simp add: unat_eq_nat_uint uint_word_of_int i64_max_def)
    show ?thesis
    proof (cases "nat ?m \<le> unat head")
      case True
      then have "of_nat (unat head - nat ?m) = head - word_of_int ?m"
        using m [OF that] by (simp add: of_nat_diff)
      with True show ?thesis by (simp add: saturating_sub_u64_def word_le_nat_alt u)
    qed (simp add: saturating_sub_u64_def word_le_nat_alt u)
  qed
  show ?thesis
    using sat
    by (auto simp: info_def max_slot_height_def read_op_def exec_def Let_def TTL_LIVE_SECS_def cached_def
        max_height_correct as_u64_def split: prod.splits option.splits sum.splits)
qed

end
