(* ===== verification/Resource_Handlers.thy ===== *)
theory Resource_Handlers
  imports Handlers Attestation_Id
begin

text \<open>
  The read endpoints for schemas, attestor sets, attestations, bounties and contracts of
  \<^verbatim>\<open>crates/api/src/handlers.rs\<close>. Every list is paged by a slot and an identifier, attestations
  by a slot and two of them; each list is shown to satisfy the contract of keyset pagination.
\<close>

section \<open>Schemas\<close>

record registered_at_response =
  reg_block_height :: u64
  reg_tx_hash :: string
  reg_timestamp :: string

definition registered_at :: "'k api_env \<Rightarrow> int \<Rightarrow> string \<Rightarrow> time \<Rightarrow> registered_at_response" where
  "registered_at E slot tx ts =
     \<lparr>reg_block_height = as_u64 slot, reg_tx_hash = tx, reg_timestamp = rfc3339_millis E ts\<rparr>"

record schema_response =
  scr_id :: string
  scr_name :: string
  scr_version :: u32
  scr_owner :: string
  scr_attestor_set_id :: string
  scr_threshold :: u8
  scr_fee_routing_bps :: "16 word"
  scr_fee_routing_addr :: "string option"
  scr_payload_shape_hash :: string
  scr_registered_at :: registered_at_response
  scr_attestation_count :: u32

definition schema_row_to_response :: "'k api_env \<Rightarrow> schema_join \<Rightarrow> schema_response" where
  "schema_row_to_response E j =
     (let row = fst j in
      \<lparr>scr_id = sc_id row, scr_name = sc_name row, scr_version = as_u32 (sc_version row),
       scr_owner = sc_owner row, scr_attestor_set_id = sc_attestor_set_id row,
       scr_threshold = word_of_int (as_threshold (snd j)),
       scr_fee_routing_bps = word_of_int (sc_fee_routing_bps row),
       scr_fee_routing_addr = sc_fee_routing_addr row, scr_payload_shape_hash = sc_payload_shape_hash row,
       scr_registered_at = registered_at E (sc_slot row) (sc_tx row) (sc_timestamp row),
       scr_attestation_count = as_u32 (sc_attestation_count row)\<rparr>)"

text \<open>The cursors of the lists keyed by slot and identifier.\<close>

definition slot_id_before :: "'k api_env \<Rightarrow> string option \<Rightarrow> (int \<times> string) option" where
  "slot_id_before E before =
     map_option (\<lambda>c. (as_i64 (ic_slot c), ic_id c))
       (Option.bind before (cursor_decode (ae_codec E) de_slot_id_cursor))"

definition slot_id_next :: "'k api_env \<Rightarrow> int \<Rightarrow> string \<Rightarrow> string option" where
  "slot_id_next E slot i =
     cursor_encode (ae_codec E) ser_slot_id_cursor \<lparr>ic_slot = as_u64 slot, ic_id = i\<rparr>"

record schemas_list_params = pagination_params +
  sp_attestor_set_id :: "string option"

definition schemas_list ::
  "('k :: linorder) api_env \<Rightarrow> schemas_list_params \<Rightarrow> pool \<Rightarrow> schema_response page reply \<times> pool" where
  "schemas_list E params p =
     (let limit = resolve_limit (pp_limit params); before = slot_id_before E (pp_before params)
      in respond (schemas_page E (sp_attestor_set_id params) before (unat limit + 1) p)
           (list_page (\<lambda>j. slot_id_next E (sc_slot (fst j)) (sc_id (fst j))) (schema_row_to_response E)
             limit TTL_SLOW_SECS))"

definition get_schema_by_id :: "'k api_env \<Rightarrow> string \<Rightarrow> pool \<Rightarrow> schema_response reply \<times> pool" where
  "get_schema_by_id E i p =
     respond (schema_by_id (ae_pg E) i p)
       (or_not_found ''schema not found'' (\<lambda>row. cached (schema_row_to_response E row) TTL_IMMUTABLE_SECS))"

section \<open>Attestor sets\<close>

record attestor_set_response =
  asp_id :: string
  asp_members :: "string list"
  asp_threshold :: u8
  asp_registered_at :: registered_at_response
  asp_schema_count :: u32

definition string_members :: "json \<Rightarrow> string list" where
  "string_members v = (case v of JArray vs \<Rightarrow> List.map_filter as_str vs | _ \<Rightarrow> [])"

definition attestor_set_row_to_response :: "'k api_env \<Rightarrow> attestor_set_row \<Rightarrow> attestor_set_response" where
  "attestor_set_row_to_response E row =
     \<lparr>asp_id = as_id row, asp_members = string_members (as_members row),
      asp_threshold = word_of_int (as_threshold row),
      asp_registered_at = registered_at E (as_slot row) (as_tx row) (as_timestamp row),
      asp_schema_count = as_u32 (as_schema_count row)\<rparr>"

definition get_attestor_set_by_id :: "'k api_env \<Rightarrow> string \<Rightarrow> pool \<Rightarrow> attestor_set_response reply \<times> pool" where
  "get_attestor_set_by_id E i p =
     respond (attestor_set_by_id (ae_pg E) i p)
       (or_not_found ''attestor set not found''
         (\<lambda>row. cached (attestor_set_row_to_response E row) TTL_IMMUTABLE_SECS))"

definition attestor_sets_list ::
  "('k :: linorder) api_env \<Rightarrow> pagination_params \<Rightarrow> pool \<Rightarrow> attestor_set_response page reply \<times> pool" where
  "attestor_sets_list E params p =
     (let limit = resolve_limit (pp_limit params); before = slot_id_before E (pp_before params)
      in respond (attestor_sets_page E before (unat limit + 1) p)
           (list_page (\<lambda>r. slot_id_next E (as_slot r) (as_id r)) (attestor_set_row_to_response E)
             limit TTL_SLOW_SECS))"

text \<open>The public key is normalised and must be bech32m with the prefix \<^verbatim>\<open>lpk\<close> and 32 bytes.\<close>

definition invalid_pubkey :: "string \<Rightarrow> 'a reply" where
  "invalid_pubkey detail =
     Error_reply 400 (JObject [(''error'', JString ''invalid_pubkey''), (''detail'', JString detail)])"

definition attestor_sets_by_member ::
  "('k :: linorder) api_env \<Rightarrow> crypto \<Rightarrow> string \<Rightarrow> pagination_params \<Rightarrow> pool \<Rightarrow>
   attestor_set_response page reply \<times> pool" where
  "attestor_sets_by_member E C pubkey0 params p =
     (let pubkey = to_lowercase (trim pubkey0) in
      case bech32_decode C pubkey of
        Inl e \<Rightarrow> (invalid_pubkey (''bech32m decode failed: '' @ e), p)
      | Inr (hrp, data) \<Rightarrow>
          if hrp = ''lpk'' \<and> length data = 32 then
            (let limit = resolve_limit (pp_limit params); before = slot_id_before E (pp_before params)
             in respond (attestor_sets_for_member_page E pubkey before (unat limit + 1) p)
                  (list_page (\<lambda>r. slot_id_next E (as_slot r) (as_id r)) (attestor_set_row_to_response E)
                    limit TTL_SLOW_SECS))
          else (invalid_pubkey (''expected bech32m HRP `lpk` with 32-byte payload, got HRP `'' @ hrp @
                  ''` with '' @ show_nat (length data) @ ''-byte payload''), p))"

section \<open>Attestations\<close>

record attestation_response =
  atr_id :: string
  atr_schema_id :: string
  atr_payload_hash :: string
  atr_submitter :: string
  atr_submitter_pubkey :: "string option"
  atr_signature_count :: u32
  atr_submitted_at :: registered_at_response

definition attestation_row_to_response :: "'k api_env \<Rightarrow> attestation_row \<Rightarrow> attestation_response" where
  "attestation_row_to_response E row =
     \<lparr>atr_id = at_id row, atr_schema_id = at_schema_id row, atr_payload_hash = at_payload_hash row,
      atr_submitter = at_submitter row, atr_submitter_pubkey = at_submitter_pubkey row,
      atr_signature_count = as_u32 (at_signature_count row),
      atr_submitted_at = registered_at E (at_slot row) (at_tx row) (at_timestamp row)\<rparr>"

definition decode_attestations_cursor :: "'k api_env \<Rightarrow> string option \<Rightarrow> (int \<times> string \<times> string) option" where
  "decode_attestations_cursor E before =
     map_option (\<lambda>c. (as_i64 (ac_slot c), ac_schema_id c, ac_payload_hash c))
       (Option.bind before (cursor_decode (ae_codec E) de_attestations_cursor))"

definition attestation_next :: "'k api_env \<Rightarrow> attestation_row \<Rightarrow> string option" where
  "attestation_next E r =
     cursor_encode (ae_codec E) ser_attestations_cursor
       \<lparr>ac_slot = as_u64 (at_slot r), ac_schema_id = at_schema_id r, ac_payload_hash = at_payload_hash r\<rparr>"

definition attestation_page_response ::
  "'k api_env \<Rightarrow> u32 \<Rightarrow> nat \<Rightarrow> attestation_row list \<Rightarrow> attestation_response page reply" where
  "attestation_page_response E limit ttl = list_page (attestation_next E) (attestation_row_to_response E) limit ttl"

definition attestations_list ::
  "('k :: linorder) api_env \<Rightarrow> pagination_params \<Rightarrow> pool \<Rightarrow> attestation_response page reply \<times> pool" where
  "attestations_list E params p =
     (let limit = resolve_limit (pp_limit params); before = decode_attestations_cursor E (pp_before params)
      in respond (attestations_page E None before (unat limit + 1) p)
           (attestation_page_response E limit TTL_MODEST_SECS))"

definition attestations_by_schema ::
  "('k :: linorder) api_env \<Rightarrow> string \<Rightarrow> pagination_params \<Rightarrow> pool \<Rightarrow> attestation_response page reply \<times> pool" where
  "attestations_by_schema E schema_id params p =
     (let limit = resolve_limit (pp_limit params); before = decode_attestations_cursor E (pp_before params)
      in respond (attestations_page E (Some schema_id) before (unat limit + 1) p)
           (attestation_page_response E limit TTL_MODEST_SECS))"

definition attestations_by_attestor_set ::
  "('k :: linorder) api_env \<Rightarrow> string \<Rightarrow> pagination_params \<Rightarrow> pool \<Rightarrow> attestation_response page reply \<times> pool" where
  "attestations_by_attestor_set E set_id params p =
     (let limit = resolve_limit (pp_limit params); before = decode_attestations_cursor E (pp_before params)
      in respond (query_attestations_by_attestor_set E set_id before (unat limit + 1) p)
           (attestation_page_response E limit TTL_MODEST_SECS))"

definition attestation_by_id :: "'k api_env \<Rightarrow> string \<Rightarrow> pool \<Rightarrow> attestation_response reply \<times> pool" where
  "attestation_by_id E i p =
     (let lowered = to_lowercase i in
      if \<not> starts_with ''lat1'' lowered
      then (Error_reply 400 (JObject [(''error'', JString ''attestation id must be a bech32m `lat1...` string'')]), p)
      else respond (query_attestation_by_id (ae_pg E) lowered p) (\<lambda>r.
             case r of
               Some row \<Rightarrow> cached (attestation_row_to_response E row) TTL_IMMUTABLE_SECS
             | None \<Rightarrow> Error_reply 404 (JObject [(''error'', JString ''attestation not found''), (''id'', JString lowered)])))"

section \<open>Bounties\<close>

record bounty_match_entry =
  bm_id :: string
  bm_poster :: string
  bm_board_schema_id :: string
  bm_per_attestation_nano :: string
  bm_escrow_remaining_nano :: string
  bm_pool_nano :: string
  bm_acceptance :: json
  bm_expiry_da_height :: int
  bm_posted_at_slot :: int
  bm_my_attestation_count :: int

record bounty_matching_response =
  bmr_address :: string
  bmr_matches :: "bounty_match_entry list"

definition MATCH_LIMIT :: nat where
  "MATCH_LIMIT = 100"

definition bounty_match_entry_of :: "bounty_row \<times> nat \<Rightarrow> bounty_match_entry" where
  "bounty_match_entry_of m =
     (let r = fst m in
      \<lparr>bm_id = bo_id r, bm_poster = bo_poster r, bm_board_schema_id = bo_board_schema_id r,
       bm_per_attestation_nano = bo_per_attestation_nano r, bm_escrow_remaining_nano = bo_escrow_remaining_nano r,
       bm_pool_nano = bo_pool_nano r, bm_acceptance = bo_acceptance r, bm_expiry_da_height = bo_expiry_da_height r,
       bm_posted_at_slot = bo_slot r, bm_my_attestation_count = int (snd m)\<rparr>)"

definition bounties_matching ::
  "('k :: linorder) api_env \<Rightarrow> string \<Rightarrow> pool \<Rightarrow> bounty_matching_response reply \<times> pool" where
  "bounties_matching E address p =
     respond (bounties_matching_address E address MATCH_LIMIT p) (\<lambda>rows.
       cached \<lparr>bmr_address = address, bmr_matches = map bounty_match_entry_of rows\<rparr> TTL_MODEST_SECS)"

record bounty_detail_response =
  bdr_id :: string
  bdr_poster :: string
  bdr_board_schema_id :: string
  bdr_pool_nano :: string
  bdr_per_attestation_nano :: string
  bdr_escrow_remaining_nano :: string
  bdr_status :: string
  bdr_acceptance :: json
  bdr_expiry_da_height :: int
  bdr_dispute_window_blocks :: int
  bdr_claim_count :: int
  bdr_posted_at :: registered_at_response
  bdr_last_claim_at_slot :: "int option"

definition bounty_row_to_response :: "'k api_env \<Rightarrow> bounty_row \<Rightarrow> bounty_detail_response" where
  "bounty_row_to_response E row =
     \<lparr>bdr_id = bo_id row, bdr_poster = bo_poster row, bdr_board_schema_id = bo_board_schema_id row,
      bdr_pool_nano = bo_pool_nano row, bdr_per_attestation_nano = bo_per_attestation_nano row,
      bdr_escrow_remaining_nano = bo_escrow_remaining_nano row, bdr_status = bo_status row,
      bdr_acceptance = bo_acceptance row, bdr_expiry_da_height = bo_expiry_da_height row,
      bdr_dispute_window_blocks = bo_dispute_window_blocks row, bdr_claim_count = bo_claim_count row,
      bdr_posted_at = registered_at E (bo_slot row) (bo_tx row) (bo_timestamp row),
      bdr_last_claim_at_slot = bo_last_claim_at_slot row\<rparr>"

definition bounty_detail :: "'k api_env \<Rightarrow> string \<Rightarrow> pool \<Rightarrow> bounty_detail_response reply \<times> pool" where
  "bounty_detail E i p =
     respond (bounty_by_id (ae_pg E) i p)
       (or_not_found ''bounty not found'' (\<lambda>row. cached (bounty_row_to_response E row) TTL_MODEST_SECS))"

record bounties_list_params = pagination_params +
  bp_board :: "string option"
  bp_status :: "string option"

definition bounties_list ::
  "('k :: linorder) api_env \<Rightarrow> bounties_list_params \<Rightarrow> pool \<Rightarrow> bounty_detail_response page reply \<times> pool" where
  "bounties_list E params p =
     (let limit = resolve_limit (pp_limit params); before = slot_id_before E (pp_before params)
      in respond (bounties_page E (bp_board params) (bp_status params) before (unat limit + 1) p)
           (list_page (\<lambda>r. slot_id_next E (bo_slot r) (bo_id r)) (bounty_row_to_response E)
             limit TTL_MODEST_SECS))"

section \<open>Contracts\<close>

record contract_detail_response =
  cdr_id :: string
  cdr_poster :: string
  cdr_arbiter :: string
  cdr_criteria_doc_hash :: string
  cdr_pool_nano :: string
  cdr_escrow_remaining_nano :: string
  cdr_arbiter_fee_bps :: "16 word"
  cdr_status :: string
  cdr_expiry_da_height :: int
  cdr_dispute_window_blocks :: int
  cdr_posted_at :: registered_at_response

definition contract_row_to_response :: "'k api_env \<Rightarrow> contract_row \<Rightarrow> contract_detail_response" where
  "contract_row_to_response E row =
     \<lparr>cdr_id = co_id row, cdr_poster = co_poster row, cdr_arbiter = co_arbiter row,
      cdr_criteria_doc_hash = co_criteria_doc_hash row, cdr_pool_nano = co_pool_nano row,
      cdr_escrow_remaining_nano = co_escrow_remaining_nano row,
      cdr_arbiter_fee_bps = word_of_int (co_arbiter_fee_bps row), cdr_status = co_status row,
      cdr_expiry_da_height = co_expiry_da_height row, cdr_dispute_window_blocks = co_dispute_window_blocks row,
      cdr_posted_at = registered_at E (co_slot row) (co_tx row) (co_timestamp row)\<rparr>"

definition contract_detail :: "'k api_env \<Rightarrow> string \<Rightarrow> pool \<Rightarrow> contract_detail_response reply \<times> pool" where
  "contract_detail E i p =
     respond (contract_by_id (ae_pg E) i p)
       (or_not_found ''contract not found'' (\<lambda>row. cached (contract_row_to_response E row) TTL_MODEST_SECS))"

record contracts_list_params = pagination_params +
  cp_status :: "string option"
  cp_poster :: "string option"
  cp_arbiter :: "string option"

definition contracts_list ::
  "('k :: linorder) api_env \<Rightarrow> contracts_list_params \<Rightarrow> pool \<Rightarrow> contract_detail_response page reply \<times> pool" where
  "contracts_list E params p =
     (let limit = resolve_limit (pp_limit params); before = slot_id_before E (pp_before params)
      in respond (contracts_page E (cp_status params) (cp_poster params) (cp_arbiter params) before (unat limit + 1) p)
           (list_page (\<lambda>r. slot_id_next E (co_slot r) (co_id r)) (contract_row_to_response E)
             limit TTL_MODEST_SECS))"

section \<open>The lists as keyset endpoints\<close>

lemma slot_id_before_None [simp]: "slot_id_before E None = None"
  by (simp add: slot_id_before_def)

lemma slot_id_back:
  assumes "env_ok E" and "int8_ok slot"
  shows "\<exists>c. slot_id_next E slot i = Some c \<and> slot_id_before E (Some c) = Some (slot, i)"
  using encoded_cursor [OF assms(1), of ser_slot_id_cursor "\<lparr>ic_slot = as_u64 slot, ic_id = i\<rparr>" de_slot_id_cursor]
    as_i64_as_u64 [OF assms(2)]
  by (auto simp: slot_id_next_def slot_id_before_def)

lemma collated_distinct:
  assumes "env_ok E" and "distinct (map i rs)"
  shows "distinct (map (\<lambda>r. collated E (slot r, i r)) rs)"
proof -
  have "inj_on (\<lambda>r. collated E (slot r, i r)) (set rs)"
    using assms by (auto simp: inj_on_def collated_def env_ok_def distinct_map dest: injD)
  then show ?thesis using assms(2) by (simp add: distinct_map)
qed

text \<open>A table listed by slot and identifier: the identifier is its primary key.\<close>

definition listed_ok :: "('r \<Rightarrow> int) \<Rightarrow> ('r \<Rightarrow> string) \<Rightarrow> 'r list \<Rightarrow> bool" where
  "listed_ok slot i rs \<longleftrightarrow> unique_key i rs \<and> (\<forall>r \<in> set rs. int8_ok (slot r))"

lemma listed_distinct:
  "env_ok E \<Longrightarrow> listed_ok slot i rs \<Longrightarrow> distinct (map (\<lambda>r. collated E (slot r, i r)) (filter Q rs))"
  by (simp add: listed_ok_def unique_key_def collated_distinct distinct_map_filter)

definition key_before :: "'k api_env \<Rightarrow> string option \<Rightarrow> (int \<times> 'k) option" where
  "key_before E c = map_option (collated E) (slot_id_before E c)"

lemma key_before_None [simp]: "key_before E None = None"
  by (simp add: key_before_def)

lemma listed_back:
  assumes "env_ok E" and "listed_ok slot i rs" and "r \<in> set rs"
  shows "\<exists>c. slot_id_next E (slot r) (i r) = Some c \<and> key_before E (Some c) = Some (collated E (slot r, i r))"
  using slot_id_back [OF assms(1), of "slot r" "i r"] assms(2,3) by (auto simp: listed_ok_def key_before_def)


definition serve_contracts ::
  "('k :: linorder) api_env \<times> string option \<times> string option \<times> string option \<Rightarrow> u32 option \<Rightarrow> pool \<Rightarrow> string option \<Rightarrow>
   contract_detail_response list \<times> string option" where
  "serve_contracts w l p c = (case w of (E, status, poster, arbiter) \<Rightarrow>
     page_of (contracts_list E \<lparr>pp_limit = l, pp_before = c, cp_status = status, cp_poster = poster,
       cp_arbiter = arbiter\<rparr> p))"

interpretation contract_pages: keyset_endpoint
  "\<lambda>w :: ('k :: linorder) api_env \<times> string option \<times> string option \<times> string option. env_ok (fst w)"
  "\<lambda>w p. reachable (fst w) p \<and> listed_ok co_slot co_id (contracts (p_db p))"
  "\<lambda>w p. case w of (E, st, po, ar) \<Rightarrow> contracts_where st po ar (p_db p)"
  "\<lambda>w. contract_key (fst w)" "\<lambda>w r. slot_id_next (fst w) (co_slot r) (co_id r)"
  "\<lambda>w. contract_row_to_response (fst w)" page_size serve_contracts
proof (rule list_endpoint [where env = fst and ttl = TTL_MODEST_SECS
      and before = "\<lambda>w. key_before (fst w)"
      and okd = "\<lambda>d. listed_ok co_slot co_id (contracts d)"])
qed (auto simp: serve_contracts_def contracts_list_def contracts_page_def page_size_def Let_def contracts_where_def
    contract_key_def [abs_def] simp flip: key_before_def intro: listed_distinct listed_back)

definition serve_bounties ::
  "('k :: linorder) api_env \<times> string option \<times> string option \<Rightarrow> u32 option \<Rightarrow> pool \<Rightarrow> string option \<Rightarrow>
   bounty_detail_response list \<times> string option" where
  "serve_bounties w l p c = (case w of (E, board, status) \<Rightarrow>
     page_of (bounties_list E \<lparr>pp_limit = l, pp_before = c, bp_board = board, bp_status = status\<rparr> p))"

interpretation bounty_pages: keyset_endpoint
  "\<lambda>w :: ('k :: linorder) api_env \<times> string option \<times> string option. env_ok (fst w)"
  "\<lambda>w p. reachable (fst w) p \<and> listed_ok bo_slot bo_id (bounties (p_db p))"
  "\<lambda>w p. case w of (E, board, st) \<Rightarrow> bounties_where board st (p_db p)"
  "\<lambda>w. bounty_key (fst w)" "\<lambda>w r. slot_id_next (fst w) (bo_slot r) (bo_id r)"
  "\<lambda>w. bounty_row_to_response (fst w)" page_size serve_bounties
proof (rule list_endpoint [where env = fst and ttl = TTL_MODEST_SECS
      and before = "\<lambda>w. key_before (fst w)"
      and okd = "\<lambda>d. listed_ok bo_slot bo_id (bounties d)"])
qed (auto simp: serve_bounties_def bounties_list_def bounties_page_def page_size_def Let_def bounties_where_def
    bounty_key_def [abs_def] simp flip: key_before_def intro: listed_distinct listed_back)

definition serve_attestor_sets ::
  "('k :: linorder) api_env \<Rightarrow> u32 option \<Rightarrow> pool \<Rightarrow> string option \<Rightarrow> attestor_set_response list \<times> string option" where
  "serve_attestor_sets E l p c = page_of (attestor_sets_list E \<lparr>pp_limit = l, pp_before = c\<rparr> p)"

interpretation attestor_set_pages: keyset_endpoint "\<lambda>E :: ('k :: linorder) api_env. env_ok E"
  "\<lambda>E p. reachable E p \<and> listed_ok as_slot as_id (attestor_sets (p_db p))" "\<lambda>E p. attestor_sets (p_db p)"
  attestor_set_key "\<lambda>E r. slot_id_next E (as_slot r) (as_id r)" attestor_set_row_to_response page_size serve_attestor_sets
proof (rule list_endpoint [where env = "\<lambda>E. E" and ttl = TTL_SLOW_SECS
      and before = key_before
      and okd = "\<lambda>d. listed_ok as_slot as_id (attestor_sets d)"])
  show "distinct (map (attestor_set_key E) (attestor_sets d))"
    if "env_ok E" "listed_ok as_slot as_id (attestor_sets d)" for E :: "'k api_env" and d
    using listed_distinct [OF that, of "\<lambda>_. True"] by (simp add: attestor_set_key_def [abs_def])
qed (auto simp: serve_attestor_sets_def attestor_sets_list_def attestor_sets_page_def page_size_def Let_def
    attestor_set_key_def [abs_def] simp flip: key_before_def intro: listed_back)

text \<open>The lookup by member pages the sets of a well-formed public key.\<close>

definition valid_pubkey :: "crypto \<Rightarrow> string \<Rightarrow> bool" where
  "valid_pubkey C pk \<longleftrightarrow>
     (case bech32_decode C (to_lowercase (trim pk)) of Inr (hrp, data) \<Rightarrow> hrp = ''lpk'' \<and> length data = 32 | Inl _ \<Rightarrow> False)"

definition serve_member_sets ::
  "('k :: linorder) api_env \<times> crypto \<times> string \<Rightarrow> u32 option \<Rightarrow> pool \<Rightarrow> string option \<Rightarrow>
   attestor_set_response list \<times> string option" where
  "serve_member_sets w l p c = (case w of (E, C, pk) \<Rightarrow>
     page_of (attestor_sets_by_member E C pk \<lparr>pp_limit = l, pp_before = c\<rparr> p))"

interpretation member_set_pages: keyset_endpoint
  "\<lambda>w :: ('k :: linorder) api_env \<times> crypto \<times> string. env_ok (fst w) \<and> valid_pubkey (fst (snd w)) (snd (snd w))"
  "\<lambda>w p. reachable (fst w) p \<and> listed_ok as_slot as_id (attestor_sets (p_db p))"
  "\<lambda>w p. attestor_sets_where_member (to_lowercase (trim (snd (snd w)))) (p_db p)"
  "\<lambda>w. attestor_set_key (fst w)" "\<lambda>w r. slot_id_next (fst w) (as_slot r) (as_id r)"
  "\<lambda>w. attestor_set_row_to_response (fst w)" page_size serve_member_sets
proof (rule list_endpoint [where env = fst and ttl = TTL_SLOW_SECS
      and before = "\<lambda>w. key_before (fst w)"
      and okd = "\<lambda>d. listed_ok as_slot as_id (attestor_sets d)"])
qed (auto simp: serve_member_sets_def attestor_sets_by_member_def attestor_sets_for_member_page_def page_size_def
    Let_def attestor_sets_where_member_def attestor_set_key_def [abs_def] valid_pubkey_def
    simp flip: key_before_def split: sum.splits intro: listed_distinct listed_back)

text \<open>Schemas are listed with the attestor set their foreign key names.\<close>

definition schemas_ok :: "db \<Rightarrow> bool" where
  "schemas_ok d \<longleftrightarrow> listed_ok sc_slot sc_id (schemas d) \<and> unique_key as_id (attestor_sets d) \<and>
     (\<forall>r \<in> set (schemas d). sc_attestor_set_id r \<in> as_id ` set (attestor_sets d))"

lemma schemas_join_left: "schemas_ok d \<Longrightarrow> map fst (schemas_join_sets d) = schemas d"
  unfolding schemas_join_sets_def by (intro join_fst) (auto simp: schemas_ok_def)

lemma schemas_join_ids:
  assumes "schemas_ok d"
  shows "listed_ok (\<lambda>j. sc_slot (fst j)) (\<lambda>j. sc_id (fst j)) (schemas_join_sets d)"
proof -
  have "map (\<lambda>j. sc_id (fst j)) (schemas_join_sets d) = map sc_id (schemas d)"
    unfolding schemas_join_left [OF assms, symmetric] by simp
  moreover have "set (schemas d) = fst ` set (schemas_join_sets d)"
    unfolding schemas_join_left [OF assms, symmetric] by simp
  ultimately show ?thesis using assms by (simp add: schemas_ok_def listed_ok_def unique_key_def)
qed

definition serve_schemas ::
  "('k :: linorder) api_env \<times> string option \<Rightarrow> u32 option \<Rightarrow> pool \<Rightarrow> string option \<Rightarrow> schema_response list \<times> string option" where
  "serve_schemas w l p c =
     page_of (schemas_list (fst w) \<lparr>pp_limit = l, pp_before = c, sp_attestor_set_id = snd w\<rparr> p)"

interpretation schema_pages: keyset_endpoint "\<lambda>w :: ('k :: linorder) api_env \<times> string option. env_ok (fst w)"
  "\<lambda>w p. reachable (fst w) p \<and> schemas_ok (p_db p)" "\<lambda>w p. schemas_where (snd w) (p_db p)"
  "\<lambda>w. schema_key (fst w)" "\<lambda>w j. slot_id_next (fst w) (sc_slot (fst j)) (sc_id (fst j))"
  "\<lambda>w. schema_row_to_response (fst w)" page_size serve_schemas
proof (rule list_endpoint [where env = fst and ttl = TTL_SLOW_SECS and before = "\<lambda>w. key_before (fst w)"
      and okd = schemas_ok])
  fix w :: "('k :: linorder) api_env \<times> string option" and d j
  assume w: "env_ok (fst w)" and d: "schemas_ok d"
  show "distinct (map (schema_key (fst w)) (schemas_where (snd w) d))"
    using listed_distinct [OF w schemas_join_ids [OF d]] by (simp add: schema_key_def [abs_def] schemas_where_def)
  show "\<exists>c. slot_id_next (fst w) (sc_slot (fst j)) (sc_id (fst j)) = Some c \<and>
      key_before (fst w) (Some c) = Some (schema_key (fst w) j)" if "j \<in> set (schemas_where (snd w) d)"
    using listed_back [OF w schemas_join_ids [OF d], of j] that by (simp add: schema_key_def schemas_where_def)
qed (auto simp: serve_schemas_def schemas_list_def schemas_page_def page_size_def Let_def simp flip: key_before_def)

text \<open>
  Attestations: the identifier is unique, and it is a function of the schema and the payload hash.
\<close>

definition attestations_ok :: "db \<Rightarrow> bool" where
  "attestations_ok d \<longleftrightarrow> unique_key at_id (attestations d) \<and>
     (\<forall>r \<in> set (attestations d). \<forall>r' \<in> set (attestations d).
        at_schema_id r = at_schema_id r' \<and> at_payload_hash r = at_payload_hash r' \<longrightarrow> at_id r = at_id r') \<and>
     (\<forall>r \<in> set (attestations d). int8_ok (at_slot r)) \<and> unique_key sc_id (schemas d)"

lemma attestation_keys:
  assumes "env_ok E" and "attestations_ok d"
  shows "distinct (map (attestation_key E) (attestations d))"
proof -
  have "distinct (attestations d)" and inj: "inj_on at_id (set (attestations d))"
    using assms(2) by (simp_all add: attestations_ok_def unique_key_def distinct_map)
  moreover have "inj_on (attestation_key E) (set (attestations d))"
  proof (rule inj_onI)
    fix r r' assume rr: "r \<in> set (attestations d)" "r' \<in> set (attestations d)" "attestation_key E r = attestation_key E r'"
    have "inj (collate E)" using assms(1) by (simp add: env_ok_def)
    then have "at_schema_id r = at_schema_id r'" "at_payload_hash r = at_payload_hash r'"
      using rr(3) by (auto simp: attestation_key_def attestation_collated_def dest: injD)
    then have "at_id r = at_id r'" using rr assms(2) unfolding attestations_ok_def by blast
    then show "r = r'" using inj rr by (simp add: inj_on_def)
  qed
  ultimately show ?thesis by (simp add: distinct_map)
qed

definition attestation_before :: "'k api_env \<Rightarrow> string option \<Rightarrow> (int \<times> 'k \<times> 'k) option" where
  "attestation_before E c = map_option (attestation_collated E) (decode_attestations_cursor E c)"

lemma attestation_before_None [simp]: "attestation_before E None = None"
  by (simp add: attestation_before_def decode_attestations_cursor_def)

lemma attestation_back:
  assumes "env_ok E" and "attestations_ok d" and "r \<in> set (attestations d)"
  shows "\<exists>c. attestation_next E r = Some c \<and> attestation_before E (Some c) = Some (attestation_key E r)"
proof -
  have "int8_ok (at_slot r)" using assms(2,3) by (simp add: attestations_ok_def)
  then show ?thesis
    using encoded_cursor [OF assms(1), of ser_attestations_cursor _ de_attestations_cursor]
    by (force simp: attestation_next_def attestation_before_def decode_attestations_cursor_def
        attestation_key_def as_i64_as_u64)
qed

definition serve_attestations ::
  "('k :: linorder) api_env \<times> string option \<Rightarrow> u32 option \<Rightarrow> pool \<Rightarrow> string option \<Rightarrow> attestation_response list \<times> string option" where
  "serve_attestations w l p c = (case w of
     (E, None) \<Rightarrow> page_of (attestations_list E \<lparr>pp_limit = l, pp_before = c\<rparr> p)
   | (E, Some s) \<Rightarrow> page_of (attestations_by_schema E s \<lparr>pp_limit = l, pp_before = c\<rparr> p))"

interpretation attestation_pages: keyset_endpoint "\<lambda>w :: ('k :: linorder) api_env \<times> string option. env_ok (fst w)"
  "\<lambda>w p. reachable (fst w) p \<and> attestations_ok (p_db p)" "\<lambda>w p. attestations_where (snd w) (p_db p)"
  "\<lambda>w. attestation_key (fst w)" "\<lambda>w. attestation_next (fst w)" "\<lambda>w. attestation_row_to_response (fst w)"
  page_size serve_attestations
proof (rule list_endpoint [where env = fst and ttl = TTL_MODEST_SECS and before = "\<lambda>w. attestation_before (fst w)"
      and okd = attestations_ok])
qed (auto simp: serve_attestations_def attestations_list_def attestations_by_schema_def attestations_page_def
    attestation_page_response_def [abs_def] page_size_def Let_def attestations_where_def simp flip: attestation_before_def
    intro: attestation_keys attestation_back distinct_keys_filter split: option.split)

lemma attestations_of_set_filter:
  assumes "unique_key sc_id (schemas d)"
  shows "attestations_of_set i d =
    filter (\<lambda>a. \<exists>s \<in> set (schemas d). sc_id s = at_schema_id a \<and> sc_attestor_set_id s = i) (attestations d)"
proof -
  have one: "map (\<lambda>_. a) (filter (\<lambda>s. sc_id s = at_schema_id a \<and> sc_attestor_set_id s = i) (schemas d)) =
      (if \<exists>s \<in> set (schemas d). sc_id s = at_schema_id a \<and> sc_attestor_set_id s = i then [a] else [])" for a
  proof (cases "at_schema_id a \<in> sc_id ` set (schemas d)")
    case True
    then obtain s where s: "filter (\<lambda>s. sc_id s = at_schema_id a) (schemas d) = [s]" "s \<in> set (schemas d)" "sc_id s = at_schema_id a"
      using filter_key_singleton [OF assms] by blast
    have ff: "filter (\<lambda>s. sc_id s = at_schema_id a \<and> sc_attestor_set_id s = i) (schemas d) =
        filter (\<lambda>s. sc_attestor_set_id s = i) [s]"
      unfolding s(1) [symmetric] by simp
    have "(\<exists>s' \<in> set (schemas d). sc_id s' = at_schema_id a \<and> sc_attestor_set_id s' = i) \<longleftrightarrow> sc_attestor_set_id s = i"
      using s(2,3) unique_key_inj [OF assms _ s(2)] by metis
    then show ?thesis unfolding ff by simp
  next
    case False
    then show ?thesis by (auto simp: image_iff filter_empty_conv)
  qed
  have "concat (map (\<lambda>a. if Q a then [a] else []) as) = filter Q as" for Q and as :: "attestation_row list"
    by (induction as) auto
  then show ?thesis by (simp add: attestations_of_set_def one)
qed

definition serve_set_attestations ::
  "('k :: linorder) api_env \<times> string \<Rightarrow> u32 option \<Rightarrow> pool \<Rightarrow> string option \<Rightarrow> attestation_response list \<times> string option" where
  "serve_set_attestations w l p c =
     page_of (attestations_by_attestor_set (fst w) (snd w) \<lparr>pp_limit = l, pp_before = c\<rparr> p)"

interpretation set_attestation_pages: keyset_endpoint "\<lambda>w :: ('k :: linorder) api_env \<times> string. env_ok (fst w)"
  "\<lambda>w p. reachable (fst w) p \<and> attestations_ok (p_db p)" "\<lambda>w p. attestations_of_set (snd w) (p_db p)"
  "\<lambda>w. attestation_key (fst w)" "\<lambda>w. attestation_next (fst w)" "\<lambda>w. attestation_row_to_response (fst w)"
  page_size serve_set_attestations
proof (rule list_endpoint [where env = fst and ttl = TTL_MODEST_SECS and before = "\<lambda>w. attestation_before (fst w)"
      and okd = attestations_ok])
  fix w :: "('k :: linorder) api_env \<times> string" and d r
  assume w: "env_ok (fst w)" and d: "attestations_ok d"
  note fs = attestations_of_set_filter [of d "snd w"]
  show "distinct (map (attestation_key (fst w)) (attestations_of_set (snd w) d))"
    using d attestation_keys [OF w d] by (simp add: fs attestations_ok_def distinct_keys_filter)
  show "\<exists>c. attestation_next (fst w) r = Some c \<and> attestation_before (fst w) (Some c) = Some (attestation_key (fst w) r)"
    if "r \<in> set (attestations_of_set (snd w) d)"
    using that attestation_back [OF w d, of r] d by (simp add: fs attestations_ok_def)
qed (auto simp: serve_set_attestations_def attestations_by_attestor_set_def query_attestations_by_attestor_set_def
    attestation_page_response_def [abs_def] page_size_def Let_def simp flip: attestation_before_def)

section \<open>Rows for the witnesses\<close>

definition sample_attestation :: "string \<Rightarrow> string \<Rightarrow> string \<Rightarrow> attestation_row" where
  "sample_attestation i schema payload =
     \<lparr>at_id = i, at_schema_id = schema, at_payload_hash = payload, at_submitter = ''lig1a'',
      at_submitter_pubkey = None, at_slot = 1, at_tx = ''ltx1a'', at_timestamp = 7, at_signature_count = 1,
      at_indexed_at = 7\<rparr>"

definition open_bounty :: "string \<Rightarrow> string \<Rightarrow> bounty_row" where
  "open_bounty i board =
     \<lparr>bo_id = i, bo_poster = ''lig1p'', bo_board_schema_id = board, bo_pool_nano = ''10'',
      bo_per_attestation_nano = ''1'', bo_escrow_remaining_nano = ''10'', bo_status = ''open'', bo_acceptance = JNull,
      bo_expiry_da_height = 9, bo_dispute_window_blocks = 1, bo_slot = 1, bo_tx = ''ltx1a'', bo_timestamp = 7,
      bo_claim_count = 0, bo_last_claim_at_slot = None\<rparr>"

definition sample_resources :: pool where
  "sample_resources = \<lparr>p_db = empty_db\<lparr>attestations :=
       [sample_attestation ''lat1a'' ''lsc1a'' ''lph1a'', sample_attestation ''lat1b'' ''lsc1b'' ''lph1a''],
     bounties := [open_bounty ''lbt1a'' ''lsc1a'', open_bounty ''lbt1b'' ''lsc1c'']\<rparr>, p_seq = 0\<rparr>"

lemma sample_resources_simps [simp]:
  "attestations (p_db sample_resources) =
     [sample_attestation ''lat1a'' ''lsc1a'' ''lph1a'', sample_attestation ''lat1b'' ''lsc1b'' ''lph1a'']"
  "bounties (p_db sample_resources) = [open_bounty ''lbt1a'' ''lsc1a'', open_bounty ''lbt1b'' ''lsc1c'']"
  "schemas (p_db sample_resources) = []"
  by (simp_all add: sample_resources_def empty_db_def)

lemma sample_attestations_ok [simp]: "attestations_ok (p_db sample_resources)"
  by (simp add: attestations_ok_def sample_attestation_def unique_key_def int8_ok_def i64_max_def)

section \<open>Properties\<close>

text \<open>Following the cursors of the attestation list, for all attestations or for one schema, ends and
  shows every attestation of the store once, newest first and in the order of the collation within a
  slot, also while the indexer adds attestations above.\<close>

lemma attestations_walk_complete:
  fixes E :: "('k :: linorder) api_env"
  assumes "env_ok E" and "\<And>i. reachable E (store i)" and "\<And>i. attestations_ok (p_db (store i))"
    and "stays_below (attestation_key E) (\<lambda>i. attestations_where schema (p_db (store i)))"
    and "length (attestations_where schema (p_db (store 0))) < fuel"
  shows "\<exists>as keys. walk_pages (serve_attestations (E, schema) l) store fuel 0 None = Some as \<and>
    list_all2 (shown (attestation_key E) (attestation_row_to_response E)
      (\<lambda>i. attestations_where schema (p_db (store i)))) as keys \<and>
    sorted_wrt (\<lambda>a b. b < a) keys \<and>
    set keys = attestation_key E ` set (attestations_where schema (p_db (store 0)))"
  using attestation_pages.walk_complete [of "(E, schema)" store fuel l] assms by simp

text \<open>C31. The bounties matched to an address are exactly the open bounties whose board schema the address
  has attested against, each once with the number of those attestations, newest first and by
  identifier within a slot; the response is cut after a hundred.\<close>

theorem bounties_matching_correct:
  fixes E :: "('k :: linorder) api_env"
  assumes "env_ok E" and "reachable E p" and "unique_key bo_id (bounties (p_db p))"
  shows "\<exists>bs. fst (bounties_matching E a p) =
      cached \<lparr>bmr_address = a, bmr_matches = map (\<lambda>b. bounty_match_entry_of (b, my_attestations a b (p_db p))) (take 100 bs)\<rparr> 30 \<and>
    distinct bs \<and>
    set bs = {b \<in> set (bounties (p_db p)). bo_status b = ''open'' \<and>
      (\<exists>x \<in> set (attestations (p_db p)). at_schema_id x = bo_board_schema_id b \<and> at_submitter x = a)} \<and>
    sorted_wrt (\<lambda>b c. bo_slot c < bo_slot b \<or> (bo_slot b = bo_slot c \<and> collate E (bo_id b) < collate E (bo_id c))) bs"
proof -
  let ?d = "p_db p" and ?k = "bounty_match_key E"
  let ?ms = "filter (\<lambda>b. bo_status b = ''open'' \<and> my_attestations a b ?d > 0) (bounties ?d)"
  let ?bs = "sort_key ?k ?ms"
  have "inj_on ?k (set ?ms)"
    using assms(1,3) by (auto simp: inj_on_def bounty_match_key_def env_ok_def unique_key_def distinct_map dest: injD)
  moreover have dm: "distinct ?ms" using assms(3) by (simp add: unique_key_def distinct_map)
  ultimately have "distinct (map ?k ?bs)" by (simp add: distinct_map)
  then have "sorted_wrt (<) (map ?k ?bs)" by (simp add: strict_sorted_iff)
  then have "sorted_wrt (\<lambda>b c. ?k b < ?k c) ?bs" by (simp add: sorted_wrt_map)
  then have "sorted_wrt (\<lambda>b c. bo_slot c < bo_slot b \<or> (bo_slot b = bo_slot c \<and> collate E (bo_id b) < collate E (bo_id c))) ?bs"
    by (rule sorted_wrt_mono_rel [rotated]) (auto simp: bounty_match_key_def less_prod_simp)
  moreover have "fst (bounties_matching E a p) =
      cached \<lparr>bmr_address = a, bmr_matches = map (\<lambda>b. bounty_match_entry_of (b, my_attestations a b ?d)) (take 100 ?bs)\<rparr> 30"
    using assms(2) by (simp add: bounties_matching_def bounties_matching_address_def reachable_def respond_def
        read_op_simps MATCH_LIMIT_def TTL_MODEST_SECS_def take_map comp_def)
  moreover have "distinct ?bs" using dm by simp
  moreover have "set ?bs = {b \<in> set (bounties ?d). bo_status b = ''open'' \<and>
      (\<exists>x \<in> set (attestations ?d). at_schema_id x = bo_board_schema_id b \<and> at_submitter x = a)}"
    by (auto simp: my_attestations_def filter_empty_conv)
  ultimately show ?thesis by blast
qed

theorem bounties_matching_correct_witness:
  "\<exists>bs. fst (bounties_matching sample_env ''lig1a'' sample_resources) =
      cached \<lparr>bmr_address = ''lig1a'', bmr_matches = map (\<lambda>b. bounty_match_entry_of
        (b, my_attestations ''lig1a'' b (p_db sample_resources))) (take 100 bs)\<rparr> 30 \<and>
    distinct bs \<and> set bs = {open_bounty ''lbt1a'' ''lsc1a''}"
proof -
  have "{b \<in> set (bounties (p_db sample_resources)). bo_status b = ''open'' \<and>
      (\<exists>x \<in> set (attestations (p_db sample_resources)). at_schema_id x = bo_board_schema_id b \<and> at_submitter x = ''lig1a'')} =
      {open_bounty ''lbt1a'' ''lsc1a''}"
    by (auto simp: open_bounty_def sample_attestation_def)
  moreover have "unique_key bo_id (bounties (p_db sample_resources))" by (simp add: unique_key_def open_bounty_def)
  ultimately show ?thesis
    using bounties_matching_correct [of sample_env sample_resources "''lig1a''"] by auto
qed

end
