(* ===== verification/Search.thy ===== *)
theory Search
  imports Resource_Handlers
begin

text \<open>
  The search endpoint of \<^verbatim>\<open>crates/api/src/handlers.rs\<close>: a query is a block height, a prefixed
  hash or identifier, or names nothing. The specification \<open>names\<close> says which resources a query stands
  for; the endpoint answers with one of them exactly when there is one.
\<close>

section \<open>The endpoint\<close>

datatype search_response =
    Found_block u64
  | Found_tx string
  | Found_address string
  | Found_schema string
  | Found_attestor_set string
  | Found_attestation string
  | Search_not_found string

text \<open>\<^verbatim>\<open>q.parse::<i64>()\<close>: an optional sign and at least one digit, within range.\<close>

definition parse_i64 :: "string \<Rightarrow> int option" where
  "parse_i64 s =
     (case s of
        [] \<Rightarrow> None
      | c # cs \<Rightarrow>
          (let ds = (if c = CHR ''+'' \<or> c = CHR ''-'' then cs else s);
               sgn = (if c = CHR ''-'' then - 1 else 1)
           in if ds = [] then None
              else case parse_digits 0 ds of
                     None \<Rightarrow> None
                   | Some n \<Rightarrow> if int8_ok (sgn * int n) then Some (sgn * int n) else None))"

definition search_prefix ::
  "('k :: linorder) api_env \<Rightarrow> string \<Rightarrow> pool \<Rightarrow> search_response reply \<times> pool" where
  "search_prefix E q p =
     (let P = ae_pg E; lowered = to_lowercase q; nothing = Reply (Search_not_found q) None;
          hit = (\<lambda>r found. if found then Reply r None else nothing)
      in if starts_with ''lblk1'' lowered then
           respond (slot_height_for_block_hash P lowered p) (\<lambda>r. case r of
             Some h \<Rightarrow> Reply (Found_block (as_u64 h)) None | None \<Rightarrow> nothing)
         else if starts_with ''ltx1'' lowered then
           respond (tx_by_hash P lowered p) (\<lambda>r. hit (Found_tx lowered) (r \<noteq> None))
         else if starts_with ''lig1'' lowered then
           respond (address_exists P lowered p) (hit (Found_address lowered))
         else if starts_with ''lsc1'' lowered then
           respond (schema_exists P lowered p) (hit (Found_schema lowered))
         else if starts_with ''las1'' lowered then
           respond (attestor_set_exists P lowered p) (hit (Found_attestor_set lowered))
         else if starts_with ''lat1'' lowered then
           respond (attestation_id_exists P lowered p) (hit (Found_attestation lowered))
         else if starts_with ''lph1'' lowered then
           respond (attestation_id_by_payload_hash E lowered p) (\<lambda>r. case r of
             Some i \<Rightarrow> Reply (Found_attestation i) None | None \<Rightarrow> nothing)
         else (nothing, p))"

definition search :: "('k :: linorder) api_env \<Rightarrow> string \<Rightarrow> pool \<Rightarrow> search_response reply \<times> pool" where
  "search E q0 p =
     (let q = trim q0 in
      if q = [] then (Error_reply 400 (JObject [(''error'', JString ''q is required'')]), p)
      else case parse_i64 q of
             None \<Rightarrow> search_prefix E q p
           | Some h \<Rightarrow>
               (case slot_by_height (ae_pg E) h p of
                  (Inl _, p') \<Rightarrow> (internal_error, p')
                | (Inr (Some _), p') \<Rightarrow> (Reply (Found_block (as_u64 h)) None, p')
                | (Inr None, p') \<Rightarrow> search_prefix E q p'))"

section \<open>What a query names\<close>

text \<open>
  A height as text: an optional sign and decimal digits, whose value in base ten is within 64 bits. The
  documentation of the endpoint speaks of digits only; the standard library reads a sign as well.
\<close>

definition decimal :: "string \<Rightarrow> nat" where
  "decimal ds = (\<Sum>i < length ds. (of_char (ds ! i) - 48) * 10 ^ (length ds - Suc i))"

definition digits :: "char set" where
  "digits = set ''0123456789''"

definition height_text :: "string \<Rightarrow> int \<Rightarrow> bool" where
  "height_text q k \<longleftrightarrow> - (2 ^ 63) \<le> k \<and> k < 2 ^ 63 \<and>
     (\<exists>ds. ds \<noteq> [] \<and> set ds \<subseteq> digits \<and>
        (q \<in> {ds, ''+'' @ ds} \<and> k = int (decimal ds) \<or> q = ''-'' @ ds \<and> k = - int (decimal ds)))"

text \<open>Of the attestations of one payload the one meant is of the latest slot, and of the first schema in it.\<close>

definition comes_first :: "('k :: linorder) api_env \<Rightarrow> attestation_row \<Rightarrow> attestation_row \<Rightarrow> bool" where
  "comes_first E a b \<longleftrightarrow>
     at_slot b < at_slot a \<or> at_slot b = at_slot a \<and> collate E (at_schema_id a) \<le> collate E (at_schema_id b)"

fun names :: "('k :: linorder) api_env \<Rightarrow> db \<Rightarrow> string \<Rightarrow> search_response \<Rightarrow> bool" where
  "names E d q (Found_block h) \<longleftrightarrow>
     (\<exists>s \<in> set (slots d). h = as_u64 (s_height s) \<and>
        (height_text q (s_height s) \<or> (starts_with ''lblk1'' (to_lowercase q) \<and> s_hash s = to_lowercase q)))"
| "names E d q (Found_tx h) \<longleftrightarrow>
     starts_with ''ltx1'' (to_lowercase q) \<and> h = to_lowercase q \<and> h \<in> t_hash ` set (transactions d)"
| "names E d q (Found_address a) \<longleftrightarrow>
     starts_with ''lig1'' (to_lowercase q) \<and> a = to_lowercase q \<and> a \<in> ad_address ` set (address_summaries d)"
| "names E d q (Found_schema i) \<longleftrightarrow>
     starts_with ''lsc1'' (to_lowercase q) \<and> i = to_lowercase q \<and> i \<in> sc_id ` set (schemas d)"
| "names E d q (Found_attestor_set i) \<longleftrightarrow>
     starts_with ''las1'' (to_lowercase q) \<and> i = to_lowercase q \<and> i \<in> as_id ` set (attestor_sets d)"
| "names E d q (Found_attestation i) \<longleftrightarrow>
     (starts_with ''lat1'' (to_lowercase q) \<and> i = to_lowercase q \<and> i \<in> at_id ` set (attestations d)) \<or>
     (starts_with ''lph1'' (to_lowercase q) \<and>
        (\<exists>a \<in> set (attestations d). at_payload_hash a = to_lowercase q \<and> at_id a = i \<and>
           (\<forall>b \<in> set (attestations d). at_payload_hash b = to_lowercase q \<longrightarrow> comes_first E a b)))"
| "names E d q (Search_not_found _) \<longleftrightarrow> False"

text \<open>The answer to a query: a resource it names, or that it names none.\<close>

definition answers :: "('k :: linorder) api_env \<Rightarrow> db \<Rightarrow> string \<Rightarrow> search_response reply \<Rightarrow> bool" where
  "answers E d q r \<longleftrightarrow>
     (\<exists>x. r = Reply x None \<and> names E d q x) \<or> (r = Reply (Search_not_found q) None \<and> (\<forall>x. \<not> names E d q x))"

text \<open>The reader of heights accepts exactly these texts.\<close>

lemma decimal_Cons: "decimal (c # cs) = (of_char c - 48) * 10 ^ length cs + decimal cs"
  unfolding decimal_def by (simp add: sum.lessThan_Suc_shift del: sum.lessThan_Suc)

lemma digit_val_digits: "digit_val c = (if c \<in> digits then Some (of_char c - 48) else None)"
proof -
  have c: "c = char_of (of_char c :: nat)" by simp
  have "c \<in> digits" if "(48 :: nat) \<le> of_char c" "of_char c \<le> (57 :: nat)"
  proof -
    have "{48 .. 57 :: nat} = {48, 49, 50, 51, 52, 53, 54, 55, 56, 57}" by (simp add: atLeastAtMost_upt)
    with that have "of_char c \<in> {48, 49, 50, 51, 52, 53, 54, 55, 56, 57 :: nat}" using atLeastAtMost_iff by blast
    then have "c \<in> char_of ` {48, 49, 50, 51, 52, 53, 54, 55, 56, 57 :: nat}" using c by (metis imageI)
    then show ?thesis by (simp add: digits_def char_of_def bit_0)
  qed
  moreover have "(48 :: nat) \<le> of_char c \<and> of_char c \<le> (57 :: nat)" if "c \<in> digits"
    using that by (auto simp: digits_def)
  ultimately show ?thesis by (auto simp: digit_val_def Let_def)
qed

lemma parse_digits_decimal:
  "parse_digits acc ds =
     (if set ds \<subseteq> digits then Some (acc * 10 ^ length ds + decimal ds) else None)"
proof (induction ds arbitrary: acc)
  case Nil
  then show ?case by (simp add: decimal_def)
next
  case (Cons c ds)
  then show ?case by (simp add: decimal_Cons digit_val_digits algebra_simps)
qed

lemma parse_i64_height_text: "parse_i64 q = Some k \<longleftrightarrow> height_text q k"
proof (cases q)
  case Nil
  then show ?thesis by (simp add: parse_i64_def height_text_def)
next
  case (Cons c cs)
  have sign: "CHR ''+'' \<notin> digits" "CHR ''-'' \<notin> digits" by (simp_all add: digits_def)
  have num: "parse_digits 0 ds = (if set ds \<subseteq> digits then Some (decimal ds) else None)" for ds
    by (simp add: parse_digits_decimal)
  have range: "int8_ok i \<longleftrightarrow> - (2 ^ 63) \<le> i \<and> i < 2 ^ 63" for i by (auto simp: int8_ok_def i64_max_def)
  consider "c = CHR ''+''" | "c = CHR ''-''" | "c \<noteq> CHR ''+''" "c \<noteq> CHR ''-''" by blast
  then show ?thesis
    by cases (use sign in \<open>auto simp: Cons parse_i64_def height_text_def num range Let_def simp del: parse_digits.simps\<close>)
qed

text \<open>At most one prefix applies.\<close>

definition resource_prefixes :: "string list" where
  "resource_prefixes = [''lblk1'', ''ltx1'', ''lig1'', ''lsc1'', ''las1'', ''lat1'', ''lph1'']"

lemma prefix_unique:
  "a \<in> set resource_prefixes \<Longrightarrow> b \<in> set resource_prefixes \<Longrightarrow> starts_with a s \<Longrightarrow> starts_with b s \<Longrightarrow> a = b"
  unfolding resource_prefixes_def by (auto simp: starts_with_iff)

lemma prefix_other:
  assumes "starts_with a s" and "a \<in> set resource_prefixes" and "b \<in> set resource_prefixes" and "a \<noteq> b"
  shows "\<not> starts_with b s"
  using prefix_unique assms by blast

lemma first_by_payload_None:
  "first_by_payload E h d = None \<longleftrightarrow> (\<forall>a \<in> set (attestations d). at_payload_hash a \<noteq> h)"
proof -
  let ?ys = "sort_key (\<lambda>r. (- at_slot r, collate E (at_schema_id r))) (filter (\<lambda>r. at_payload_hash r = h) (attestations d))"
  have "?ys = [] \<longleftrightarrow> (\<forall>a \<in> set (attestations d). at_payload_hash a \<noteq> h)"
    using set_sort [of "\<lambda>r. (- at_slot r, collate E (at_schema_id r))" "filter (\<lambda>r. at_payload_hash r = h) (attestations d)"]
    by (cases ?ys) auto
  then show ?thesis by (auto simp: first_by_payload_def split: list.splits)
qed

lemma first_by_payload_Some:
  assumes "first_by_payload E h d = Some a"
  shows "a \<in> set (attestations d) \<and> at_payload_hash a = h \<and>
    (\<forall>b \<in> set (attestations d). at_payload_hash b = h \<longrightarrow> comes_first E a b)"
proof -
  let ?key = "\<lambda>r. (- at_slot r, collate E (at_schema_id r))"
  let ?ys = "sort_key ?key (filter (\<lambda>r. at_payload_hash r = h) (attestations d))"
  obtain rest where ys: "?ys = a # rest" using assms by (auto simp: first_by_payload_def split: list.splits)
  then have "set (a # rest) = {r \<in> set (attestations d). at_payload_hash r = h}"
    by (metis set_filter set_sort)
  moreover have "\<forall>b \<in> set rest. ?key a \<le> ?key b"
    using sorted_sort_key [of ?key "filter (\<lambda>r. at_payload_hash r = h) (attestations d)"] unfolding ys by simp
  ultimately show ?thesis by (auto simp: comes_first_def less_eq_prod_def)
qed

lemma names_prefix:
  assumes "names E d q x" and "\<forall>s \<in> set (slots d). \<not> height_text q (s_height s)"
  shows "\<exists>a \<in> set resource_prefixes. starts_with a (to_lowercase q)"
  using assms by (cases x) (auto simp: resource_prefixes_def)

lemma join_hash_None:
  assumes "txs_ok d"
  shows "find_row (\<lambda>j. t_hash (fst j)) h (transactions_join_slots d) = None \<longleftrightarrow> h \<notin> t_hash ` set (transactions d)"
proof -
  have "(\<lambda>j. t_hash (fst j)) ` set (transactions_join_slots d) = t_hash ` set (transactions d)"
    using arg_cong [OF join_map [OF assms, of t_hash], of set] by simp
  then show ?thesis by (simp add: find_row_None)
qed

text \<open>With its prefix fixed, a query names resources of one kind.\<close>

lemma names_by_prefix:
  assumes "\<forall>s \<in> set (slots d). \<not> height_text q (s_height s)"
    and "a \<in> set resource_prefixes" and "starts_with a (to_lowercase q)"
  shows "names E d q x \<longleftrightarrow>
    (case x of
       Found_block h \<Rightarrow> a = ''lblk1'' \<and> (\<exists>s \<in> set (slots d). h = as_u64 (s_height s) \<and> s_hash s = to_lowercase q)
     | Found_tx h \<Rightarrow> a = ''ltx1'' \<and> h = to_lowercase q \<and> h \<in> t_hash ` set (transactions d)
     | Found_address h \<Rightarrow> a = ''lig1'' \<and> h = to_lowercase q \<and> h \<in> ad_address ` set (address_summaries d)
     | Found_schema h \<Rightarrow> a = ''lsc1'' \<and> h = to_lowercase q \<and> h \<in> sc_id ` set (schemas d)
     | Found_attestor_set h \<Rightarrow> a = ''las1'' \<and> h = to_lowercase q \<and> h \<in> as_id ` set (attestor_sets d)
     | Found_attestation h \<Rightarrow> (a = ''lat1'' \<and> h = to_lowercase q \<and> h \<in> at_id ` set (attestations d)) \<or>
         (a = ''lph1'' \<and> (\<exists>r \<in> set (attestations d). at_payload_hash r = to_lowercase q \<and> at_id r = h \<and>
            (\<forall>b \<in> set (attestations d). at_payload_hash b = to_lowercase q \<longrightarrow> comes_first E r b)))
     | Search_not_found _ \<Rightarrow> False)"
proof -
  have "starts_with b (to_lowercase q) \<longleftrightarrow> b = a" if "b \<in> set resource_prefixes" for b
    using assms(2,3) that prefix_unique by blast
  then show ?thesis using assms(1) by (cases x) (auto simp: resource_prefixes_def)
qed

lemma search_prefix_answers:
  assumes "txs_ok (p_db p)" and "\<And>n. \<not> pg_fault (ae_pg E) n"
    and "\<forall>s \<in> set (slots (p_db p)). \<not> height_text q (s_height s)"
  shows "answers E (p_db p) q (fst (search_prefix E q p))"
proof -
  let ?d = "p_db p" and ?l = "to_lowercase q"
  note defs = search_prefix_def Let_def respond_def read_op_simps(1) [OF assms(2)] query_defs answers_def
  consider (none) "\<forall>a \<in> set resource_prefixes. \<not> starts_with a ?l"
    | (some) a where "a \<in> set resource_prefixes" "starts_with a ?l"
    by blast
  then show ?thesis
  proof cases
    case none
    then have "\<not> names E ?d q x" for x using names_prefix assms(3) by blast
    with none show ?thesis by (simp add: defs resource_prefixes_def)
  next
    case some
    have others: "\<And>b. b \<in> set resource_prefixes \<Longrightarrow> starts_with b ?l \<longleftrightarrow> b = a"
      using some prefix_unique by blast
    note named = names_by_prefix [OF assms(3) some]
    from some(1) consider "a = ''lblk1''" | "a = ''ltx1''" | "a = ''lig1''" | "a = ''lsc1''" | "a = ''las1''"
      | "a = ''lat1''" | "a = ''lph1''"
      by (auto simp: resource_prefixes_def)
    then show ?thesis
    proof cases
      case 1
      show ?thesis
      proof (cases "find_row s_hash ?l (slots ?d)")
        case None
        then have "\<forall>s \<in> set (slots ?d). s_hash s \<noteq> ?l" by (metis find_row_None image_eqI)
        with None show ?thesis by (auto simp: defs others named 1 resource_prefixes_def split: search_response.split)
      next
        case (Some s)
        then show ?thesis
          using find_row_SomeD [OF Some] by (auto simp: defs others named 1 resource_prefixes_def)
      qed
    next
      case 2
      show ?thesis
        using join_hash_None [OF assms(1), of ?l]
        by (auto simp: defs others named 2 resource_prefixes_def split: search_response.split)
    next
      case 7
      show ?thesis
      proof (cases "first_by_payload E ?l ?d")
        case None
        with first_by_payload_None [of E ?l ?d] show ?thesis
          by (auto simp: defs others named 7 resource_prefixes_def split: search_response.split)
      next
        case (Some r)
        then show ?thesis
          using first_by_payload_Some [OF Some] by (auto simp: defs others named 7 resource_prefixes_def)
      qed
    qed (auto simp: defs others named resource_prefixes_def split: search_response.split)
  qed
qed

section \<open>Properties\<close>

text \<open>C29. When the database answers, a search with a non-blank query answers with a resource the query names:
  a block by its height (decimal digits with an optional sign, of a value within 64 bits) or its hash, a
  transaction, address, schema, attestor set or attestation by its prefixed identifier, and by a payload hash
  the attestation of the latest slot, the first by schema within it. It answers \<^verbatim>\<open>not_found\<close> exactly
  when the query names nothing; a blank query is refused with 400. The sign goes beyond the documentation,
  which has heights for queries of digits only.\<close>

theorem search_correct:
  assumes "txs_ok (p_db p)" and "\<And>n. \<not> pg_fault (ae_pg E) n"
  shows "if trim q = [] then (\<exists>body. fst (search E q p) = Error_reply 400 body)
    else answers E (p_db p) (trim q) (fst (search E q p))"
proof (cases "trim q = []")
  case True
  then show ?thesis by (simp add: search_def)
next
  case False
  let ?q = "trim q" and ?d = "p_db p"
  show ?thesis
  proof (cases "\<exists>s \<in> set (slots ?d). height_text ?q (s_height s)")
    case True
    then obtain s where s: "s \<in> set (slots ?d)" "height_text ?q (s_height s)" by blast
    then obtain r where "find_row s_height (s_height s) (slots ?d) = Some r"
      using find_row_None [of s_height "s_height s" "slots ?d"] by fastforce
    then have "fst (search E q p) = Reply (Found_block (as_u64 (s_height s))) None"
      using False s parse_i64_height_text [of ?q "s_height s"]
      by (simp add: search_def slot_by_height_def read_op_simps(1) [OF assms(2)])
    with False s show ?thesis by (auto simp: answers_def)
  next
    case none: False
    then have h: "find_row s_height h (slots ?d) = None" if "parse_i64 ?q = Some h" for h
      using that by (auto simp: find_row_None parse_i64_height_text)
    have "answers E ?d ?q (fst (search_prefix E ?q p'))" if "p_db p' = ?d" for p'
      using search_prefix_answers [of p' E ?q] assms none that by auto
    then show ?thesis
      using False h
      by (cases "parse_i64 ?q") (simp_all add: search_def Let_def slot_by_height_def read_op_simps(1) [OF assms(2)])
  qed
qed

theorem search_correct_witness:
  "answers sample_env (p_db sample_pool) ''LTX1B'' (fst (search sample_env '' LTX1B '' sample_pool)) \<and>
   fst (search sample_env ''1'' sample_pool) \<noteq> Reply (Search_not_found ''1'') None"
proof -
  have t: "trim '' LTX1B '' = ''LTX1B''" "trim ''1'' = ''1''" by (simp_all add: trim_def is_space_def)
  have ok: "\<not> pg_fault (ae_pg sample_env) n" for n by (simp add: sample_env_def)
  have "answers sample_env (p_db sample_pool) ''1'' (fst (search sample_env ''1'' sample_pool))"
    using search_correct [of sample_pool sample_env "''1''"] ok t by simp
  moreover have "names sample_env (p_db sample_pool) ''1'' (Found_block (as_u64 1))"
  proof -
    have "height_text ''1'' 1"
      unfolding parse_i64_height_text [symmetric] by (simp add: parse_i64_def digit_val_def int8_ok_def i64_max_def)
    then show ?thesis by (simp add: as_i64_one)
  qed
  ultimately have "fst (search sample_env ''1'' sample_pool) \<noteq> Reply (Search_not_found ''1'') None"
    unfolding answers_def by (metis names.simps(7) Handlers.reply.inject(1))
  then show ?thesis using search_correct [of sample_pool sample_env "'' LTX1B ''"] ok t by simp
qed

end
