(* ===== verification/Config.thy ===== *)
theory Config
  imports Signer
begin

text \<open>
  The configuration read from the environment at startup, \<^verbatim>\<open>crates/api/src/config.rs\<close>, and the
  startup checks of \<^verbatim>\<open>crates/api/src/main.rs\<close>: the budget check with its bounded retry, and
  the redaction of the database URL in log lines. The process environment is a function from names to
  values; hex decoding is the SDK's parameter.
\<close>

section \<open>Configuration\<close>

datatype config_error =
    Missing string
  | Malformed string

record config =
  cf_bind :: string
  cf_database_url :: string
  cf_pg_pool_size :: nat
  cf_chain_rpc :: string
  cf_chain_cluster_auth_token :: "string option"
  cf_chain_id :: u64
  cf_chain_hash :: "u8 list"
  cf_avow_token_id_hex :: string
  cf_drip_signer_key :: string
  cf_drip_amount :: nat
  cf_drip_rate_limit_secs :: nat
  cf_drip_min_budget :: nat
  cf_drip_starting_nonce :: "u64 option"
  cf_indexer_start_height :: "u64 option"
  cf_avow_treasury_addr :: "string option"
  cf_faucet_bot_secret :: "string option"
  cf_bot_drip_rate_limit_secs :: nat
  cf_bot_drip_amount_newcomer :: nat
  cf_bot_drip_amount_regular :: nat
  cf_bot_drip_amount_veteran :: nat
  cf_bot_drip_amount_elder :: nat

definition DEFAULT_BIND :: string where "DEFAULT_BIND = ''0.0.0.0:8080''"
definition DEFAULT_DRIP_AMOUNT :: nat where "DEFAULT_DRIP_AMOUNT = 100000000000"
definition DEFAULT_DRIP_RATE_LIMIT_SECS :: nat where "DEFAULT_DRIP_RATE_LIMIT_SECS = 24 * 60 * 60"
definition DEFAULT_DRIP_MIN_BUDGET :: nat where "DEFAULT_DRIP_MIN_BUDGET = 100"
definition DEFAULT_PG_POOL_SIZE :: nat where "DEFAULT_PG_POOL_SIZE = 10"
definition DEFAULT_BOT_DRIP_RATE_LIMIT_SECS :: nat where "DEFAULT_BOT_DRIP_RATE_LIMIT_SECS = 5 * 24 * 60 * 60"
definition DEFAULT_BOT_DRIP_AMOUNT_NEWCOMER :: nat where "DEFAULT_BOT_DRIP_AMOUNT_NEWCOMER = 100000000000"
definition DEFAULT_BOT_DRIP_AMOUNT_REGULAR :: nat where "DEFAULT_BOT_DRIP_AMOUNT_REGULAR = 250000000000"
definition DEFAULT_BOT_DRIP_AMOUNT_VETERAN :: nat where "DEFAULT_BOT_DRIP_AMOUNT_VETERAN = 500000000000"
definition DEFAULT_BOT_DRIP_AMOUNT_ELDER :: nat where "DEFAULT_BOT_DRIP_AMOUNT_ELDER = 1000000000000"

type_synonym environment = "string \<Rightarrow> string option"

definition require_env :: "environment \<Rightarrow> string \<Rightarrow> (config_error, string) result" where
  "require_env env name = ok_or (Missing name) (env name)"

text \<open>\<^verbatim>\<open>parse_env_u32\<close>, \<^verbatim>\<open>parse_env_u64\<close> and \<^verbatim>\<open>parse_env_u128\<close>, by the bound of the type.\<close>

definition parse_env :: "nat \<Rightarrow> environment \<Rightarrow> string \<Rightarrow> nat \<Rightarrow> (config_error, nat) result" where
  "parse_env bound env name dflt =
     (case env name of None \<Rightarrow> Inr dflt | Some s \<Rightarrow> ok_or (Malformed name) (parse_uint bound s))"

definition parse_env_u32 :: "environment \<Rightarrow> string \<Rightarrow> nat \<Rightarrow> (config_error, nat) result" where
  "parse_env_u32 = parse_env (2 ^ 32)"

definition parse_env_u64 :: "environment \<Rightarrow> string \<Rightarrow> nat \<Rightarrow> (config_error, nat) result" where
  "parse_env_u64 = parse_env (2 ^ 64)"

definition parse_env_u128 :: "environment \<Rightarrow> string \<Rightarrow> nat \<Rightarrow> (config_error, nat) result" where
  "parse_env_u128 = parse_env (2 ^ 128)"

definition parse_env_opt_u64 :: "environment \<Rightarrow> string \<Rightarrow> (config_error, u64 option) result" where
  "parse_env_opt_u64 env name =
     (case env name of None \<Rightarrow> Inr None | Some s \<Rightarrow> ok_or (Malformed name) (map_option Some (parse_u64 s)))"

definition non_empty :: "string option \<Rightarrow> string option" where
  "non_empty v = (case v of Some s \<Rightarrow> if s = [] then None else Some s | None \<Rightarrow> None)"

definition bind_address :: "environment \<Rightarrow> string" where
  "bind_address env =
     (case env ''API_BIND'' of
        Some b \<Rightarrow> b
      | None \<Rightarrow> (case env ''PORT'' of Some p \<Rightarrow> ''0.0.0.0:'' @ p | None \<Rightarrow> DEFAULT_BIND))"

text \<open>
  The chain hash is copied into an array of 32 bytes, which panics on any other length; here that is
  the error \<^term>\<open>Malformed ''CHAIN_HASH''\<close> too.
\<close>

definition chain_hash_from :: "('key, 'addr) sdk \<Rightarrow> string \<Rightarrow> (config_error, u8 list) result" where
  "chain_hash_from S hex =
     (if length hex \<noteq> 64 then Inl (Malformed ''CHAIN_HASH'')
      else case hex_decode S hex of
             Inl _ \<Rightarrow> Inl (Malformed ''CHAIN_HASH'')
           | Inr b \<Rightarrow> if length b = 32 then Inr b else Inl (Malformed ''CHAIN_HASH''))"

definition signer_key_from :: "('key, 'addr) sdk \<Rightarrow> string \<Rightarrow> (config_error, string) result" where
  "signer_key_from S key =
     (if length key \<noteq> 64 then Inl (Malformed ''DRIP_SIGNER_KEY'')
      else case hex_decode S key of Inl _ \<Rightarrow> Inl (Malformed ''DRIP_SIGNER_KEY'') | Inr _ \<Rightarrow> Inr key)"

definition from_env :: "('key, 'addr) sdk \<Rightarrow> environment \<Rightarrow> (config_error, config) result" where
  "from_env S env =
     bind_result (require_env env ''DATABASE_URL'') (\<lambda>database_url.
     bind_result (parse_env_u32 env ''PG_POOL_SIZE'' DEFAULT_PG_POOL_SIZE) (\<lambda>pg_pool_size.
     bind_result (require_env env ''CHAIN_ID'') (\<lambda>chain_id_text.
     bind_result (ok_or (Malformed ''CHAIN_ID'') (parse_u64 chain_id_text)) (\<lambda>chain_id.
     bind_result (require_env env ''CHAIN_HASH'') (\<lambda>chain_hash_hex.
     bind_result (chain_hash_from S chain_hash_hex) (\<lambda>chain_hash.
     bind_result (require_env env ''AVOW_TOKEN_ID'') (\<lambda>avow_token_id_hex.
     bind_result (require_env env ''DRIP_SIGNER_KEY'') (\<lambda>key_text.
     bind_result (signer_key_from S key_text) (\<lambda>drip_signer_key.
     bind_result (parse_env_u128 env ''DRIP_AMOUNT'' DEFAULT_DRIP_AMOUNT) (\<lambda>drip_amount.
     bind_result (parse_env_u64 env ''DRIP_RATE_LIMIT_SECS'' DEFAULT_DRIP_RATE_LIMIT_SECS) (\<lambda>rate_limit.
     bind_result (parse_env_u64 env ''DRIP_MIN_BUDGET'' DEFAULT_DRIP_MIN_BUDGET) (\<lambda>min_budget.
     bind_result (parse_env_opt_u64 env ''DRIP_STARTING_NONCE'') (\<lambda>starting_nonce.
     bind_result (parse_env_opt_u64 env ''INDEXER_START_HEIGHT'') (\<lambda>start_height.
     bind_result (parse_env_u64 env ''BOT_DRIP_RATE_LIMIT_SECS'' DEFAULT_BOT_DRIP_RATE_LIMIT_SECS) (\<lambda>bot_limit.
     bind_result (parse_env_u128 env ''BOT_DRIP_AMOUNT_NEWCOMER'' DEFAULT_BOT_DRIP_AMOUNT_NEWCOMER) (\<lambda>newcomer.
     bind_result (parse_env_u128 env ''BOT_DRIP_AMOUNT_REGULAR'' DEFAULT_BOT_DRIP_AMOUNT_REGULAR) (\<lambda>regular.
     bind_result (parse_env_u128 env ''BOT_DRIP_AMOUNT_VETERAN'' DEFAULT_BOT_DRIP_AMOUNT_VETERAN) (\<lambda>veteran.
     bind_result (parse_env_u128 env ''BOT_DRIP_AMOUNT_ELDER'' DEFAULT_BOT_DRIP_AMOUNT_ELDER) (\<lambda>elder.
     Inr \<lparr>cf_bind = bind_address env, cf_database_url = database_url, cf_pg_pool_size = pg_pool_size,
       cf_chain_rpc = (case env ''CHAIN_RPC'' of Some u \<Rightarrow> u | None \<Rightarrow> ''http://127.0.0.1:12346''),
       cf_chain_cluster_auth_token = non_empty (env ''CHAIN_CLUSTER_AUTH_TOKEN''),
       cf_chain_id = chain_id, cf_chain_hash = chain_hash, cf_avow_token_id_hex = avow_token_id_hex,
       cf_drip_signer_key = drip_signer_key, cf_drip_amount = drip_amount,
       cf_drip_rate_limit_secs = rate_limit, cf_drip_min_budget = min_budget,
       cf_drip_starting_nonce = starting_nonce, cf_indexer_start_height = start_height,
       cf_avow_treasury_addr = env ''AVOW_TREASURY_ADDR'',
       cf_faucet_bot_secret = non_empty (env ''FAUCET_BOT_SECRET''),
       cf_bot_drip_rate_limit_secs = bot_limit, cf_bot_drip_amount_newcomer = newcomer,
       cf_bot_drip_amount_regular = regular, cf_bot_drip_amount_veteran = veteran,
       cf_bot_drip_amount_elder = elder\<rparr>)))))))))))))))))))"

section \<open>Startup\<close>

text \<open>
  The balance query is tried a bounded number of times; \<open>query n\<close> is the outcome of attempt \<open>n\<close>. Every
  failed attempt sleeps, the last one too; the sleeps are counted.
\<close>

fun query_balance_loop :: "(nat \<Rightarrow> (string, nat) result) \<Rightarrow> nat \<Rightarrow> nat \<Rightarrow> string option \<Rightarrow> nat \<Rightarrow>
    (string, nat) result \<times> nat" where
  "query_balance_loop query 0 attempt last_err sleeps =
     (Inl (case last_err of Some e \<Rightarrow> e | None \<Rightarrow> ''balance query failed with no error captured''), sleeps)"
| "query_balance_loop query (Suc k) attempt last_err sleeps =
     (case query attempt of
        Inr b \<Rightarrow> (Inr b, sleeps)
      | Inl e \<Rightarrow> query_balance_loop query k (Suc attempt) (Some e) (Suc sleeps))"

definition query_balance_with_retry :: "(nat \<Rightarrow> (string, nat) result) \<Rightarrow> nat \<Rightarrow> (string, nat) result \<times> nat" where
  "query_balance_with_retry query max_attempts = query_balance_loop query max_attempts 0 None 0"

datatype boot_outcome =
    Boot_ok
  | Boot_refused string
  | Boot_panic string

text \<open>
  The budget is a \<^verbatim>\<open>u128\<close> quotient, cut to its low 64 bits before the comparison; division
  by a zero amount panics.
\<close>

definition budget_check :: "config \<Rightarrow> (nat \<Rightarrow> (string, nat) result) \<Rightarrow> boot_outcome" where
  "budget_check c query =
     (if cf_drip_min_budget c > 0 then
        (case fst (query_balance_with_retry query 5) of
           Inl e \<Rightarrow> Boot_refused ''drip-budget check failed''
         | Inr balance \<Rightarrow>
             if cf_drip_amount c = 0 then Boot_panic ''attempt to divide by zero''
             else if (balance div cf_drip_amount c) mod 2 ^ 64 < cf_drip_min_budget c
               then Boot_refused ''drip signer balance covers too few drips''
             else Boot_ok)
      else Boot_ok)"

text \<open>\<^verbatim>\<open>redact_pg_url\<close> cuts at the first \<^verbatim>\<open>@\<close> of the URL.\<close>

fun find_sub :: "string \<Rightarrow> string \<Rightarrow> nat option" where
  "find_sub pat [] = (if pat = [] then Some 0 else None)"
| "find_sub pat (c # cs) = (if starts_with pat (c # cs) then Some 0 else map_option Suc (find_sub pat cs))"

definition redact_pg_url :: "string \<Rightarrow> string" where
  "redact_pg_url url =
     (case find_sub ''@'' url of
        None \<Rightarrow> url
      | Some at \<Rightarrow>
          (case find_sub ''://'' url of
             None \<Rightarrow> url
           | Some scheme_end \<Rightarrow> take scheme_end url @ ''://[redacted]@'' @ drop (at + 1) url))"

section \<open>Lemmas\<close>

lemma parse_env_bound: "parse_env b env name d = Inr n \<Longrightarrow> d < b \<Longrightarrow> n < b"
  by (auto simp: parse_env_def split: option.splits dest: parse_uint_bound)

lemma default_bounds:
  "DEFAULT_PG_POOL_SIZE < 2 ^ 32"
  "DEFAULT_DRIP_RATE_LIMIT_SECS < 2 ^ 64"
  "DEFAULT_DRIP_MIN_BUDGET < 2 ^ 64"
  "DEFAULT_BOT_DRIP_RATE_LIMIT_SECS < 2 ^ 64"
  "DEFAULT_DRIP_AMOUNT < 2 ^ 128"
  "DEFAULT_BOT_DRIP_AMOUNT_NEWCOMER < 2 ^ 128"
  "DEFAULT_BOT_DRIP_AMOUNT_REGULAR < 2 ^ 128"
  "DEFAULT_BOT_DRIP_AMOUNT_VETERAN < 2 ^ 128"
  "DEFAULT_BOT_DRIP_AMOUNT_ELDER < 2 ^ 128"
  by (simp_all add: DEFAULT_PG_POOL_SIZE_def DEFAULT_DRIP_AMOUNT_def DEFAULT_DRIP_RATE_LIMIT_SECS_def
    DEFAULT_DRIP_MIN_BUDGET_def DEFAULT_BOT_DRIP_RATE_LIMIT_SECS_def DEFAULT_BOT_DRIP_AMOUNT_NEWCOMER_def
    DEFAULT_BOT_DRIP_AMOUNT_REGULAR_def DEFAULT_BOT_DRIP_AMOUNT_VETERAN_def DEFAULT_BOT_DRIP_AMOUNT_ELDER_def)

lemmas env_bounds =
  parse_env_bound [of "2 ^ 32", folded parse_env_u32_def, OF _ default_bounds(1)]
  default_bounds(2-4) [THEN parse_env_bound [of "2 ^ 64", folded parse_env_u64_def, rotated]]
  default_bounds(5-9) [THEN parse_env_bound [of "2 ^ 128", folded parse_env_u128_def, rotated]]

lemma query_balance_loop_tries:
  assumes "i < k" and "query (a + i) = Inr b" and "\<And>j. j < i \<Longrightarrow> \<exists>e. query (a + j) = Inl e"
  shows "query_balance_loop query k a le s = (Inr b, s + i)"
  using assms
proof (induction k arbitrary: i a le s)
  case (Suc k)
  show ?case
  proof (cases i)
    case 0
    then show ?thesis using Suc.prems by simp
  next
    case (Suc i')
    obtain e where e: "query a = Inl e" using Suc.prems(3) [of 0] Suc by auto
    have "query_balance_loop query k (Suc a) (Some e) (Suc s) = (Inr b, Suc s + i')"
    proof (rule Suc.IH)
      show "i' < k" "query (Suc a + i') = Inr b" using Suc.prems(1,2) Suc by simp_all
      show "\<exists>e. query (Suc a + j) = Inl e" if "j < i'" for j
        using Suc.prems(3) [of "Suc j"] that Suc by simp
    qed
    then show ?thesis by (simp add: e Suc)
  qed
qed simp

lemma query_balance_loop_fails:
  assumes "\<And>j. j < k \<Longrightarrow> \<exists>e. query (a + j) = Inl e"
  shows "\<exists>e. query_balance_loop query k a le s = (Inl e, s + k)"
  using assms
proof (induction k arbitrary: a le s)
  case (Suc k)
  obtain e where e: "query a = Inl e" using Suc.prems [of 0] by auto
  have "\<exists>e'. query_balance_loop query k (Suc a) (Some e) (Suc s) = (Inl e', Suc s + k)"
    by (rule Suc.IH) (use Suc.prems [of "Suc _"] in auto)
  then show ?case by (simp add: e)
qed simp

lemma query_balance_with_retry_Inr:
  assumes "fst (query_balance_with_retry query n) = Inr b"
  shows "\<exists>i < n. query i = Inr b \<and> (\<forall>j < i. \<exists>e. query j = Inl e)"
proof (cases "\<exists>i < n. \<exists>b. query i = Inr b")
  case True
  define i where "i = (LEAST i. \<exists>b. query i = Inr b)"
  obtain k b' where k: "k < n" "query k = Inr b'" using True by blast
  have i: "\<exists>b. query i = Inr b" "i \<le> k"
    unfolding i_def using k by (auto intro: LeastI Least_le)
  have before: "\<exists>e. query j = Inl e" if "j < i" for j
    using not_less_Least [of j "\<lambda>i. \<exists>b. query i = Inr b"] that by (cases "query j") (auto simp: i_def)
  obtain b'' where b'': "query i = Inr b''" using i by blast
  have "query_balance_with_retry query n = (Inr b'', 0 + i)"
    unfolding query_balance_with_retry_def by (rule query_balance_loop_tries) (use i k b'' before in auto)
  then show ?thesis using assms b'' before i k by (intro exI [of _ i]) simp
next
  case False
  then have "\<exists>e. query (0 + j) = Inl e" if "j < n" for j using that by (cases "query j") auto
  then show ?thesis
    using query_balance_loop_fails [of n query 0 None 0] assms by (auto simp: query_balance_with_retry_def)
qed

lemma find_sub_char: "c \<notin> set xs \<Longrightarrow> find_sub [c] (xs @ c # ys) = Some (length xs)"
  by (induction xs) (auto simp: starts_with_def)

lemma find_sub_scheme:
  "CHR '':'' \<notin> set xs \<Longrightarrow> find_sub ''://'' (xs @ ''://'' @ ys) = Some (length xs)"
  by (induction xs) (auto simp: starts_with_def)

section \<open>Properties\<close>

text \<open>C40. A configuration that loads is well formed: the chain hash has 32 bytes, the signing key is 64
  characters of valid hex, no secret or token is the empty string, and every number is within the
  range of its type.\<close>

theorem from_env_well_formed:
  assumes "from_env S env = Inr c"
  shows "length (cf_chain_hash c) = 32 \<and> length (cf_drip_signer_key c) = 64 \<and>
    (\<exists>b. hex_decode S (cf_drip_signer_key c) = Inr b) \<and>
    cf_faucet_bot_secret c \<noteq> Some [] \<and> cf_chain_cluster_auth_token c \<noteq> Some [] \<and>
    env ''CHAIN_ID'' \<noteq> None \<and> parse_u64 (the (env ''CHAIN_ID'')) = Some (cf_chain_id c) \<and>
    cf_pg_pool_size c < 2 ^ 32 \<and> cf_drip_amount c < 2 ^ 128 \<and> cf_drip_rate_limit_secs c < 2 ^ 64 \<and>
    cf_drip_min_budget c < 2 ^ 64 \<and> cf_bot_drip_rate_limit_secs c < 2 ^ 64 \<and>
    cf_bot_drip_amount_newcomer c < 2 ^ 128 \<and> cf_bot_drip_amount_regular c < 2 ^ 128 \<and>
    cf_bot_drip_amount_veteran c < 2 ^ 128 \<and> cf_bot_drip_amount_elder c < 2 ^ 128"
proof -
  have "non_empty v \<noteq> Some []" for v by (simp add: non_empty_def split: option.split)
  then show ?thesis
    using assms
    by (auto simp: from_env_def bind_result_Inr_iff require_env_def chain_hash_from_def signer_key_from_def
        simp del: power_numeral split: if_splits sum.splits dest!: env_bounds)
qed

definition plain_sdk :: "(unit, string) sdk" where
  "plain_sdk =
     \<lparr>hex_decode = (\<lambda>s. Inr (replicate (length s div 2) 0)), key_try_from = (\<lambda>b. Inr ()),
      addr_from_str = Inr, addr_of_key = (\<lambda>_. ''lig1f''), sign_and_encode = (\<lambda>k h u. Inr []),
      submit_raw_tx = (\<lambda>b. Inr ''ltx1''), get_nonce_for_key = (\<lambda>k. Inr 7)\<rparr>"

definition sample_environment :: environment where
  "sample_environment = map_of [(''DATABASE_URL'', ''postgres://u:p@h/d''), (''CHAIN_ID'', ''4242''),
     (''CHAIN_HASH'', replicate 64 (CHR ''a'')), (''AVOW_TOKEN_ID'', replicate 64 (CHR ''b'')),
     (''DRIP_SIGNER_KEY'', replicate 64 (CHR ''c'')), (''FAUCET_BOT_SECRET'', [])]"

theorem from_env_well_formed_witness:
  "\<exists>c. from_env plain_sdk sample_environment = Inr c \<and> length (cf_chain_hash c) = 32 \<and>
     cf_faucet_bot_secret c \<noteq> Some [] \<and> parse_u64 ''4242'' = Some (cf_chain_id c)"
proof -
  have id: "parse_u64 ''4242'' = Some 4242"
    by (simp add: parse_u64_def parse_uint_def digit_val_def)
  have len: "length (replicate 64 c) = 64" for c :: char by simp
  obtain c where c: "from_env plain_sdk sample_environment = Inr c"
    by (simp add: from_env_def require_env_def sample_environment_def chain_hash_from_def signer_key_from_def
        parse_env_u32_def parse_env_u64_def parse_env_u128_def parse_env_opt_u64_def parse_env_def plain_sdk_def
        id len)
  then show ?thesis
    using from_env_well_formed [OF c] by (simp add: sample_environment_def)
qed

text \<open>The startup budget check is sound: when it lets the service start with a required budget, one of the
  first five balance queries answered, after failures only, and the balance it reported pays for the
  required number of drips. The cut of the quotient to 64 bits can only refuse.\<close>

lemma budget_check_sound:
  assumes "budget_check c query = Boot_ok" and "0 < cf_drip_min_budget c"
  shows "\<exists>i < 5. \<exists>b. query i = Inr b \<and> (\<forall>j < i. \<exists>e. query j = Inl e) \<and> 0 < cf_drip_amount c \<and>
    cf_drip_min_budget c * cf_drip_amount c \<le> b"
proof -
  obtain b where b: "fst (query_balance_with_retry query 5) = Inr b"
    using assms by (auto simp: budget_check_def split: sum.splits)
  then obtain i where i: "i < 5" "query i = Inr b" "\<forall>j < i. \<exists>e. query j = Inl e"
    using query_balance_with_retry_Inr [OF b] by blast
  have a: "0 < cf_drip_amount c" and q: "cf_drip_min_budget c \<le> (b div cf_drip_amount c) mod 2 ^ 64"
    using assms b by (auto simp: budget_check_def split: if_splits)
  have "cf_drip_min_budget c \<le> b div cf_drip_amount c"
    using q mod_less_eq_dividend order_trans by blast
  then have "cf_drip_min_budget c * cf_drip_amount c \<le> b div cf_drip_amount c * cf_drip_amount c"
    by (rule mult_le_mono1)
  also have "\<dots> \<le> b" by simp
  finally show ?thesis using i a by blast
qed

definition sample_config :: config where
  "sample_config =
     \<lparr>cf_bind = DEFAULT_BIND, cf_database_url = ''postgres://u:p@h/d'', cf_pg_pool_size = 10, cf_chain_rpc = ''http://n'',
      cf_chain_cluster_auth_token = None, cf_chain_id = 4242, cf_chain_hash = replicate 32 0,
      cf_avow_token_id_hex = ''00'', cf_drip_signer_key = ''00'', cf_drip_amount = 100,
      cf_drip_rate_limit_secs = 10, cf_drip_min_budget = 3, cf_drip_starting_nonce = None,
      cf_indexer_start_height = None, cf_avow_treasury_addr = None, cf_faucet_bot_secret = Some ''s'',
      cf_bot_drip_rate_limit_secs = 10, cf_bot_drip_amount_newcomer = 100, cf_bot_drip_amount_regular = 250,
      cf_bot_drip_amount_veteran = 500, cf_bot_drip_amount_elder = 1000\<rparr>"

text \<open>The redaction of the database URL replaces what stands between the scheme and the first
  \<^verbatim>\<open>@\<close>, and keeps everything after it: a password that contains an \<^verbatim>\<open>@\<close> is
  logged from that character on.\<close>

lemma redact_cuts_at_first_at:
  assumes "CHR ''@'' \<notin> set scheme" and "CHR '':'' \<notin> set scheme" and "CHR ''@'' \<notin> set credentials"
  shows "redact_pg_url (scheme @ ''://'' @ credentials @ ''@'' @ rest) = scheme @ ''://[redacted]@'' @ rest"
proof -
  let ?x = "scheme @ ''://'' @ credentials" and ?u = "scheme @ ''://'' @ credentials @ ''@'' @ rest"
  have "find_sub ''@'' (?x @ CHR ''@'' # rest) = Some (length ?x)"
    by (rule find_sub_char) (use assms in auto)
  then have at: "find_sub ''@'' ?u = Some (length ?x)" by simp
  have scheme: "find_sub ''://'' ?u = Some (length scheme)" by (rule find_sub_scheme [OF assms(2)])
  have "drop (length ?x + 1) (?x @ CHR ''@'' # rest) = rest" by (subst drop_append) simp
  then have "drop (length ?x + 1) ?u = rest" by simp
  then show ?thesis unfolding redact_pg_url_def at scheme option.case by simp
qed

text \<open>The other outcomes of the check: a zero amount panics, and a balance of exactly \<open>2 ^ 64\<close> drips is refused.\<close>

lemma budget_check_panics:
  "cf_drip_amount c = 0 \<Longrightarrow> 0 < cf_drip_min_budget c \<Longrightarrow> query 0 = Inr b \<Longrightarrow>
   budget_check c query = Boot_panic ''attempt to divide by zero''"
  using query_balance_loop_tries [of 0 5 query 0 b None 0]
  by (simp add: budget_check_def query_balance_with_retry_def)

lemma budget_check_truncates:
  "0 < cf_drip_amount c \<Longrightarrow> 0 < cf_drip_min_budget c \<Longrightarrow> query 0 = Inr (2 ^ 64 * cf_drip_amount c) \<Longrightarrow>
   budget_check c query = Boot_refused ''drip signer balance covers too few drips''"
  using query_balance_loop_tries [of 0 5 query 0 "2 ^ 64 * cf_drip_amount c" None 0]
  by (simp add: budget_check_def query_balance_with_retry_def)

end
