(* ===== verification/Bot_Drip.thy ===== *)
theory Bot_Drip
  imports Faucet Config Pagination Store
begin

unbundle bit_operations_syntax

text \<open>
  The Discord faucet, \<^verbatim>\<open>crates/api/src/bot_drip.rs\<close>: a request with the shared secret, a tier
  and an amount is checked against two cooldowns kept in the \<^verbatim>\<open>bot_drips\<close> table, one per
  address and one per Discord user, then paid by the same signer as the web faucet and recorded. Both
  cooldowns are shown to be cooldown gates. The clock of the service is read by position within a
  call (\<open>utc\<close>); the clock of the database is the environment's.

  The cooldown is bound as a double; it is exact for windows below \<open>2 ^ 53\<close> seconds and taken as
  exact here; the end of the next cooldown is computed with the cast to \<^verbatim>\<open>i64\<close>, and the
  panic of chrono on intervals beyond its range is left out. The floating-point convenience field of the response is left out.
\<close>

section \<open>Requests\<close>

datatype tier = Newcomer | Regular | Veteran | Elder

fun tier_as_str :: "tier \<Rightarrow> string" where
  "tier_as_str Newcomer = ''newcomer''"
| "tier_as_str Regular = ''regular''"
| "tier_as_str Veteran = ''veteran''"
| "tier_as_str Elder = ''elder''"

record tier_evidence =
  te_joined_at :: "time option"
  te_account_created_at :: "time option"

record drip_bot_request =
  bq_address :: string
  bq_discord_user_id :: string
  bq_tier :: tier
  bq_amount_nano :: nat
  bq_tier_evidence :: "tier_evidence option"

record drip_bot_response =
  br_address :: string
  br_discord_user_id :: string
  br_tx_hash :: string
  br_amount_nano :: nat
  br_tier :: tier
  br_next_drip_available_at :: time

record bot_error_response =
  be_status :: nat
  be_error :: string
  be_retry_after_secs :: "int option"

definition bot_error :: "nat \<Rightarrow> string \<Rightarrow> bot_error_response" where
  "bot_error status msg = \<lparr>be_status = status, be_error = msg, be_retry_after_secs = None\<rparr>"

section \<open>Comparison of the secret\<close>

definition as_bytes :: "string \<Rightarrow> u8 list" where
  "as_bytes s = map (\<lambda>c. of_nat (of_char c)) s"

definition constant_time_eq :: "u8 list \<Rightarrow> u8 list \<Rightarrow> bool" where
  "constant_time_eq a b =
     (if length a \<noteq> length b then False
      else fold (\<lambda>(x, y) diff. diff OR (x XOR y)) (zip a b) 0 = 0)"

section \<open>Cooldowns\<close>

definition micros :: "nat \<Rightarrow> int" where
  "micros secs = int secs * 1000000"

definition last_drip_within_window :: "pg \<Rightarrow> string \<Rightarrow> string \<Rightarrow> nat \<Rightarrow> time option op" where
  "last_drip_within_window P column val window_secs =
     (let q = (\<lambda>col. exec P (\<lambda>t d. Inr (d,
            case desc bd_dripped_at
                   (filter (\<lambda>r. col r = val \<and> bd_dripped_at r > t - micros window_secs) (bot_drips d)) of
              [] \<Rightarrow> None | r # _ \<Rightarrow> Some (bd_dripped_at r))))
      in if column = ''address'' then q bd_address
         else if column = ''discord_user_id'' then q bd_discord_user_id
         else op_ok None)"

definition expected_amount :: "config \<Rightarrow> tier \<Rightarrow> nat" where
  "expected_amount c t =
     (case t of
        Newcomer \<Rightarrow> cf_bot_drip_amount_newcomer c
      | Regular \<Rightarrow> cf_bot_drip_amount_regular c
      | Veteran \<Rightarrow> cf_bot_drip_amount_veteran c
      | Elder \<Rightarrow> cf_bot_drip_amount_elder c)"

text \<open>\<^verbatim>\<open>(Utc::now() - last).num_seconds().max(0)\<close> subtracted from the window.\<close>

definition bot_retry_after :: "config \<Rightarrow> time \<Rightarrow> time \<Rightarrow> nat" where
  "bot_retry_after c now latest = cf_bot_drip_rate_limit_secs c - nat (max 0 ((now - latest) div 1000000))"

definition cooldown_check ::
  "pg \<Rightarrow> config \<Rightarrow> time \<Rightarrow> string \<Rightarrow> string \<Rightarrow> string \<Rightarrow> pool \<Rightarrow> (bot_error_response, unit) result \<times> pool" where
  "cooldown_check P c now column val label p =
     (case last_drip_within_window P column val (cf_bot_drip_rate_limit_secs c) p of
        (Inr (Some latest), p') \<Rightarrow>
          (let r = bot_retry_after c now latest
           in (Inl \<lparr>be_status = 429, be_error = label @ '' rate-limited; retry in '' @ show_nat r @ '' seconds'',
                    be_retry_after_secs = Some (as_i64 (of_nat r))\<rparr>, p'))
      | (Inr None, p') \<Rightarrow> (Inr (), p')
      | (Inl _, p') \<Rightarrow> (Inl (bot_error 500 ''internal error during cooldown check''), p'))"

section \<open>The handler\<close>

definition map_bot_signer_error :: "signer_error \<Rightarrow> bot_error_response" where
  "map_bot_signer_error e =
     (case e of
        InvalidAddress msg \<Rightarrow> bot_error 400 msg
      | InvalidSignerKey msg \<Rightarrow> bot_error 500 (''operator misconfig: '' @ msg)
      | SubmitFailed msg \<Rightarrow> bot_error 502 (''chain submission failed: '' @ msg))"

text \<open>\<^verbatim>\<open>num_days() as i32\<close>: truncation towards zero, then the low 32 bits.\<close>

definition days_i32 :: "int \<Rightarrow> int" where
  "days_i32 d = signed_take_bit 31 (sgn d * (\<bar>d\<bar> div 86400000000))"

definition new_bot_drip_row :: "drip_bot_request \<Rightarrow> string \<Rightarrow> (nat \<Rightarrow> time) \<Rightarrow> time \<Rightarrow> bot_drip_row" where
  "new_bot_drip_row req tx_hash utc t =
     \<lparr>bd_address = bq_address req, bd_discord_user_id = bq_discord_user_id req,
      bd_amount_nano = bq_amount_nano req, bd_tx_hash = tx_hash, bd_tier = tier_as_str (bq_tier req),
      bd_server_tenure_days = map_option (\<lambda>j. days_i32 (utc 2 - j)) (Option.bind (bq_tier_evidence req) te_joined_at),
      bd_account_age_days = map_option (\<lambda>j. days_i32 (utc 3 - j)) (Option.bind (bq_tier_evidence req) te_account_created_at),
      bd_dripped_at = t\<rparr>"

definition insert_bot_drip :: "pg \<Rightarrow> drip_bot_request \<Rightarrow> string \<Rightarrow> (nat \<Rightarrow> time) \<Rightarrow> unit op" where
  "insert_bot_drip P req tx_hash utc =
     exec P (\<lambda>t d. Inr (d\<lparr>bot_drips := bot_drips d @ [new_bot_drip_row req tx_hash utc t]\<rparr>, ()))"

text \<open>The last part, after the checks: sign, submit, record; a failed record is only logged.\<close>

definition pay_bot ::
  "('key, 'addr) sdk \<Rightarrow> pg \<Rightarrow> config \<Rightarrow> (nat \<Rightarrow> time) \<Rightarrow> drip_bot_request \<Rightarrow> pool \<times> 'key signer \<Rightarrow>
   (bot_error_response, drip_bot_response) result \<times> pool \<times> 'key signer" where
  "pay_bot S P c utc req st =
     (case signer_drip S (bq_address req) (bq_amount_nano req) (snd st) of
        (Inl e, sg') \<Rightarrow> (Inl (map_bot_signer_error e), fst st, sg')
      | (Inr rc, sg') \<Rightarrow>
          (Inr \<lparr>br_address = bq_address req, br_discord_user_id = bq_discord_user_id req,
                br_tx_hash = rc_tx_hash rc, br_amount_nano = rc_amount_nano rc, br_tier = bq_tier req,
                br_next_drip_available_at = utc 4 + as_i64 (of_nat (cf_bot_drip_rate_limit_secs c)) * 1000000\<rparr>,
           snd (insert_bot_drip P req (rc_tx_hash rc) utc (fst st)), sg'))"

definition drip_bot ::
  "('key, 'addr) sdk \<Rightarrow> pg \<Rightarrow> config \<Rightarrow> (nat \<Rightarrow> time) \<Rightarrow> string option \<Rightarrow> drip_bot_request \<Rightarrow>
   pool \<times> 'key signer \<Rightarrow> (bot_error_response, drip_bot_response) result \<times> pool \<times> 'key signer" where
  "drip_bot S P c utc secret_header req st =
     (case cf_faucet_bot_secret c of
        None \<Rightarrow> (Inl (bot_error 503 ''bot endpoint disabled (FAUCET_BOT_SECRET unset)''), st)
      | Some configured \<Rightarrow>
          (let provided = (case secret_header of Some h \<Rightarrow> h | None \<Rightarrow> []);
               expected = expected_amount c (bq_tier req)
           in if \<not> constant_time_eq (as_bytes provided) (as_bytes configured)
                then (Inl (bot_error 401 ''unauthorized''), st)
              else if bq_amount_nano req \<noteq> expected
                then (Inl (bot_error 400 (''amount '' @ show_nat (bq_amount_nano req) @ '' doesn'' @ CHR 0x27 # ''t match tier '' @
                        CHR 0x27 # tier_as_str (bq_tier req) @ CHR 0x27 # '' configured amount '' @ show_nat expected)), st)
              else
                (case cooldown_check P c (utc 0) ''address'' (bq_address req) ''address'' (fst st) of
                   (Inl e, p1) \<Rightarrow> (Inl e, p1, snd st)
                 | (Inr _, p1) \<Rightarrow>
                     (case cooldown_check P c (utc 1) ''discord_user_id'' (bq_discord_user_id req) ''Discord user'' p1 of
                        (Inl e, p2) \<Rightarrow> (Inl e, p2, snd st)
                      | (Inr _, p2) \<Rightarrow> pay_bot S P c utc req (p2, snd st)))))"

section \<open>The comparison is equality\<close>

lemma fold_diff_zero:
  "fold (\<lambda>(x, y) diff. diff OR (x XOR y)) xys d = (0 :: u8) \<longleftrightarrow> d = 0 \<and> (\<forall>(x, y) \<in> set xys. x = y)"
proof (induction xys arbitrary: d)
  case (Cons xy xys)
  have "d OR (x XOR y) = 0 \<longleftrightarrow> d = 0 \<and> x = y" for x y :: u8
  proof -
    have "x XOR y = 0 \<longleftrightarrow> x = y" by (metis xor.assoc xor.left_neutral xor.right_neutral xor_self_eq)
    then show ?thesis by (simp add: or_eq_0_iff)
  qed
  with Cons show ?case by (auto split: prod.splits)
qed simp

lemma zip_all_eq: "length a = length b \<Longrightarrow> (\<forall>(x, y) \<in> set (zip a b). x = y) \<longleftrightarrow> a = b"
  by (induction rule: list_induct2) auto

lemma constant_time_eq_iff: "constant_time_eq a b \<longleftrightarrow> a = b"
proof (cases "length a = length b")
  case True
  then show ?thesis by (simp only: constant_time_eq_def fold_diff_zero zip_all_eq) simp
qed (auto simp: constant_time_eq_def)

lemma as_bytes_inj: "as_bytes a = as_bytes b \<longleftrightarrow> a = b"
proof -
  have "map (\<lambda>x. char_of (unat x)) (as_bytes s) = s" for s
  proof -
    have "unat (of_nat (of_char c) :: u8) = of_char c" for c :: char
    proof -
      have "(of_char c :: nat) < 256" by simp
      then show ?thesis by (simp add: unat_of_nat take_bit_nat_eq_self)
    qed
    then show ?thesis by (simp add: as_bytes_def comp_def)
  qed
  then show ?thesis by metis
qed

section \<open>The two cooldown gates\<close>

text \<open>
  A gate is the recorded drips with the window in microseconds. It lets a key pass at an instant when
  no drip of that key is younger than the window, which is what the query finds out.
\<close>

type_synonym gate = "bot_drip_row list \<times> nat"

definition gate_allowed :: "(bot_drip_row \<Rightarrow> string) \<Rightarrow> gate \<Rightarrow> string \<Rightarrow> nat \<Rightarrow> bool" where
  "gate_allowed col g k t \<longleftrightarrow> (\<forall>r \<in> set (fst g). col r = k \<longrightarrow> bd_dripped_at r \<le> int t - int (snd g))"

definition gate_mark :: "bot_drip_row \<Rightarrow> nat \<Rightarrow> gate \<Rightarrow> gate" where
  "gate_mark r t g = (fst g @ [r\<lparr>bd_dripped_at := int t\<rparr>], snd g)"

text \<open>A grant is the row it records, but for the time.\<close>

interpretation by_address: cooldown_gate "bd_address" "gate_allowed bd_address" gate_mark "\<lambda>g _. snd g"
  by unfold_locales (auto simp: gate_allowed_def gate_mark_def)

interpretation by_user: cooldown_gate "bd_discord_user_id" "gate_allowed bd_discord_user_id" gate_mark "\<lambda>g _. snd g"
  by unfold_locales (auto simp: gate_allowed_def gate_mark_def)

definition gate_of :: "config \<Rightarrow> pool \<Rightarrow> gate" where
  "gate_of c p = (bot_drips (p_db p), cf_bot_drip_rate_limit_secs c * 1000000)"

lemma desc_Nil [simp]: "desc key [] = []"
  by (simp add: desc_def)

lemma desc_eq_Nil: "desc key rs = [] \<longleftrightarrow> rs = []"
  by (metis length_desc length_0_conv)

lemma cooldown_check_passes:
  assumes "\<not> pg_fault P (p_seq p)" and "0 \<le> pg_now P (p_seq p)"
    and "(column = ''address'' \<and> col = bd_address) \<or> (column = ''discord_user_id'' \<and> col = bd_discord_user_id)"
  shows "(\<exists>u p'. cooldown_check P c now column k label p = (Inr u, p')) \<longleftrightarrow>
      gate_allowed col (gate_of c p) k (nat (pg_now P (p_seq p)))"
    and "snd (cooldown_check P c now column k label p) = p\<lparr>p_seq := Suc (p_seq p)\<rparr>"
proof -
  let ?t = "pg_now P (p_seq p)"
  let ?rows = "filter (\<lambda>r. col r = k \<and> bd_dripped_at r > ?t - micros (cf_bot_drip_rate_limit_secs c)) (bot_drips (p_db p))"
  have e: "last_drip_within_window P column k (cf_bot_drip_rate_limit_secs c) p =
      (Inr (case desc bd_dripped_at ?rows of [] \<Rightarrow> None | r # _ \<Rightarrow> Some (bd_dripped_at r)), p\<lparr>p_seq := Suc (p_seq p)\<rparr>)"
    using assms(1,3) by (auto simp: last_drip_within_window_def exec_def Let_def)
  then show "snd (cooldown_check P c now column k label p) = p\<lparr>p_seq := Suc (p_seq p)\<rparr>"
    by (simp add: cooldown_check_def Let_def split: list.split)
  have "gate_allowed col (gate_of c p) k (nat ?t) \<longleftrightarrow> ?rows = []"
    using assms(2) by (force simp: gate_allowed_def gate_of_def micros_def filter_empty_conv)
  also have "\<dots> \<longleftrightarrow> desc bd_dripped_at ?rows = []" by (simp only: desc_eq_Nil)
  finally show "(\<exists>u p'. cooldown_check P c now column k label p = (Inr u, p')) \<longleftrightarrow> gate_allowed col (gate_of c p) k (nat ?t)"
    by (auto simp: cooldown_check_def e Let_def split: list.split)
qed

section \<open>Requests one after another\<close>

text \<open>
  A grant is the row it records (but for its time) and the number of the first statement of its call:
  the address is checked by that statement, the user by the next, and the third records the row.
\<close>

fun serve_bot ::
  "('key, 'addr) sdk \<Rightarrow> pg \<Rightarrow> config \<Rightarrow> (string option \<times> drip_bot_request \<times> (nat \<Rightarrow> time)) list \<Rightarrow>
   pool \<times> 'key signer \<Rightarrow> (bot_drip_row \<times> nat) list \<times> pool \<times> 'key signer" where
  "serve_bot S P c [] st = ([], st)"
| "serve_bot S P c ((h, req, utc) # qs) st =
     (case drip_bot S P c utc h req st of
        (r, st') \<Rightarrow>
          (case serve_bot S P c qs st' of
             (gs, st'') \<Rightarrow>
               (case r of
                  Inr ok \<Rightarrow> ((new_bot_drip_row req (br_tx_hash ok) utc 0, p_seq (fst st)) # gs, st'')
                | Inl _ \<Rightarrow> (gs, st''))))"

text \<open>The clock of the database: non-negative and never going back.\<close>

definition steady_clock :: "pg \<Rightarrow> bool" where
  "steady_clock P \<longleftrightarrow> (\<forall>n. 0 \<le> pg_now P n) \<and> (\<forall>m n. m \<le> n \<longrightarrow> pg_now P m \<le> pg_now P n)"

lemma steady_mono: "steady_clock P \<Longrightarrow> m \<le> n \<Longrightarrow> nat (pg_now P m) \<le> nat (pg_now P n)"
  unfolding steady_clock_def by (blast intro: nat_mono)

lemma pay_bot_Inl:
  assumes "pay_bot S P c utc req (p, sg) = (Inl e, p', sg')"
  shows "p' = p"
  using assms by (auto simp: pay_bot_def split: prod.splits sum.splits)

lemma pay_bot_Inr:
  assumes "pay_bot S P c utc req (p, sg) = (Inr ok, p', sg')" and "\<not> pg_fault P (p_seq p)"
  shows "p' = p\<lparr>p_seq := Suc (p_seq p), p_db := (p_db p)\<lparr>bot_drips := bot_drips (p_db p) @
    [new_bot_drip_row req (br_tx_hash ok) utc (pg_now P (p_seq p))]\<rparr>\<rparr>"
  using assms by (auto simp: pay_bot_def insert_bot_drip_def exec_def Let_def split: prod.splits sum.splits)

text \<open>What a call does to the recorded drips, when the database answers.\<close>

lemma drip_bot_run:
  assumes "\<And>n. \<not> pg_fault P n" and "steady_clock P"
    and "drip_bot S P c utc h req (p, sg) = (r, p', sg')"
  shows "case r of
      Inl _ \<Rightarrow> p_db p' = p_db p \<and> p_seq p \<le> p_seq p'
    | Inr ok \<Rightarrow>
        gate_allowed bd_address (gate_of c p) (bq_address req) (nat (pg_now P (p_seq p))) \<and>
        gate_allowed bd_discord_user_id (gate_of c p) (bq_discord_user_id req) (nat (pg_now P (Suc (p_seq p)))) \<and>
        p' = p\<lparr>p_seq := p_seq p + 3, p_db := (p_db p)\<lparr>bot_drips := bot_drips (p_db p) @
          [new_bot_drip_row req (br_tx_hash ok) utc (pg_now P (p_seq p + 2))]\<rparr>\<rparr>"
proof -
  let ?p1 = "p\<lparr>p_seq := Suc (p_seq p)\<rparr>" and ?p2 = "p\<lparr>p_seq := Suc (Suc (p_seq p))\<rparr>"
  let ?a = "cooldown_check P c (utc 0) ''address'' (bq_address req) ''address'' p"
  let ?u = "cooldown_check P c (utc 1) ''discord_user_id'' (bq_discord_user_id req) ''Discord user'' ?p1"
  have nn: "0 \<le> pg_now P n" for n using assms(2) by (simp add: steady_clock_def)
  have a: "(\<exists>u p'. ?a = (Inr u, p')) \<longleftrightarrow> gate_allowed bd_address (gate_of c p) (bq_address req) (nat (pg_now P (p_seq p)))"
    "snd ?a = ?p1"
    using cooldown_check_passes [OF assms(1) nn, where column = "''address''" and col = bd_address] by auto
  have u: "(\<exists>u p'. ?u = (Inr u, p')) \<longleftrightarrow>
      gate_allowed bd_discord_user_id (gate_of c ?p1) (bq_discord_user_id req) (nat (pg_now P (Suc (p_seq p))))"
    "snd ?u = ?p2"
    using cooldown_check_passes [OF assms(1) nn, where column = "''discord_user_id''" and col = bd_discord_user_id and p = ?p1]
    by auto
  have g: "gate_of c ?p1 = gate_of c p" by (simp add: gate_of_def)
  consider (early) e where "r = Inl e" "p' = p"
    | (addr) e where "?a = (Inl e, p')" "r = Inl e"
    | (user) x e where "?a = (Inr x, ?p1)" "?u = (Inl e, p')" "r = Inl e"
    | (pay) x y where "?a = (Inr x, ?p1)" "?u = (Inr y, ?p2)" "pay_bot S P c utc req (?p2, sg) = (r, p', sg')"
    using assms(3) a(2) u(2)
    by (auto simp: drip_bot_def Let_def split: option.splits if_splits prod.splits sum.splits)
  then show ?thesis
  proof cases
    case addr
    then have "p' = ?p1" using a(2) by simp
    with addr show ?thesis by simp
  next
    case user
    then have "p' = ?p2" using u(2) by simp
    with user show ?thesis by simp
  next
    case pay
    show ?thesis
    proof (cases r)
      case (Inl e)
      then have "p' = ?p2" using pay_bot_Inl pay(3) by blast
      with Inl show ?thesis by simp
    next
      case (Inr ok)
      have "gate_allowed bd_address (gate_of c p) (bq_address req) (nat (pg_now P (p_seq p)))" using a(1) pay(1) by blast
      moreover have "gate_allowed bd_discord_user_id (gate_of c p) (bq_discord_user_id req) (nat (pg_now P (Suc (p_seq p))))"
        using u(1) pay(2) unfolding g by blast
      ultimately show ?thesis
        using Inr pay_bot_Inr [of S P c utc req ?p2 sg ok p' sg'] pay(3) assms(1) by (simp add: numeral_eq_Suc)
    qed
  qed simp
qed

text \<open>The grants of a run form a history of either gate.\<close>

lemma serve_bot_history:
  assumes "\<And>n. \<not> pg_fault P n" and "steady_clock P"
    and "(col = bd_address \<and> k = 0) \<or> (col = bd_discord_user_id \<and> k = 1)" and "t \<le> nat (pg_now P (p_seq p))"
  shows "grants_ok col (gate_allowed col) gate_mark t (gate_of c p)
    (map (\<lambda>(r, n). (r, nat (pg_now P (n + k)), nat (pg_now P (n + 2)))) (fst (serve_bot S P c qs (p, sg))))"
  using assms(4)
proof (induction qs arbitrary: t p sg)
  case Nil
  then show ?case by simp
next
  case (Cons q qs)
  obtain h req utc where q: "q = (h, req, utc)" by (cases q) auto
  obtain r p' sg' where d: "drip_bot S P c utc h req (p, sg) = (r, p', sg')"
    by (cases "drip_bot S P c utc h req (p, sg)") auto
  note run = drip_bot_run [OF assms(1,2) d]
  show ?case
  proof (cases r)
    case (Inl e)
    then have "gate_of c p' = gate_of c p" and le: "p_seq p \<le> p_seq p'" using run by (simp_all add: gate_of_def)
    moreover have "t \<le> nat (pg_now P (p_seq p'))" using Cons.prems steady_mono [OF assms(2) le] by simp
    ultimately show ?thesis using Cons.IH [of t p' sg'] by (simp add: q d Inl split: prod.splits)
  next
    case (Inr ok)
    let ?row = "new_bot_drip_row req (br_tx_hash ok) utc 0" and ?n = "p_seq p"
    let ?tc = "nat (pg_now P (?n + k))" and ?tr = "nat (pg_now P (?n + 2))"
    have p': "p_seq p' = ?n + 3" "bot_drips (p_db p') = bot_drips (p_db p) @ [new_bot_drip_row req (br_tx_hash ok) utc (pg_now P (?n + 2))]"
      using run by (simp_all add: Inr)
    have "0 \<le> pg_now P (?n + 2)" using assms(2) by (simp add: steady_clock_def)
    then have mark: "gate_of c p' = gate_mark ?row ?tr (gate_of c p)"
      by (simp add: gate_of_def gate_mark_def p' new_bot_drip_row_def)
    have al: "gate_allowed col (gate_of c p) (col ?row) ?tc"
      using run assms(3) by (auto simp: Inr new_bot_drip_row_def)
    have "t \<le> ?tc" "?tc \<le> ?tr" "?tr \<le> nat (pg_now P (p_seq p'))"
      using Cons.prems steady_mono [OF assms(2), of ?n "?n + k"] steady_mono [OF assms(2), of "?n + k" "?n + 2"]
        steady_mono [OF assms(2), of "?n + 2" "p_seq p'"] assms(3) p'(1) by auto
    then show ?thesis
      using Cons.IH [of ?tr p' sg'] al by (auto simp: q d Inr mark split: prod.splits)
  qed
qed

lemma sorted_wrt_conj: "sorted_wrt A xs \<Longrightarrow> sorted_wrt B xs \<Longrightarrow> sorted_wrt (\<lambda>x y. A x y \<and> B x y) xs"
  by (induction xs) auto

lemma serve_bot_spaced:
  assumes "\<And>n. \<not> pg_fault P n" and "steady_clock P"
    and "(col = bd_address \<and> k = 0) \<or> (col = bd_discord_user_id \<and> k = 1)"
  shows "sorted_wrt (\<lambda>(r, n) (r', n'). col r = col r' \<longrightarrow>
    pg_now P (n + 2) + micros (cf_bot_drip_rate_limit_secs c) \<le> pg_now P (n' + k)) (fst (serve_bot S P c qs (p, sg)))"
proof -
  let ?h = "map (\<lambda>(r, n). (r, nat (pg_now P (n + k)), nat (pg_now P (n + 2)))) (fst (serve_bot S P c qs (p, sg)))"
  have nn: "0 \<le> pg_now P n" for n using assms(2) by (simp add: steady_clock_def)
  have "grants_ok col (gate_allowed col) gate_mark 0 (gate_of c p) ?h"
    by (rule serve_bot_history [OF assms]) simp
  then have "sorted_wrt (spaced col (\<lambda>_. snd (gate_of c p))) ?h"
    using assms(3) by_address.grants_spaced by_user.grants_spaced by blast
  then have "sorted_wrt (\<lambda>x y. spaced col (\<lambda>_. snd (gate_of c p)) (fst x, nat (pg_now P (snd x + k)), nat (pg_now P (snd x + 2)))
      (fst y, nat (pg_now P (snd y + k)), nat (pg_now P (snd y + 2)))) (fst (serve_bot S P c qs (p, sg)))"
    by (simp add: sorted_wrt_map case_prod_beta')
  then show ?thesis
  proof (rule sorted_wrt_mono_rel [rotated])
    fix x y :: "bot_drip_row \<times> nat"
    assume "spaced col (\<lambda>_. snd (gate_of c p)) (fst x, nat (pg_now P (snd x + k)), nat (pg_now P (snd x + 2)))
      (fst y, nat (pg_now P (snd y + k)), nat (pg_now P (snd y + 2)))"
    then show "(case x of (r, n) \<Rightarrow> \<lambda>(r', n'). col r = col r' \<longrightarrow>
        pg_now P (n + 2) + micros (cf_bot_drip_rate_limit_secs c) \<le> pg_now P (n' + k)) y"
      using nn [of "snd x + 2"] nn [of "snd y + k"]
      by (cases x; cases y) (auto simp: spaced_def gate_of_def micros_def)
  qed
qed

text \<open>What the parts of the handler leave unchanged.\<close>

lemma cooldown_check_db:
  "cooldown_check P c now col k lab p = (r, p') \<Longrightarrow>
   p_db p' = p_db p \<and> (\<forall>e. r = Inl e \<longrightarrow> be_status e \<in> {429, 500})"
  by (auto simp: cooldown_check_def last_drip_within_window_def exec_def Let_def bot_error_def
      split: prod.splits sum.splits option.splits if_splits list.splits)

lemma pay_bot_effects:
  assumes "pay_bot S P c utc req (p, sg) = (r, p', sg')"
  shows "case r of
      Inr ok \<Rightarrow> br_amount_nano ok = bq_amount_nano req \<and> br_address ok = bq_address req \<and> sg' = sg\<lparr>nonce := nonce sg + 1\<rparr>
    | Inl e \<Rightarrow> p_db p' = p_db p \<and>
        (if be_status e = 502 then sg' = sg\<lparr>nonce := nonce sg + 1\<rparr> else sg' = sg \<and> be_status e = 400)"
  using assms
  by (auto simp: pay_bot_def signer_drip_def fetch_add_nonce_def map_bot_signer_error_def bot_error_def Let_def
      split: prod.splits sum.splits signer_error.splits)

section \<open>Properties\<close>

text \<open>C25. Handled one after another while the database answers, the grants of the Discord faucet are spaced
  twice over: of two grants to the same address, and of two grants to the same Discord user, the
  later passed its check no earlier than a full window after the earlier was recorded. Refused
  requests in between change nothing.\<close>

theorem bot_faucet_spacing:
  assumes "\<And>n. \<not> pg_fault P n" and "steady_clock P"
  shows "sorted_wrt (\<lambda>(r, n) (r', n').
      (bd_address r = bd_address r' \<longrightarrow>
         pg_now P (n + 2) + micros (cf_bot_drip_rate_limit_secs c) \<le> pg_now P n') \<and>
      (bd_discord_user_id r = bd_discord_user_id r' \<longrightarrow>
         pg_now P (n + 2) + micros (cf_bot_drip_rate_limit_secs c) \<le> pg_now P (n' + 1)))
    (fst (serve_bot S P c qs (p, sg)))"
  using sorted_wrt_conj [OF serve_bot_spaced [OF assms, of bd_address 0 c S qs p sg]
      serve_bot_spaced [OF assms, of bd_discord_user_id 1 c S qs p sg]]
  by (simp add: case_prod_beta')

definition bot_request :: "string \<Rightarrow> string \<Rightarrow> drip_bot_request" where
  "bot_request a u = \<lparr>bq_address = a, bq_discord_user_id = u, bq_tier = Newcomer, bq_amount_nano = 100,
     bq_tier_evidence = None\<rparr>"

definition slow_pg :: pg where
  "slow_pg = calm_pg\<lparr>pg_now := (\<lambda>n. 4000000 * int n)\<rparr>"

lemma slow_pg_simps [simp]: "pg_now slow_pg n = 4000000 * int n" "\<not> pg_fault slow_pg n"
  by (simp_all add: slow_pg_def)

lemma slow_pg_steady: "steady_clock slow_pg"
  by (simp add: steady_clock_def)

definition sample_bot_requests :: "(string option \<times> drip_bot_request \<times> (nat \<Rightarrow> time)) list" where
  "sample_bot_requests = [(Some ''s'', bot_request ''lig1a'' ''u'', \<lambda>_. 0), (Some ''s'', bot_request ''lig1a'' ''v'', \<lambda>_. 0),
     (Some ''s'', bot_request ''lig1b'' ''u'', \<lambda>_. 0), (Some ''s'', bot_request ''lig1a'' ''u'', \<lambda>_. 0)]"

definition sample_bot_grants :: "(bot_drip_row \<times> nat) list" where
  "sample_bot_grants = fst (serve_bot demo_sdk slow_pg sample_config sample_bot_requests
     (\<lparr>p_db = empty_db, p_seq = 0\<rparr>, demo_signer))"

theorem bot_faucet_spacing_witness:
  "map snd sample_bot_grants = [0, 4] \<and>
   sorted_wrt (\<lambda>(r, n) (r', n').
      (bd_address r = bd_address r' \<longrightarrow> pg_now slow_pg (n + 2) + micros 10 \<le> pg_now slow_pg n') \<and>
      (bd_discord_user_id r = bd_discord_user_id r' \<longrightarrow> pg_now slow_pg (n + 2) + micros 10 \<le> pg_now slow_pg (n' + 1)))
    sample_bot_grants"
proof
  show "map snd sample_bot_grants = [0, 4]"
    by (simp add: sample_bot_grants_def sample_bot_requests_def bot_request_def drip_bot_def sample_config_def
        constant_time_eq_iff as_bytes_inj expected_amount_def cooldown_check_def last_drip_within_window_def exec_def
        empty_db_def pay_bot_def insert_bot_drip_def new_bot_drip_row_def signer_drip_def demo_sdk_def demo_signer_def
        fetch_add_nonce_def build_unsigned_def desc_def micros_def Let_def)
  show "sorted_wrt (\<lambda>(r, n) (r', n').
      (bd_address r = bd_address r' \<longrightarrow> pg_now slow_pg (n + 2) + micros 10 \<le> pg_now slow_pg n') \<and>
      (bd_discord_user_id r = bd_discord_user_id r' \<longrightarrow> pg_now slow_pg (n + 2) + micros 10 \<le> pg_now slow_pg (n' + 1)))
    sample_bot_grants"
    using bot_faucet_spacing [of slow_pg sample_config demo_sdk sample_bot_requests "\<lparr>p_db = empty_db, p_seq = 0\<rparr>" demo_signer]
      slow_pg_steady by (simp add: sample_bot_grants_def sample_config_def)
qed

text \<open>C30. The guards of the Discord faucet: a payment is made only when the endpoint has a secret and the request
  carries exactly that secret, and only of the amount configured for the claimed tier, whatever
  amount the request names; it uses one nonce of the shared signer. A refused request records
  nothing, and only a failed submission uses up a nonce.\<close>

theorem drip_bot_guarded:
  "case drip_bot S P c utc h req (p, sg) of (r, p', sg') \<Rightarrow>
     (case r of
        Inr ok \<Rightarrow>
          (\<exists>s. cf_faucet_bot_secret c = Some s \<and> (case h of Some x \<Rightarrow> x = s | None \<Rightarrow> s = [])) \<and>
          br_amount_nano ok = expected_amount c (bq_tier req) \<and> bq_amount_nano req = br_amount_nano ok \<and>
          br_address ok = bq_address req \<and> sg' = sg\<lparr>nonce := nonce sg + 1\<rparr>
      | Inl e \<Rightarrow>
          p_db p' = p_db p \<and>
          (if be_status e = 502 then sg' = sg\<lparr>nonce := nonce sg + 1\<rparr>
           else sg' = sg \<and> be_status e \<in> {400, 401, 429, 500, 503}))"
proof -
  obtain r p' sg' where d: "drip_bot S P c utc h req (p, sg) = (r, p', sg')"
    by (cases "drip_bot S P c utc h req (p, sg)") auto
  let ?x = "case h of Some x \<Rightarrow> x | None \<Rightarrow> []"
  let ?a = "cooldown_check P c (utc 0) ''address'' (bq_address req) ''address'' p"
  let ?u = "cooldown_check P c (utc 1) ''discord_user_id'' (bq_discord_user_id req) ''Discord user''"
  consider (early) e where "r = Inl e" "p' = p" "sg' = sg" "be_status e \<in> {400, 401, 503}"
    | (addr) e where "?a = (Inl e, p')" "r = Inl e" "sg' = sg"
    | (user) p1 x e where "?a = (Inr x, p1)" "?u p1 = (Inl e, p')" "r = Inl e" "sg' = sg"
    | (pay) p1 p2 x y where "?a = (Inr x, p1)" "?u p1 = (Inr y, p2)" "pay_bot S P c utc req (p2, sg) = (r, p', sg')"
        "cf_faucet_bot_secret c = Some ?x" "bq_amount_nano req = expected_amount c (bq_tier req)"
    using d by (auto simp: drip_bot_def Let_def constant_time_eq_iff as_bytes_inj bot_error_def
        split: option.splits if_splits prod.splits sum.splits)
  then show ?thesis
  proof cases
    case pay
    have "p_db p2 = p_db p" using cooldown_check_db [OF pay(1)] cooldown_check_db [OF pay(2)] by simp
    then show ?thesis
      using pay_bot_effects [OF pay(3)] pay(4,5) by (cases r) (auto simp: d split: if_splits option.splits)
  next
    case addr
    then show ?thesis using cooldown_check_db [OF addr(1)] by (auto simp: d)
  next
    case user
    then show ?thesis using cooldown_check_db [OF user(1)] cooldown_check_db [OF user(2)] by (auto simp: d)
  qed (auto simp: d)
qed

end
