(* ===== verification/Ttl_Cache.thy ===== *)
theory Ttl_Cache
  imports Cooldown
begin

text \<open>
  The contract of the two response caches of the read side: the statistics cache, keyed by endpoint
  and parameters (\<^verbatim>\<open>crates/api/src/stats.rs\<close>), and the single entry of the cluster
  endpoint (\<^verbatim>\<open>crates/api/src/cluster.rs\<close>). An entry is stamped when it is stored and served
  while it is younger than its lifetime. Such a cache is a cooldown gate for the computations behind
  it; the client lemmas say that computations of one key are a lifetime apart and that what is served
  was computed less than a lifetime ago.
\<close>

section \<open>Histories\<close>

text \<open>
  One request: the lookup at \<open>ta\<close> hits, or misses and the response is computed and stored, or the request
  is answered without the cache (it is refused, or its computation fails); it ends at \<open>tp\<close>, which is the
  stamp of a stored entry.
\<close>

datatype 'v outcome =
    Hit 'v
  | Stored 'v
  | Unstored

fun cache_run ::
  "('s \<Rightarrow> 'k \<Rightarrow> nat \<Rightarrow> 'v option) \<Rightarrow> ('k \<Rightarrow> 'v \<Rightarrow> nat \<Rightarrow> 's \<Rightarrow> 's) \<Rightarrow>
   nat \<Rightarrow> 's \<Rightarrow> ('k \<times> nat \<times> nat \<times> 'v outcome) list \<Rightarrow> bool" where
  "cache_run get_fresh put t s [] = True"
| "cache_run get_fresh put t s ((k, ta, tp, out) # es) =
     (t \<le> ta \<and> ta \<le> tp \<and>
      (case out of
         Hit v \<Rightarrow> get_fresh s k ta = Some v \<and> cache_run get_fresh put tp s es
       | Stored v \<Rightarrow> get_fresh s k ta = None \<and> cache_run get_fresh put tp (put k v tp s) es
       | Unstored \<Rightarrow> cache_run get_fresh put tp s es))"

definition stores :: "('k \<times> nat \<times> nat \<times> 'v outcome) list \<Rightarrow> (('k \<times> 'v) \<times> nat \<times> nat) list" where
  "stores es = List.map_filter (\<lambda>(k, ta, tp, out). case out of Stored v \<Rightarrow> Some ((k, v), ta, tp) | _ \<Rightarrow> None) es"

lemma stores_simps [simp]:
  "stores [] = []"
  "stores ((k, ta, tp, Hit v) # es) = stores es"
  "stores ((k, ta, tp, Stored v) # es) = ((k, v), ta, tp) # stores es"
  "stores ((k, ta, tp, Unstored) # es) = stores es"
  by (simp_all add: stores_def List.map_filter_simps)

lemma set_stores: "((k, v), ta, tp) \<in> set (stores es) \<longleftrightarrow> (k, ta, tp, Stored v) \<in> set es"
proof (induction es)
  case (Cons e es)
  obtain k' ta' tp' out where "e = (k', ta', tp', out)" by (cases e) auto
  then show ?case using Cons by (cases out) auto
qed simp

section \<open>The contract\<close>

locale ttl_cache =
  fixes entry :: "'s \<Rightarrow> 'k \<Rightarrow> (nat \<times> 'v) option"
    and get_fresh :: "'s \<Rightarrow> 'k \<Rightarrow> nat \<Rightarrow> 'v option"
    and put :: "'k \<Rightarrow> 'v \<Rightarrow> nat \<Rightarrow> 's \<Rightarrow> 's"
    and ttl :: "'k \<Rightarrow> nat"
  assumes entry_put: "entry (put k v t s) k' = (if k' = k then Some (t, v) else entry s k')"
    and get_fresh_entry: "get_fresh s k now =
      (case entry s k of Some (t, v) \<Rightarrow> if now - t < ttl k then Some v else None | None \<Rightarrow> None)"

sublocale ttl_cache \<subseteq> gate: cooldown_gate fst "\<lambda>s k now. get_fresh s k now = None"
    "\<lambda>(k, v) t s. put k v t s" "\<lambda>_. ttl"
  by unfold_locales (auto simp: get_fresh_entry entry_put split: option.splits if_splits)

context ttl_cache
begin

lemma grants_of_run:
  "cache_run get_fresh put t s es \<Longrightarrow> t' \<le> t \<Longrightarrow>
   grants_ok fst (\<lambda>s k now. get_fresh s k now = None) (\<lambda>(k, v) t s. put k v t s) t' s (stores es)"
proof (induction es arbitrary: t t' s)
  case (Cons e es)
  obtain k ta tp out where e: "e = (k, ta, tp, out)" by (cases e) auto
  show ?case
  proof (cases out)
    case (Stored v)
    with Cons.prems Cons.IH [of tp "put k v tp s" tp] show ?thesis by (simp add: e)
  next
    case (Hit v)
    with Cons.prems Cons.IH [of tp s t'] show ?thesis by (simp add: e)
  next
    case Unstored
    with Cons.prems Cons.IH [of tp s t'] show ?thesis by (simp add: e)
  qed
qed simp

text \<open>Computations of one key are at least its lifetime apart.\<close>

lemma stores_spaced:
  assumes "cache_run get_fresh put t s es"
  shows "sorted_wrt (spaced fst ttl) (stores es)"
  using gate.grants_spaced [OF grants_of_run [OF assms order_refl]] by simp

text \<open>What is served from the cache was stored by an earlier request of the same key, less than a lifetime ago.\<close>

lemma hit_fresh:
  assumes "cache_run get_fresh put t s (xs @ (k, ta, tp, Hit v) # ys)"
  shows "(\<exists>ta' tp'. (k, ta', tp', Stored v) \<in> set xs \<and> ta < tp' + ttl k) \<or>
    (\<exists>t0. entry s k = Some (t0, v) \<and> ta < t0 + ttl k)"
  using assms
proof (induction xs arbitrary: t s)
  case Nil
  then show ?case by (auto simp: get_fresh_entry split: option.splits if_splits)
next
  case (Cons e xs)
  obtain k' ta' tp' out where e: "e = (k', ta', tp', out)" by (cases e) auto
  show ?case
  proof (cases out)
    case (Stored v')
    with Cons.prems have "cache_run get_fresh put tp' (put k' v' tp' s) (xs @ (k, ta, tp, Hit v) # ys)"
      by (simp add: e)
    from Cons.IH [OF this] show ?thesis
      by (cases "k = k'") (auto simp: e Stored entry_put)
  next
    case (Hit v')
    with Cons.prems have "cache_run get_fresh put tp' s (xs @ (k, ta, tp, Ttl_Cache.Hit v) # ys)" by (simp add: e)
    from Cons.IH [OF this] show ?thesis by auto
  next
    case Unstored
    with Cons.prems have "cache_run get_fresh put tp' s (xs @ (k, ta, tp, Hit v) # ys)" by (simp add: e)
    from Cons.IH [OF this] show ?thesis by auto
  qed
qed

end

end
