(* ===== verification/Cluster.thy ===== *)
theory Cluster
  imports Client Ratelimit Ttl_Cache
begin

text \<open>
  The cluster endpoint, \<^verbatim>\<open>crates/api/src/cluster.rs\<close>: the topology the node reports is
  stripped of private addresses, summed up in one health word, rendered and kept for five seconds.
  The rendering of JSON is a parameter. The clock readings of a request are its arguments: the
  monotonic clock at the lookup and at the end, and the wall clock.
\<close>

section \<open>The cache\<close>

definition CACHE_TTL :: duration where
  "CACHE_TTL = 5 * NANOS_PER_SEC"

definition CACHE_CONTROL_MAX_AGE_SECS :: nat where
  "CACHE_CONTROL_MAX_AGE_SECS = 5"

definition UNKNOWN_CACHE_MAX_AGE_SECS :: nat where
  "UNKNOWN_CACHE_MAX_AGE_SECS = 10"

definition HEARTBEAT_FRESHNESS_MS :: int where
  "HEARTBEAT_FRESHNESS_MS = 2000"

type_synonym cluster_cache = "(instant \<times> string) option"

definition cluster_get_fresh :: "cluster_cache \<Rightarrow> instant \<Rightarrow> string option" where
  "cluster_get_fresh cache now =
     (case cache of
        None \<Rightarrow> None
      | Some (stamped_at, body) \<Rightarrow> if duration_since now stamped_at < CACHE_TTL then Some body else None)"

definition cluster_put :: "string \<Rightarrow> instant \<Rightarrow> cluster_cache \<Rightarrow> cluster_cache" where
  "cluster_put body now cache = Some (now, body)"

interpretation cluster: ttl_cache "\<lambda>s (_ :: unit). s" "\<lambda>s _ now. cluster_get_fresh s now"
    "\<lambda>_ body now s. cluster_put body now s" "\<lambda>_. CACHE_TTL"
  by unfold_locales (auto simp: cluster_get_fresh_def cluster_put_def duration_since_def split: option.split)

section \<open>The public shape\<close>

definition transform :: "chain_cluster_topology \<Rightarrow> int \<Rightarrow> cluster_topology" where
  "transform chain now_unix_ms =
     (let nodes = map (\<lambda>n. \<lparr>cn_node_id = ccn_node_id n, cn_is_leader = ccn_is_leader n,
                             cn_last_heartbeat_age_ms = ccn_last_heartbeat_age_ms n\<rparr>) (cct_nodes chain);
          health = (if cct_leader_node_id chain = None then Leaderless
                    else if list_ex (\<lambda>n. cn_last_heartbeat_age_ms n > HEARTBEAT_FRESHNESS_MS) nodes then Degraded
                    else Healthy)
      in \<lparr>ct_nodes = nodes, ct_leader_node_id = cct_leader_node_id chain,
          ct_leader_acquired_at_epoch_ms = cct_leader_acquired_at_epoch_ms chain,
          ct_generated_at_epoch_ms = now_unix_ms, ct_cluster_health = health\<rparr>)"

definition unknown_topology :: "int \<Rightarrow> cluster_topology" where
  "unknown_topology now_unix_ms =
     \<lparr>ct_nodes = [], ct_leader_node_id = None, ct_leader_acquired_at_epoch_ms = None,
      ct_generated_at_epoch_ms = now_unix_ms, ct_cluster_health = Unknown_health\<rparr>"

text \<open>Milliseconds since the epoch, zero before it and beyond 64 bits.\<close>

definition unix_millis :: "nat option \<Rightarrow> int" where
  "unix_millis clock = (case clock of Some n \<Rightarrow> if int n \<le> i64_max then int n else 0 | None \<Rightarrow> 0)"

definition fetch_and_transform ::
  "(indexer_error, node_client) result \<Rightarrow> string option \<Rightarrow> nat option \<Rightarrow> pool \<Rightarrow> cluster_topology \<times> pool" where
  "fetch_and_transform client auth_token clock p =
     (let now_unix_ms = unix_millis clock in
      case client of
        Inl _ \<Rightarrow> (unknown_topology now_unix_ms, p)
      | Inr C \<Rightarrow>
          (case cluster_nodes C auth_token p of
             (Inl _, p') \<Rightarrow> (unknown_topology now_unix_ms, p')
           | (Inr t, p') \<Rightarrow> (transform t now_unix_ms, p')))"

fun cluster_health_text :: "cluster_health \<Rightarrow> string" where
  "cluster_health_text Healthy = ''healthy''"
| "cluster_health_text Degraded = ''degraded''"
| "cluster_health_text Leaderless = ''leaderless''"
| "cluster_health_text Unknown_health = ''unknown''"

definition ser_cluster_node :: "cluster_node \<Rightarrow> json" where
  "ser_cluster_node n =
     JObject [(''node_id'', JString (cn_node_id n)), (''is_leader'', JBool (cn_is_leader n)),
       (''last_heartbeat_age_ms'', JInt (cn_last_heartbeat_age_ms n))]"

definition ser_cluster_topology :: "cluster_topology \<Rightarrow> json" where
  "ser_cluster_topology t =
     JObject [(''nodes'', JArray (map ser_cluster_node (ct_nodes t))),
       (''leader_node_id'', json_option JString (ct_leader_node_id t)),
       (''leader_acquired_at_epoch_ms'', json_option JInt (ct_leader_acquired_at_epoch_ms t)),
       (''generated_at_epoch_ms'', JInt (ct_generated_at_epoch_ms t)),
       (''cluster_health'', JString (cluster_health_text (ct_cluster_health t)))]"

section \<open>The handler\<close>

record http_reply =
  hr_status :: nat
  hr_body :: string
  hr_max_age :: "nat option"

definition cached_json :: "string \<Rightarrow> nat \<Rightarrow> nat \<Rightarrow> http_reply" where
  "cached_json body max_age_secs status = \<lparr>hr_status = status, hr_body = body, hr_max_age = Some max_age_secs\<rparr>"

record cluster_request =
  cq_asked :: instant
  cq_done :: instant
  cq_clock :: "nat option"

definition nodes ::
  "(json \<Rightarrow> (string, string) result) \<Rightarrow> (indexer_error, node_client) result \<Rightarrow> string option \<Rightarrow>
   cluster_request \<Rightarrow> cluster_cache \<times> pool \<Rightarrow> http_reply \<times> cluster_cache \<times> pool" where
  "nodes to_string client auth_token q st =
     (case cluster_get_fresh (fst st) (cq_asked q) of
        Some cached \<Rightarrow> (cached_json cached CACHE_CONTROL_MAX_AGE_SECS 200, st)
      | None \<Rightarrow>
          (case fetch_and_transform client auth_token (cq_clock q) (snd st) of
             (topology, p') \<Rightarrow>
               (case to_string (ser_cluster_topology topology) of
                  Inl _ \<Rightarrow> (\<lparr>hr_status = 500, hr_body = ''serialization error'', hr_max_age = None\<rparr>, fst st, p')
                | Inr body \<Rightarrow>
                    (let unknown = (ct_cluster_health topology = Unknown_health);
                         max_age = (if unknown then UNKNOWN_CACHE_MAX_AGE_SECS else CACHE_CONTROL_MAX_AGE_SECS);
                         status = (if unknown then 503 else 200);
                         cache' = (if ct_cluster_health topology \<in> {Healthy, Degraded, Leaderless}
                                   then cluster_put body (cq_done q) (fst st) else fst st)
                     in (cached_json body max_age status, cache', p')))))"

section \<open>Requests one after another\<close>

fun serve_cluster ::
  "(json \<Rightarrow> (string, string) result) \<Rightarrow> (indexer_error, node_client) result \<Rightarrow> string option \<Rightarrow>
   cluster_request list \<Rightarrow> cluster_cache \<times> pool \<Rightarrow> http_reply list" where
  "serve_cluster R client tok [] st = []"
| "serve_cluster R client tok (q # qs) st =
     (case nodes R client tok q st of (r, st') \<Rightarrow> r # serve_cluster R client tok qs st')"

text \<open>The same run as a history of the cache.\<close>

definition cluster_outcome ::
  "(json \<Rightarrow> (string, string) result) \<Rightarrow> (indexer_error, node_client) result \<Rightarrow> string option \<Rightarrow>
   cluster_request \<Rightarrow> cluster_cache \<times> pool \<Rightarrow> string outcome" where
  "cluster_outcome R client tok q st =
     (case cluster_get_fresh (fst st) (cq_asked q) of
        Some body \<Rightarrow> Hit body
      | None \<Rightarrow> let r = fst (nodes R client tok q st) in if hr_status r = 200 then Stored (hr_body r) else Unstored)"

fun cluster_log ::
  "(json \<Rightarrow> (string, string) result) \<Rightarrow> (indexer_error, node_client) result \<Rightarrow> string option \<Rightarrow>
   cluster_request list \<Rightarrow> cluster_cache \<times> pool \<Rightarrow> (unit \<times> nat \<times> nat \<times> string outcome) list" where
  "cluster_log R client tok [] st = []"
| "cluster_log R client tok (q # qs) st =
     ((), cq_asked q, cq_done q, cluster_outcome R client tok q st) #
       cluster_log R client tok qs (snd (nodes R client tok q st))"

fun in_order :: "instant \<Rightarrow> cluster_request list \<Rightarrow> bool" where
  "in_order t [] = True"
| "in_order t (q # qs) = (t \<le> cq_asked q \<and> cq_asked q \<le> cq_done q \<and> in_order (cq_done q) qs)"

text \<open>What the node answers at a point of the run, and the state a request finds.\<close>

definition node_answer ::
  "(indexer_error, node_client) result \<Rightarrow> string option \<Rightarrow> pool \<Rightarrow> chain_cluster_topology option" where
  "node_answer client tok p =
     (case client of
        Inl _ \<Rightarrow> None
      | Inr C \<Rightarrow> (case fst (cluster_nodes C tok p) of Inl _ \<Rightarrow> None | Inr t \<Rightarrow> Some t))"

definition found_by ::
  "(json \<Rightarrow> (string, string) result) \<Rightarrow> (indexer_error, node_client) result \<Rightarrow> string option \<Rightarrow>
   cluster_request list \<Rightarrow> cluster_cache \<times> pool \<Rightarrow> nat \<Rightarrow> cluster_cache \<times> pool" where
  "found_by R client tok qs st i = fold (\<lambda>q st. snd (nodes R client tok q st)) (take i qs) st"

text \<open>A body renders the answer of the node to a request; a failed request gets what the code has for it.\<close>

definition rendered ::
  "(json \<Rightarrow> (string, string) result) \<Rightarrow> chain_cluster_topology option \<Rightarrow> cluster_request \<Rightarrow> string \<Rightarrow> bool" where
  "rendered R answer q b \<longleftrightarrow>
     (\<exists>t. answer = Some t \<and> R (ser_cluster_topology (transform t (unix_millis (cq_clock q)))) = Inr b)"

definition refused ::
  "(json \<Rightarrow> (string, string) result) \<Rightarrow> chain_cluster_topology option \<Rightarrow> cluster_request \<Rightarrow> http_reply \<Rightarrow> bool" where
  "refused R answer q r \<longleftrightarrow>
     (case answer of
        None \<Rightarrow>
          (case R (ser_cluster_topology (unknown_topology (unix_millis (cq_clock q)))) of
             Inr b \<Rightarrow> r = \<lparr>hr_status = 503, hr_body = b, hr_max_age = Some 10\<rparr>
           | Inl _ \<Rightarrow> r = \<lparr>hr_status = 500, hr_body = ''serialization error'', hr_max_age = None\<rparr>)
      | Some t \<Rightarrow> (\<exists>e. R (ser_cluster_topology (transform t (unix_millis (cq_clock q)))) = Inl e) \<and>
          r = \<lparr>hr_status = 500, hr_body = ''serialization error'', hr_max_age = None\<rparr>)"

lemma nodes_cases:
  obtains (hit) b where "cluster_get_fresh (fst st) (cq_asked q) = Some b"
      "nodes R client tok q st = (cached_json b 5 200, st)"
  | (stored) p b where "rendered R (node_answer client tok (snd st)) q b"
      "cluster_get_fresh (fst st) (cq_asked q) = None"
      "nodes R client tok q st = (cached_json b 5 200, Some (cq_done q, b), p)"
  | (unstored) p r where "cluster_get_fresh (fst st) (cq_asked q) = None" "hr_status r \<noteq> 200"
      "refused R (node_answer client tok (snd st)) q r" "nodes R client tok q st = (r, fst st, p)"
proof (cases "cluster_get_fresh (fst st) (cq_asked q)")
  case (Some b)
  then show ?thesis using hit by (simp add: nodes_def CACHE_CONTROL_MAX_AGE_SECS_def)
next
  case None
  let ?now = "unix_millis (cq_clock q)" and ?answer = "node_answer client tok (snd st)"
  obtain t p' where f: "fetch_and_transform client tok (cq_clock q) (snd st) = (t, p')" by force
  then have t: "t = (case ?answer of None \<Rightarrow> unknown_topology ?now | Some c \<Rightarrow> transform c ?now)"
    by (auto simp: fetch_and_transform_def node_answer_def Let_def split: sum.splits prod.splits)
  have h: "ct_cluster_health t = Unknown_health \<longleftrightarrow> ?answer = None"
    unfolding t by (simp add: transform_def unknown_topology_def Let_def split: option.split)
  show ?thesis
  proof (cases "R (ser_cluster_topology t)")
    case (Inl e)
    then have "refused R ?answer q \<lparr>hr_status = 500, hr_body = ''serialization error'', hr_max_age = None\<rparr>"
      using t by (auto simp: refused_def split: option.splits)
    then show ?thesis
      using None f Inl
      by (intro unstored [OF None, of "\<lparr>hr_status = 500, hr_body = ''serialization error'', hr_max_age = None\<rparr>" p'])
         (simp_all add: nodes_def)
  next
    case (Inr b)
    show ?thesis
    proof (cases ?answer)
      case (None)
      with Inr t have "refused R ?answer q (cached_json b UNKNOWN_CACHE_MAX_AGE_SECS 503)"
        by (simp add: refused_def cached_json_def UNKNOWN_CACHE_MAX_AGE_SECS_def)
      then show ?thesis
        using \<open>cluster_get_fresh (fst st) (cq_asked q) = None\<close> f Inr h None
        by (intro unstored [of "cached_json b UNKNOWN_CACHE_MAX_AGE_SECS 503" p'])
           (simp_all add: nodes_def cached_json_def unknown_topology_def)
    next
      case (Some c)
      then have "ct_cluster_health t \<in> {Healthy, Degraded, Leaderless}"
        using h by (cases "ct_cluster_health t") auto
      then have "nodes R client tok q st = (cached_json b 5 200, Some (cq_done q, b), p')"
        using None f Inr h Some by (simp add: nodes_def CACHE_CONTROL_MAX_AGE_SECS_def cluster_put_def)
      moreover have "rendered R ?answer q b" using Some t Inr by (simp add: rendered_def)
      ultimately show ?thesis using stored None by blast
    qed
  qed
qed

lemma cluster_log_run:
  "in_order t qs \<Longrightarrow>
   cache_run (\<lambda>s _ now. cluster_get_fresh s now) (\<lambda>_ b now s. cluster_put b now s) t (fst st) (cluster_log R client tok qs st)"
proof (induction qs arbitrary: t st)
  case (Cons q qs)
  show ?case
    by (rule nodes_cases [of st q R client tok])
       (use Cons in \<open>auto simp: cluster_outcome_def Let_def cached_json_def cluster_put_def\<close>)
qed simp

lemma found_by_simps:
  "found_by R client tok qs st 0 = st"
  "found_by R client tok (q # qs) st (Suc i) = found_by R client tok qs (snd (nodes R client tok q st)) i"
  by (simp_all add: found_by_def)

lemma cluster_log_nth:
  assumes "i < length qs"
  shows "\<exists>out. cluster_log R client tok qs st ! i = ((), cq_asked (qs ! i), cq_done (qs ! i), out) \<and>
    (case out of
       Hit b \<Rightarrow> serve_cluster R client tok qs st ! i = cached_json b 5 200
     | Stored b \<Rightarrow> serve_cluster R client tok qs st ! i = cached_json b 5 200 \<and>
         rendered R (node_answer client tok (snd (found_by R client tok qs st i))) (qs ! i) b
     | Unstored \<Rightarrow> hr_status (serve_cluster R client tok qs st ! i) \<noteq> 200 \<and>
         refused R (node_answer client tok (snd (found_by R client tok qs st i))) (qs ! i) (serve_cluster R client tok qs st ! i) \<and>
         fst (found_by R client tok qs st (Suc i)) = fst (found_by R client tok qs st i))"
  using assms
proof (induction qs arbitrary: i st)
  case (Cons q qs)
  show ?case
  proof (cases i)
    case 0
    show ?thesis
      by (rule nodes_cases [of st q R client tok])
         (auto simp: 0 cluster_outcome_def Let_def cached_json_def found_by_simps)
  next
    case (Suc j)
    have "serve_cluster R client tok (q # qs) st ! i = serve_cluster R client tok qs (snd (nodes R client tok q st)) ! j"
      and "cluster_log R client tok (q # qs) st ! i = cluster_log R client tok qs (snd (nodes R client tok q st)) ! j"
      and "(q # qs) ! i = qs ! j"
      and "found_by R client tok (q # qs) st i = found_by R client tok qs (snd (nodes R client tok q st)) j"
      and "found_by R client tok (q # qs) st (Suc i) = found_by R client tok qs (snd (nodes R client tok q st)) (Suc j)"
      by (simp_all add: Suc found_by_simps split: prod.split)
    moreover have "j < length qs" using Cons.prems Suc by simp
    ultimately show ?thesis
      using Cons.IH [of j "snd (nodes R client tok q st)"] by (simp only:)
  qed
qed simp

lemma length_cluster_log [simp]:
  "length (cluster_log R client tok qs st) = length qs"
  "length (serve_cluster R client tok qs st) = length qs"
  by (induction qs arbitrary: st) (simp_all split: prod.split)

section \<open>Properties\<close>

text \<open>C28. Over requests handled one after another, starting with an empty cache: every topology served with
  status 200 renders what the node answered to this request, or to an earlier one that ended less than
  five seconds before this one was asked, in the state of the run that request found. Any other reply is
  the refusal of this request: 503 with the unknown topology and a max-age of ten seconds when the node
  could not be reached or its answer not be read, 500 when the body could not be serialised; it leaves the
  cache as it was. The fetches that were stored are at least five seconds apart.\<close>

theorem cluster_served_fresh:
  assumes "in_order 0 qs"
  shows "(\<forall>i < length qs. hr_status (serve_cluster R client tok qs (None, p) ! i) = 200 \<longrightarrow>
      (\<exists>j \<le> i. rendered R (node_answer client tok (snd (found_by R client tok qs (None, p) j))) (qs ! j)
           (hr_body (serve_cluster R client tok qs (None, p) ! i)) \<and>
         (j = i \<or> cq_asked (qs ! i) < cq_done (qs ! j) + 5000000000))) \<and>
    (\<forall>i < length qs. hr_status (serve_cluster R client tok qs (None, p) ! i) \<noteq> 200 \<longrightarrow>
      refused R (node_answer client tok (snd (found_by R client tok qs (None, p) i))) (qs ! i)
        (serve_cluster R client tok qs (None, p) ! i) \<and>
      fst (found_by R client tok qs (None, p) (Suc i)) = fst (found_by R client tok qs (None, p) i)) \<and>
    sorted_wrt (spaced fst (\<lambda>_. 5000000000)) (stores (cluster_log R client tok qs (None, p)))"
proof (intro conjI allI impI)
  let ?log = "cluster_log R client tok qs (None, p)" and ?rs = "serve_cluster R client tok qs (None, p)"
  let ?answer = "\<lambda>i. node_answer client tok (snd (found_by R client tok qs (None, p) i))"
  have ttl: "CACHE_TTL = 5000000000" by (simp add: CACHE_TTL_def NANOS_PER_SEC_def)
  have run: "cache_run (\<lambda>s _ now. cluster_get_fresh s now) (\<lambda>_ b now s. cluster_put b now s) 0 None ?log"
    using cluster_log_run [OF assms, of "(None, p)"] by simp
  show "sorted_wrt (spaced fst (\<lambda>_. 5000000000)) (stores ?log)"
    using cluster.stores_spaced [OF run] by (simp add: ttl)
  fix i assume i: "i < length qs"
  from cluster_log_nth [OF i, of R client tok "(None, p)"]
  obtain out where out: "?log ! i = ((), cq_asked (qs ! i), cq_done (qs ! i), out)"
    "case out of Hit b \<Rightarrow> ?rs ! i = cached_json b 5 200
     | Stored b \<Rightarrow> ?rs ! i = cached_json b 5 200 \<and> rendered R (?answer i) (qs ! i) b
     | Unstored \<Rightarrow> hr_status (?rs ! i) \<noteq> 200 \<and> refused R (?answer i) (qs ! i) (?rs ! i) \<and>
         fst (found_by R client tok qs (None, p) (Suc i)) = fst (found_by R client tok qs (None, p) i)"
    by blast
  show "refused R (?answer i) (qs ! i) (?rs ! i)"
    "fst (found_by R client tok qs (None, p) (Suc i)) = fst (found_by R client tok qs (None, p) i)"
    if "hr_status (?rs ! i) \<noteq> 200"
    using out(2) that by (cases out; simp add: cached_json_def)+
  assume ok: "hr_status (?rs ! i) = 200"
  show "\<exists>j \<le> i. rendered R (?answer j) (qs ! j) (hr_body (?rs ! i)) \<and>
      (j = i \<or> cq_asked (qs ! i) < cq_done (qs ! j) + 5000000000)"
  proof (cases out)
    case (Hit b)
    have "?log = take i ?log @ ((), cq_asked (qs ! i), cq_done (qs ! i), Hit b) # drop (Suc i) ?log"
      using id_take_nth_drop [of i ?log] i out(1) Hit by simp
    then obtain ta tp where "((), ta, tp, Stored b) \<in> set (take i ?log)" "cq_asked (qs ! i) < tp + CACHE_TTL"
      using cluster.hit_fresh [of 0 None "take i ?log" "()" "cq_asked (qs ! i)" "cq_done (qs ! i)" b "drop (Suc i) ?log"] run
      by auto
    then obtain j where j: "j < i" "?log ! j = ((), ta, tp, Stored b)"
      using i by (auto simp: in_set_conv_nth)
    then have "rendered R (?answer j) (qs ! j) b \<and> tp = cq_done (qs ! j)"
      using cluster_log_nth [of j qs R client tok "(None, p)"] i by auto
    then show ?thesis
      using j \<open>cq_asked (qs ! i) < tp + CACHE_TTL\<close> out(2) Hit by (auto simp: cached_json_def ttl intro!: exI [of _ j])
  qed (use out ok in \<open>auto simp: cached_json_def\<close>)
qed

definition two_nodes :: json where
  "two_nodes = JObject [(''nodes'', JArray
     [JObject [(''node_id'', JString ''a''), (''address'', JString ''10.0.0.1:1''), (''is_leader'', JBool True), (''last_heartbeat_age_ms'', JInt 30)],
      JObject [(''node_id'', JString ''b''), (''address'', JString ''10.0.0.2:1''), (''is_leader'', JBool False), (''last_heartbeat_age_ms'', JInt 5000)]]),
     (''leader_node_id'', JString ''a''), (''leader_acquired_at_epoch_ms'', JInt 7), (''generated_at_epoch_ms'', JInt 8)]"

definition sample_client :: node_client where
  "sample_client = \<lparr>nc_base = ''http://node/'', nc_join = (@), nc_get = (\<lambda>n _ _. if n = 0 then SendFailed ''refused'' else Client.Reply 200 (Inr two_nodes))\<rparr>"

definition health_only :: "json \<Rightarrow> (string, string) result" where
  "health_only v = (case v of JObject kvs \<Rightarrow> (case map_of kvs ''cluster_health'' of Some (JString h) \<Rightarrow> Inr h | _ \<Rightarrow> Inl []) | _ \<Rightarrow> Inl [])"

definition cluster_requests :: "cluster_request list" where
  "cluster_requests = map (\<lambda>n. \<lparr>cq_asked = n * 1000000000, cq_done = n * 1000000000 + 1, cq_clock = Some n\<rparr>) [1, 2, 4, 8]"

theorem cluster_served_fresh_witness:
  "map hr_status (serve_cluster health_only (Inr sample_client) None cluster_requests (None, \<lparr>p_db = empty_db, p_seq = 0\<rparr>)) =
     [503, 200, 200, 200] \<and>
   refused health_only (node_answer (Inr sample_client) None \<lparr>p_db = empty_db, p_seq = 0\<rparr>) (cluster_requests ! 0)
     (serve_cluster health_only (Inr sample_client) None cluster_requests (None, \<lparr>p_db = empty_db, p_seq = 0\<rparr>) ! 0) \<and>
   (\<exists>j. j \<le> 2 \<and> rendered health_only (node_answer (Inr sample_client) None (snd (found_by health_only (Inr sample_client) None
        cluster_requests (None, \<lparr>p_db = empty_db, p_seq = 0\<rparr>) j))) (cluster_requests ! j)
      (hr_body (serve_cluster health_only (Inr sample_client) None cluster_requests (None, \<lparr>p_db = empty_db, p_seq = 0\<rparr>) ! 2)))"
proof -
  let ?rs = "serve_cluster health_only (Inr sample_client) None cluster_requests (None, \<lparr>p_db = empty_db, p_seq = 0\<rparr>)"
  have o: "in_order 0 cluster_requests" by (simp add: cluster_requests_def)
  have st: "map hr_status ?rs = [503, 200, 200, 200]"
    by (simp add: cluster_requests_def nodes_def cluster_get_fresh_def cluster_put_def CACHE_TTL_def NANOS_PER_SEC_def
        duration_since_def fetch_and_transform_def cluster_nodes_def sample_client_def send_def from_slice_def
        two_nodes_def de_chain_cluster_topology_def de_chain_cluster_node_def i64_max_def de_option_def
        ser_cluster_topology_def transform_def health_only_def unknown_topology_def cached_json_def unix_millis_def)
  have n: "length cluster_requests = 4" by (simp add: cluster_requests_def)
  have status: "hr_status (?rs ! i) = [503, 200, 200, 200] ! i" if "i < 4" for i
    using that nth_map [of i ?rs hr_status] unfolding st by (simp only: length_cluster_log n)
  note fresh = cluster_served_fresh [OF o, of health_only "Inr sample_client" None "\<lparr>p_db = empty_db, p_seq = 0\<rparr>", unfolded n]
  have "hr_status (?rs ! 2) = 200" using status [of 2] by simp
  then have "\<exists>j \<le> 2. rendered health_only (node_answer (Inr sample_client) None (snd (found_by health_only (Inr sample_client) None
        cluster_requests (None, \<lparr>p_db = empty_db, p_seq = 0\<rparr>) j))) (cluster_requests ! j) (hr_body (?rs ! 2))"
    using conjunct1 [OF fresh, THEN spec, of 2] by auto
  moreover have "hr_status (?rs ! 0) \<noteq> 200" using status [of 0] by simp
  then have "refused health_only (node_answer (Inr sample_client) None \<lparr>p_db = empty_db, p_seq = 0\<rparr>) (cluster_requests ! 0) (?rs ! 0)"
    using conjunct1 [OF conjunct2 [OF fresh], THEN spec, of 0] by (simp add: found_by_simps(1))
  ultimately show ?thesis using st by blast
qed

text \<open>The public topology: the private addresses of the nodes have no influence on it, every other field is
  passed on, and the health word is \<^verbatim>\<open>leaderless\<close> exactly without a leader,
  \<^verbatim>\<open>healthy\<close> exactly with a leader and every heartbeat at most two seconds old, and never
  \<^verbatim>\<open>unknown\<close> once the node has answered.\<close>

lemma cluster_public_shape:
  "transform (c\<lparr>cct_nodes := map (\<lambda>n. n\<lparr>ccn_address := addr n\<rparr>) (cct_nodes c)\<rparr>) now = transform c now \<and>
   map (\<lambda>n. (cn_node_id n, cn_is_leader n, cn_last_heartbeat_age_ms n)) (ct_nodes (transform c now)) =
     map (\<lambda>n. (ccn_node_id n, ccn_is_leader n, ccn_last_heartbeat_age_ms n)) (cct_nodes c) \<and>
   ct_leader_node_id (transform c now) = cct_leader_node_id c \<and>
   (ct_cluster_health (transform c now) = Leaderless \<longleftrightarrow> cct_leader_node_id c = None) \<and>
   (ct_cluster_health (transform c now) = Healthy \<longleftrightarrow>
      cct_leader_node_id c \<noteq> None \<and> list_all (\<lambda>n. ccn_last_heartbeat_age_ms n \<le> 2000) (cct_nodes c)) \<and>
   ct_cluster_health (transform c now) \<noteq> Unknown_health"
  by (auto simp: transform_def Let_def comp_def HEARTBEAT_FRESHNESS_MS_def list_ex_iff list_all_iff not_le)

end
