(* ===== verification/Stats.thy ===== *)
theory Stats
  imports Complex_Main Queries Bank Config Ratelimit Ttl_Cache "HOL-Library.List_Lexorder" "HOL-Library.Char_ord"
begin

text \<open>
  The statistics endpoints, \<^verbatim>\<open>crates/api/src/stats.rs\<close>: a response cache shared by all of
  them, and behind it the totals, the activity count, the daily series and the leaderboards. (The
  finality and block-interval estimates are in the theory that follows.) A computation fails with the
  context of the failing query, or panics where chrono does.

  Parameters: the rendering of JSON, dates, times and floating-point numbers, the range of chrono's
  durations and instants, and the order in which Postgres returns rows without \<^verbatim>\<open>ORDER BY\<close>.
  The session of the database is in UTC, so \<^verbatim>\<open>DATE_TRUNC\<close> cuts at UTC days. The clock
  readings of a request are its arguments.
\<close>

section \<open>The cache\<close>

definition DEFAULT_TTL :: duration where "DEFAULT_TTL = 30 * NANOS_PER_SEC"
definition ETA_TTL :: duration where "ETA_TTL = 5 * NANOS_PER_SEC"
definition TTL_STATS_DEFAULT_SECS :: nat where "TTL_STATS_DEFAULT_SECS = 30"
definition TTL_STATS_TOTALS_SECS :: nat where "TTL_STATS_TOTALS_SECS = 10"
definition TTL_STATS_NEXT_BLOCK_ETA_SECS :: nat where "TTL_STATS_NEXT_BLOCK_ETA_SECS = 5"

type_synonym stats_cache = "(string \<times> instant \<times> string) list"

definition stats_get_fresh :: "stats_cache \<Rightarrow> string \<Rightarrow> duration \<Rightarrow> instant \<Rightarrow> string option" where
  "stats_get_fresh cache key ttl now =
     (case find_row fst key cache of
        None \<Rightarrow> None
      | Some (_, stamp, body) \<Rightarrow> if duration_since now stamp < ttl then Some body else None)"

definition stats_put :: "string \<Rightarrow> string \<Rightarrow> instant \<Rightarrow> stats_cache \<Rightarrow> stats_cache" where
  "stats_put key body now cache = upsert fst (key, now, body) (\<lambda>e. (fst e, now, body)) cache"

text \<open>The lifetime of an entry depends on its endpoint, which the key names.\<close>

definition key_ttl :: "string \<Rightarrow> duration" where
  "key_ttl key = (if key = ''next-block-eta'' then ETA_TTL else DEFAULT_TTL)"

lemma find_stats_put:
  "find_row fst k' (stats_put k b t cache) = (if k' = k then Some (k, t, b) else find_row fst k' cache)"
  by (auto simp: stats_put_def find_row_upsert dest: find_row_SomeD split: option.splits)

interpretation stats: ttl_cache "\<lambda>s k. map_option snd (find_row fst k s)"
    "\<lambda>s k now. stats_get_fresh s k (key_ttl k) now" stats_put key_ttl
  by unfold_locales (auto simp: stats_get_fresh_def find_stats_put duration_since_def split: option.split)

section \<open>Responses\<close>

datatype stats_reply =
    Stats_ok (ok_body: string) (ok_max_age: nat)
  | Stats_error string
  | Stats_panic

datatype stats_failure =
    Failure string
  | Panic

record 'k stats_env =
  sv_api :: "'k api_env"
  sv_json :: "json \<Rightarrow> (string, string) result"
  sv_date :: "time \<Rightarrow> string"
  sv_rfc3339_secs :: "time \<Rightarrow> string"
  sv_f64 :: "rat \<Rightarrow> string"
  sv_duration_ok :: "nat \<Rightarrow> bool"
  sv_instant_ok :: "time \<Rightarrow> bool"
  sv_heap_order :: "string list \<Rightarrow> string list"

text \<open>The error body is put together from text, with double quotes turned into single ones.\<close>

definition error_body :: "string \<Rightarrow> string" where
  "error_body err = ''{'' @ [CHR 0x22] @ ''error'' @ [CHR 0x22] @ '':'' @ [CHR 0x22] @
     map (\<lambda>c. if c = CHR 0x22 then CHR 0x27 else c) err @ [CHR 0x22] @ ''}''"

record stats_clock =
  sq_asked :: instant
  sq_done :: instant
  sq_utc :: time

type_synonym 'a computation = "pool \<Rightarrow> (stats_failure, 'a) result \<times> pool"

definition with_cache ::
  "'k stats_env \<Rightarrow> string \<Rightarrow> duration \<Rightarrow> nat \<Rightarrow> json computation \<Rightarrow> stats_clock \<Rightarrow> stats_cache \<times> pool \<Rightarrow>
   stats_reply \<times> stats_cache \<times> pool" where
  "with_cache E key ttl max_age compute q st =
     (case stats_get_fresh (fst st) key ttl (sq_asked q) of
        Some cached \<Rightarrow> (Stats_ok cached max_age, st)
      | None \<Rightarrow>
          (case compute (snd st) of
             (Inl (Failure e), p') \<Rightarrow> (Stats_error (error_body e), fst st, p')
           | (Inl Panic, p') \<Rightarrow> (Stats_panic, fst st, p')
           | (Inr payload, p') \<Rightarrow>
               (case sv_json E payload of
                  Inl e \<Rightarrow> (Stats_error (error_body e), fst st, p')
                | Inr body \<Rightarrow> (Stats_ok body max_age, stats_put key body (sq_done q) (fst st), p'))))"

text \<open>A query under a context, and the rendering of what was computed.\<close>

definition query_ctx :: "pg \<Rightarrow> string \<Rightarrow> 'a stmt \<Rightarrow> 'a computation" where
  "query_ctx P ctx q p = (case exec P q p of (Inl _, p') \<Rightarrow> (Inl (Failure ctx), p') | (Inr a, p') \<Rightarrow> (Inr a, p'))"

definition select :: "'k stats_env \<Rightarrow> string \<Rightarrow> (db \<Rightarrow> 'a) \<Rightarrow> 'a computation" where
  "select E ctx q = query_ctx (ae_pg (sv_api E)) ctx (\<lambda>_ d. Inr (d, q d))"

definition yielding :: "'a computation \<Rightarrow> ('a \<Rightarrow> 'b) \<Rightarrow> 'b computation" where
  "yielding m f = op_bind m (\<lambda>a. op_ok (f a))"

lemma select_simps [simp]:
  "\<not> pg_fault (ae_pg (sv_api E)) (p_seq p) \<Longrightarrow>
     select E ctx q p = (Inr (q (p_db p)), p\<lparr>p_seq := Suc (p_seq p)\<rparr>)"
  "pg_fault (ae_pg (sv_api E)) (p_seq p) \<Longrightarrow>
     select E ctx q p = (Inl (Failure ctx), p\<lparr>p_seq := Suc (p_seq p)\<rparr>)"
  by (simp_all add: select_def query_ctx_def exec_def Let_def)

lemma yielding_simps:
  "m p = (Inr a, p') \<Longrightarrow> yielding m f p = (Inr (f a), p')"
  "m p = (Inl e, p') \<Longrightarrow> yielding m f p = (Inl e, p')"
  by (simp_all add: yielding_def op_bind_def)

lemma yielding_Inr: "yielding m f p = (Inr b, p') \<longleftrightarrow> (\<exists>a. m p = (Inr a, p') \<and> b = f a)"
  by (auto simp: yielding_def op_bind_def split: prod.splits sum.splits)

definition capped :: "u32 option \<Rightarrow> nat \<Rightarrow> nat \<Rightarrow> nat" where
  "capped x dflt cap = min (case x of Some n \<Rightarrow> unat n | None \<Rightarrow> dflt) cap"

section \<open>Totals\<close>

record totals_response =
  tot_indexed_at_slot :: int
  tot_blocks :: int
  tot_txs_total :: int
  tot_txs_committed :: int
  tot_addresses :: int
  tot_schemas :: int
  tot_attestor_sets :: int
  tot_attestations :: int
  tot_total_supply_nano :: "string option"
  tot_treasury_balance_nano :: "string option"
  tot_treasury_address :: "string option"

definition count_rows :: "'a list \<Rightarrow> int" where
  "count_rows rows = int (length rows)"

definition treasury_of :: "bank \<Rightarrow> 'key signer \<Rightarrow> string option \<Rightarrow> string option \<times> string option" where
  "treasury_of B sg addr =
     (case addr of
        None \<Rightarrow> (None, None)
      | Some a \<Rightarrow> (case query_balance_for B sg a of Inr n \<Rightarrow> (Some (show_nat n), Some a) | Inl _ \<Rightarrow> (None, None)))"

definition compute_totals :: "'k stats_env \<Rightarrow> bank \<Rightarrow> 'key signer \<Rightarrow> string option \<Rightarrow> totals_response computation" where
  "compute_totals E B sg treasury =
     op_bind (select E ''count slots'' (\<lambda>d. count_rows (slots d))) (\<lambda>blocks.
     op_bind (select E ''count txs total'' (\<lambda>d. count_rows (transactions d))) (\<lambda>txs_total.
     op_bind (select E ''count txs committed''
       (\<lambda>d. count_rows (filter (\<lambda>t. t_outcome t = ''committed'') (transactions d)))) (\<lambda>txs_committed.
     op_bind (select E ''count addresses'' (\<lambda>d. count_rows (address_summaries d))) (\<lambda>addresses.
     op_bind (select E ''count schemas'' (\<lambda>d. count_rows (schemas d))) (\<lambda>schema_count.
     op_bind (select E ''count attestor_sets'' (\<lambda>d. count_rows (attestor_sets d))) (\<lambda>set_count.
     op_bind (select E ''count attestations'' (\<lambda>d. count_rows (attestations d))) (\<lambda>attestation_count.
     op_bind (select E ''max slot'' (\<lambda>d. max_height (slots d))) (\<lambda>indexed_at_slot.
     op_ok
       \<lparr>tot_indexed_at_slot = (case indexed_at_slot of Some h \<Rightarrow> h | None \<Rightarrow> 0),
        tot_blocks = blocks, tot_txs_total = txs_total, tot_txs_committed = txs_committed,
        tot_addresses = addresses, tot_schemas = schema_count, tot_attestor_sets = set_count,
        tot_attestations = attestation_count,
        tot_total_supply_nano = (case query_total_supply B sg of Inr n \<Rightarrow> Some (show_nat n) | Inl _ \<Rightarrow> None),
        tot_treasury_balance_nano = fst (treasury_of B sg treasury),
        tot_treasury_address = snd (treasury_of B sg treasury)\<rparr>))))))))"

definition ser_totals :: "totals_response \<Rightarrow> json" where
  "ser_totals r = JObject
     ([(''indexed_at_slot'', JInt (tot_indexed_at_slot r)), (''blocks'', JInt (tot_blocks r)),
       (''txs_total'', JInt (tot_txs_total r)), (''txs_committed'', JInt (tot_txs_committed r)),
       (''addresses'', JInt (tot_addresses r)), (''schemas'', JInt (tot_schemas r)),
       (''attestor_sets'', JInt (tot_attestor_sets r)), (''attestations'', JInt (tot_attestations r))] @
      json_skip_none ''total_supply_nano'' JString (tot_total_supply_nano r) @
      json_skip_none ''treasury_balance_nano'' JString (tot_treasury_balance_nano r) @
      json_skip_none ''treasury_address'' JString (tot_treasury_address r))"

definition totals ::
  "'k stats_env \<Rightarrow> bank \<Rightarrow> 'key signer \<Rightarrow> config \<Rightarrow> stats_clock \<Rightarrow> stats_cache \<times> pool \<Rightarrow>
   stats_reply \<times> stats_cache \<times> pool" where
  "totals E B sg c = with_cache E ''totals'' DEFAULT_TTL TTL_STATS_TOTALS_SECS
     (yielding (compute_totals E B sg (cf_avow_treasury_addr c)) ser_totals)"

section \<open>Active addresses\<close>

text \<open>A window is a number and one of four units; the conversion to seconds is checked.\<close>

definition is_digit :: "char \<Rightarrow> bool" where
  "is_digit c \<longleftrightarrow> digit_val c \<noteq> None"

definition checked_mul_u64 :: "nat \<Rightarrow> nat \<Rightarrow> nat option" where
  "checked_mul_u64 a b = (if a * b < 2 ^ 64 then Some (a * b) else None)"

definition quoted :: "string \<Rightarrow> string" where
  "quoted s = [CHR 0x27] @ s @ [CHR 0x27]"

definition parse_interval :: "string \<Rightarrow> (string, nat) result" where
  "parse_interval s =
     (let num = takeWhile is_digit s; unit = dropWhile is_digit s in
      if unit = [] then Inl (''window '' @ quoted s @ '' missing unit (h/d/m/s)'')
      else case parse_uint (2 ^ 64) num of
             None \<Rightarrow> Inl (''window '' @ quoted s @ '': expected leading integer'')
           | Some n \<Rightarrow>
               if unit = ''s'' then Inr n
               else if unit = ''m'' then ok_or ''overflow'' (checked_mul_u64 n 60)
               else if unit = ''h'' then ok_or ''overflow'' (checked_mul_u64 n 3600)
               else if unit = ''d'' then ok_or ''overflow'' (checked_mul_u64 n 86400)
               else Inl (''window '' @ quoted s @ '': unknown unit '' @ quoted unit @ '' (expected s/m/h/d)''))"

record active_addresses_response =
  aa_window :: string
  aa_since :: string
  aa_count :: int

text \<open>The subtraction from the current time panics outside chrono's range.\<close>

definition active_since :: "'k stats_env \<Rightarrow> time \<Rightarrow> nat \<Rightarrow> (stats_failure, time) result" where
  "active_since E now interval =
     (if \<not> sv_duration_ok E interval then Inl (Failure ''window too long'')
      else let since = now - int interval * 1000000
           in if sv_instant_ok E since then Inr since else Inl Panic)"

definition active_count :: "time \<Rightarrow> db \<Rightarrow> int" where
  "active_count since d =
     count_rows (filter (\<lambda>r. case ad_last_seen_timestamp r of Some t \<Rightarrow> since \<le> t | None \<Rightarrow> False) (address_summaries d))"

definition compute_active_addresses ::
  "'k stats_env \<Rightarrow> time \<Rightarrow> string \<Rightarrow> nat \<Rightarrow> active_addresses_response computation" where
  "compute_active_addresses E now window_label interval p =
     (case active_since E now interval of
        Inl f \<Rightarrow> (Inl f, p)
      | Inr since \<Rightarrow>
          yielding (select E ''count active addresses'' (active_count since)) (\<lambda>n.
            \<lparr>aa_window = window_label, aa_since = sv_rfc3339_secs E since, aa_count = n\<rparr>) p)"

definition ser_active_addresses :: "active_addresses_response \<Rightarrow> json" where
  "ser_active_addresses r =
     JObject [(''window'', JString (aa_window r)), (''since'', JString (aa_since r)), (''count'', JInt (aa_count r))]"

definition active_addresses ::
  "'k stats_env \<Rightarrow> string option \<Rightarrow> stats_clock \<Rightarrow> stats_cache \<times> pool \<Rightarrow> stats_reply \<times> stats_cache \<times> pool" where
  "active_addresses E window_param q st =
     (let window = (case window_param of Some w \<Rightarrow> w | None \<Rightarrow> ''24h'') in
      case parse_interval window of
        Inl e \<Rightarrow> (Stats_error (error_body e), st)
      | Inr interval \<Rightarrow>
          with_cache E (''active-addresses:'' @ window) DEFAULT_TTL TTL_STATS_DEFAULT_SECS
            (yielding (compute_active_addresses E (sq_utc q) window interval) ser_active_addresses) q st)"

section \<open>Daily series\<close>

definition MICROS_PER_DAY :: int where
  "MICROS_PER_DAY = 86400000000"

definition trunc_day :: "time \<Rightarrow> time" where
  "trunc_day t = t - t mod MICROS_PER_DAY"

text \<open>\<^verbatim>\<open>GROUP BY key\<close> with \<^verbatim>\<open>COUNT(*)\<close>.\<close>

definition group_count :: "('r \<Rightarrow> 'g) \<Rightarrow> 'r list \<Rightarrow> ('g \<times> nat) list" where
  "group_count key rows = map (\<lambda>g. (g, length (filter (\<lambda>r. key r = g) rows))) (remdups (map key rows))"

definition daily :: "time \<Rightarrow> time list \<Rightarrow> (time \<times> nat) list" where
  "daily since ts = sort_key fst (group_count trunc_day (filter (\<lambda>t. since \<le> t) ts))"

definition days_ago :: "time \<Rightarrow> nat \<Rightarrow> time" where
  "days_ago now days = now - int days * MICROS_PER_DAY"

record daily_point =
  dp_date :: string
  dp_count :: int

record daily_response =
  dr_days :: nat
  dr_points :: "daily_point list"

definition daily_points :: "'k stats_env \<Rightarrow> (time \<times> nat) list \<Rightarrow> daily_point list" where
  "daily_points E rows = map (\<lambda>(day, n). \<lparr>dp_date = sv_date E day, dp_count = int n\<rparr>) rows"

definition compute_new_wallets_daily :: "'k stats_env \<Rightarrow> time \<Rightarrow> nat \<Rightarrow> daily_response computation" where
  "compute_new_wallets_daily E now days =
     yielding (select E ''daily new-wallets bucket''
         (\<lambda>d. daily (days_ago now days) (List.map_filter ad_first_seen_timestamp (address_summaries d))))
       (\<lambda>rows. \<lparr>dr_days = days, dr_points = daily_points E rows\<rparr>)"

definition compute_attestations_daily :: "'k stats_env \<Rightarrow> time \<Rightarrow> nat \<Rightarrow> daily_response computation" where
  "compute_attestations_daily E now days =
     yielding (select E ''daily attestations bucket''
         (\<lambda>d. daily (days_ago now days) (map at_timestamp (attestations d))))
       (\<lambda>rows. \<lparr>dr_days = days, dr_points = daily_points E rows\<rparr>)"

definition ser_daily :: "daily_response \<Rightarrow> json" where
  "ser_daily r = JObject [(''days'', JInt (int (dr_days r))),
     (''points'', JArray (map (\<lambda>x. JObject [(''date'', JString (dp_date x)), (''count'', JInt (dp_count x))]) (dr_points r)))]"

definition new_wallets_daily ::
  "'k stats_env \<Rightarrow> u32 option \<Rightarrow> stats_clock \<Rightarrow> stats_cache \<times> pool \<Rightarrow> stats_reply \<times> stats_cache \<times> pool" where
  "new_wallets_daily E days_param q =
     (let days = capped days_param 7 90 in
      with_cache E (''new-wallets-daily:'' @ show_nat days) DEFAULT_TTL TTL_STATS_DEFAULT_SECS
        (yielding (compute_new_wallets_daily E (sq_utc q) days) ser_daily) q)"

definition attestations_daily ::
  "'k stats_env \<Rightarrow> u32 option \<Rightarrow> stats_clock \<Rightarrow> stats_cache \<times> pool \<Rightarrow> stats_reply \<times> stats_cache \<times> pool" where
  "attestations_daily E days_param q =
     (let days = capped days_param 30 90 in
      with_cache E (''attestations-daily:'' @ show_nat days) DEFAULT_TTL TTL_STATS_DEFAULT_SECS
        (yielding (compute_attestations_daily E (sq_utc q) days) ser_daily) q)"

record tx_rate_point =
  tr_date :: string
  tr_kind :: string
  tr_outcome :: string
  tr_count :: int

record tx_rate_daily_response =
  trr_days :: nat
  trr_points :: "tx_rate_point list"

definition tx_rate_group :: "tx_join \<Rightarrow> time \<times> string \<times> string" where
  "tx_rate_group j = (trunc_day (s_timestamp (snd j)), t_kind (fst j), t_outcome (fst j))"

definition tx_rate_rows :: "('k :: linorder) stats_env \<Rightarrow> time \<Rightarrow> db \<Rightarrow> ((time \<times> string \<times> string) \<times> nat) list" where
  "tx_rate_rows E since d =
     sort_key (\<lambda>((day, kind, out), _). (day, collate (sv_api E) kind, collate (sv_api E) out))
       (group_count tx_rate_group (filter (\<lambda>j. since \<le> s_timestamp (snd j)) (transactions_join_slots d)))"

definition compute_tx_rate_daily :: "('k :: linorder) stats_env \<Rightarrow> time \<Rightarrow> nat \<Rightarrow> tx_rate_daily_response computation" where
  "compute_tx_rate_daily E now days =
     yielding (select E ''daily tx-rate bucket'' (tx_rate_rows E (days_ago now days))) (\<lambda>rows.
       \<lparr>trr_days = days,
        trr_points = map (\<lambda>((day, kind, out), n).
          \<lparr>tr_date = sv_date E day, tr_kind = kind, tr_outcome = out, tr_count = int n\<rparr>) rows\<rparr>)"

definition ser_tx_rate_daily :: "tx_rate_daily_response \<Rightarrow> json" where
  "ser_tx_rate_daily r = JObject [(''days'', JInt (int (trr_days r))),
     (''points'', JArray (map (\<lambda>x. JObject [(''date'', JString (tr_date x)), (''kind'', JString (tr_kind x)),
        (''outcome'', JString (tr_outcome x)), (''count'', JInt (tr_count x))]) (trr_points r)))]"

definition tx_rate_daily ::
  "('k :: linorder) stats_env \<Rightarrow> u32 option \<Rightarrow> stats_clock \<Rightarrow> stats_cache \<times> pool \<Rightarrow> stats_reply \<times> stats_cache \<times> pool" where
  "tx_rate_daily E days_param q =
     (let days = capped days_param 7 90 in
      with_cache E (''tx-rate-daily:'' @ show_nat days) DEFAULT_TTL TTL_STATS_DEFAULT_SECS
        (yielding (compute_tx_rate_daily E (sq_utc q) days) ser_tx_rate_daily) q)"

section \<open>Drips by day and source\<close>

record drips_daily_point =
  dd_date :: string
  dd_web :: int
  dd_bot :: int
  dd_total :: int

record drips_daily_response =
  ddr_days :: nat
  ddr_faucet_address :: string
  ddr_points :: "drips_daily_point list"

definition web_drip_times :: "string \<Rightarrow> db \<Rightarrow> time list" where
  "web_drip_times faucet_addr d =
     map t_indexed_at (filter (\<lambda>t. t_sender t = Some faucet_addr \<and> t_kind t = ''transfer'') (transactions d))"

text \<open>
  The ordered map keyed by the text of the day, read out in ascending order of the text at the end:
  \<^verbatim>\<open>entry(key).or_insert((0, 0))\<close> with one of the two components set.
\<close>

type_synonym day_map = "(string \<times> int \<times> int) list"

definition set_web :: "'k stats_env \<Rightarrow> time \<times> nat \<Rightarrow> day_map \<Rightarrow> day_map" where
  "set_web E row m = upsert fst (sv_date E (fst row), int (snd row), 0)
     (\<lambda>e. (fst e, int (snd row), snd (snd e))) m"

definition set_bot :: "'k stats_env \<Rightarrow> time \<times> nat \<Rightarrow> day_map \<Rightarrow> day_map" where
  "set_bot E row m = upsert fst (sv_date E (fst row), 0, int (snd row))
     (\<lambda>e. (fst e, fst (snd e), int (snd row))) m"

definition merge_by_day :: "'k stats_env \<Rightarrow> (time \<times> nat) list \<Rightarrow> (time \<times> nat) list \<Rightarrow> day_map" where
  "merge_by_day E web_rows bot_rows = sort_key fst (fold (set_bot E) bot_rows (fold (set_web E) web_rows []))"

definition compute_drips_daily :: "'k stats_env \<Rightarrow> time \<Rightarrow> nat \<Rightarrow> string \<Rightarrow> drips_daily_response computation" where
  "compute_drips_daily E now days faucet_addr =
     (let since = days_ago now days in
      op_bind (select E ''daily web-drips bucket'' (\<lambda>d. daily since (web_drip_times faucet_addr d))) (\<lambda>web_rows.
      op_bind (select E ''daily bot-drips bucket'' (\<lambda>d. daily since (map bd_dripped_at (bot_drips d)))) (\<lambda>bot_rows.
      op_ok \<lparr>ddr_days = days, ddr_faucet_address = faucet_addr,
        ddr_points = map (\<lambda>(date, web, bot). \<lparr>dd_date = date, dd_web = web, dd_bot = bot, dd_total = web + bot\<rparr>)
          (merge_by_day E web_rows bot_rows)\<rparr>)))"

definition ser_drips_daily :: "drips_daily_response \<Rightarrow> json" where
  "ser_drips_daily r = JObject [(''days'', JInt (int (ddr_days r))), (''faucet_address'', JString (ddr_faucet_address r)),
     (''points'', JArray (map (\<lambda>x. JObject [(''date'', JString (dd_date x)), (''web'', JInt (dd_web x)),
        (''bot'', JInt (dd_bot x)), (''total'', JInt (dd_total x))]) (ddr_points r)))]"

definition drips_daily ::
  "'k stats_env \<Rightarrow> ('key, 'addr) sdk \<Rightarrow> 'key signer \<Rightarrow> u32 option \<Rightarrow> stats_clock \<Rightarrow> stats_cache \<times> pool \<Rightarrow>
   stats_reply \<times> stats_cache \<times> pool" where
  "drips_daily E S sg days_param q =
     (let days = capped days_param 30 90; faucet_addr = signer_address S sg in
      with_cache E (''drips-daily:'' @ faucet_addr @ '':'' @ show_nat days) DEFAULT_TTL TTL_STATS_DEFAULT_SECS
        (yielding (compute_drips_daily E (sq_utc q) days faucet_addr) ser_drips_daily) q)"

section \<open>Leaderboards\<close>

record top_address_rank =
  rk_rank :: u32
  rk_address :: string
  rk_count :: int

record leaderboard_response =
  lb_window :: string
  lb_rows :: "top_address_rank list"

definition ranks :: "(string \<times> int) list \<Rightarrow> top_address_rank list" where
  "ranks rows = map (\<lambda>(i, address, n). \<lparr>rk_rank = of_nat i + 1, rk_address = address, rk_count = n\<rparr>) (List.enumerate 0 rows)"

definition leaderboard :: "(string \<times> int) list \<Rightarrow> leaderboard_response" where
  "leaderboard rows = \<lparr>lb_window = ''all-time'', lb_rows = ranks rows\<rparr>"

text \<open>\<^verbatim>\<open>ORDER BY count DESC, key ASC LIMIT n\<close>.\<close>

definition top_rows :: "('k :: linorder) stats_env \<Rightarrow> nat \<Rightarrow> (string \<times> int) list \<Rightarrow> (string \<times> int) list" where
  "top_rows E n rows = take n (sort_key (\<lambda>(key, c). (- c, collate (sv_api E) key)) rows)"

definition counted :: "('r \<Rightarrow> string) \<Rightarrow> 'r list \<Rightarrow> (string \<times> int) list" where
  "counted key rows = map (apsnd int) (group_count key rows)"

definition compute_top_attesters :: "('k :: linorder) stats_env \<Rightarrow> nat \<Rightarrow> leaderboard_response computation" where
  "compute_top_attesters E n =
     yielding (select E ''top-attesters query'' (\<lambda>d. top_rows E n (counted at_submitter (attestations d)))) leaderboard"

definition compute_top_schema_owners :: "('k :: linorder) stats_env \<Rightarrow> nat \<Rightarrow> leaderboard_response computation" where
  "compute_top_schema_owners E n =
     yielding (select E ''top-schema-owners query'' (\<lambda>d. top_rows E n (counted sc_owner (schemas d)))) leaderboard"

definition compute_top_attestor_sets :: "('k :: linorder) stats_env \<Rightarrow> nat \<Rightarrow> leaderboard_response computation" where
  "compute_top_attestor_sets E n =
     yielding (select E ''top-attestor-sets query'' (\<lambda>d. top_rows E n
         (map (\<lambda>r. (as_id r, as_schema_count r)) (filter (\<lambda>r. as_schema_count r > 0) (attestor_sets d))))) leaderboard"

definition ser_leaderboard :: "leaderboard_response \<Rightarrow> json" where
  "ser_leaderboard r = JObject [(''window'', JString (lb_window r)),
     (''rows'', JArray (map (\<lambda>x. JObject [(''rank'', JInt (uint (rk_rank x))), (''address'', JString (rk_address x)),
        (''count'', JInt (rk_count x))]) (lb_rows r)))]"

definition top_attesters ::
  "('k :: linorder) stats_env \<Rightarrow> u32 option \<Rightarrow> stats_clock \<Rightarrow> stats_cache \<times> pool \<Rightarrow> stats_reply \<times> stats_cache \<times> pool" where
  "top_attesters E n_param =
     (let n = capped n_param 10 100 in
      with_cache E (''top-attesters:'' @ show_nat n) DEFAULT_TTL TTL_STATS_DEFAULT_SECS
        (yielding (compute_top_attesters E n) ser_leaderboard))"

definition top_schema_owners ::
  "('k :: linorder) stats_env \<Rightarrow> u32 option \<Rightarrow> stats_clock \<Rightarrow> stats_cache \<times> pool \<Rightarrow> stats_reply \<times> stats_cache \<times> pool" where
  "top_schema_owners E n_param =
     (let n = capped n_param 10 100 in
      with_cache E (''top-schema-owners:'' @ show_nat n) DEFAULT_TTL TTL_STATS_DEFAULT_SECS
        (yielding (compute_top_schema_owners E n) ser_leaderboard))"

definition top_attestor_sets ::
  "('k :: linorder) stats_env \<Rightarrow> u32 option \<Rightarrow> stats_clock \<Rightarrow> stats_cache \<times> pool \<Rightarrow> stats_reply \<times> stats_cache \<times> pool" where
  "top_attestor_sets E n_param =
     (let n = capped n_param 10 100 in
      with_cache E (''top-attestor-sets:'' @ show_nat n) DEFAULT_TTL TTL_STATS_DEFAULT_SECS
        (yielding (compute_top_attestor_sets E n) ser_leaderboard))"

section \<open>Top holders\<close>

record top_holder =
  th_rank :: u32
  th_address :: string
  th_balance_nano :: string
  th_balance_avow :: rat

record top_holders_response =
  thr_source :: string
  thr_holders :: "top_holder list"

text \<open>The loop over the candidates: an address whose balance query fails is left out.\<close>

fun with_balances :: "(string \<Rightarrow> (string, nat) result) \<Rightarrow> string list \<Rightarrow> (string \<times> nat) list" where
  "with_balances balance [] = []"
| "with_balances balance (a # as) =
     (case balance a of Inr b \<Rightarrow> (a, b) # with_balances balance as | Inl _ \<Rightarrow> with_balances balance as)"

definition CANDIDATES :: nat where
  "CANDIDATES = 1000"

definition holders_of :: "nat \<Rightarrow> (string \<times> nat) list \<Rightarrow> top_holder list" where
  "holders_of n with_balance =
     map (\<lambda>(i, address, b). \<lparr>th_rank = of_nat i + 1, th_address = address, th_balance_nano = show_nat b,
            th_balance_avow = rat_of_nat b / 1000000000\<rparr>)
       (List.enumerate 0 (take n (sort_key (\<lambda>(_, b). - int b) with_balance)))"

definition compute_top_holders :: "'k stats_env \<Rightarrow> bank \<Rightarrow> 'key signer \<Rightarrow> nat \<Rightarrow> top_holders_response computation" where
  "compute_top_holders E B sg n =
     yielding (select E ''address-summary list''
         (\<lambda>d. take CANDIDATES (sv_heap_order E (map ad_address (address_summaries d))))) (\<lambda>addresses.
       \<lparr>thr_source = ''chain'', thr_holders = holders_of n (with_balances (query_balance_for B sg) addresses)\<rparr>)"

definition ser_top_holders :: "'k stats_env \<Rightarrow> top_holders_response \<Rightarrow> json" where
  "ser_top_holders E r = JObject [(''source'', JString (thr_source r)),
     (''holders'', JArray (map (\<lambda>x. JObject [(''rank'', JInt (uint (th_rank x))), (''address'', JString (th_address x)),
        (''balance_nano'', JString (th_balance_nano x)), (''balance_avow'', JFloat (sv_f64 E (th_balance_avow x)))]) (thr_holders r)))]"

definition top_holders ::
  "'k stats_env \<Rightarrow> bank \<Rightarrow> 'key signer \<Rightarrow> u32 option \<Rightarrow> stats_clock \<Rightarrow> stats_cache \<times> pool \<Rightarrow>
   stats_reply \<times> stats_cache \<times> pool" where
  "top_holders E B sg n_param =
     (let n = capped n_param 10 100 in
      with_cache E (''top-holders:'' @ show_nat n) DEFAULT_TTL TTL_STATS_DEFAULT_SECS
        (yielding (compute_top_holders E B sg n) (ser_top_holders E)))"

section \<open>A concrete environment\<close>

text \<open>For the witnesses: no failures, and the texts of numbers in place of dates.\<close>

definition plain_api :: "string api_env" where
  "plain_api = \<lparr>ae_pg = calm_pg, ae_codec = net_codec, collate = (\<lambda>s. s), rfc3339_millis = show_int,
     bigdecimal_text = show_int, jsonb_text = (\<lambda>_. [])\<rparr>"

definition plain_stats :: "string stats_env" where
  "plain_stats = \<lparr>sv_api = plain_api, sv_json = (\<lambda>_. Inr ''body''), sv_date = (\<lambda>t. show_int (t div MICROS_PER_DAY)),
     sv_rfc3339_secs = show_int, sv_f64 = (\<lambda>_. []), sv_duration_ok = (\<lambda>_. True), sv_instant_ok = (\<lambda>_. True),
     sv_heap_order = (\<lambda>xs. xs)\<rparr>"

lemma plain_stats_simps [simp]:
  "ae_pg (sv_api plain_stats) = calm_pg"
  "collate (sv_api plain_stats) = (\<lambda>s. s)"
  "sv_json plain_stats v = Inr ''body''"
  "sv_date plain_stats t = show_int (t div MICROS_PER_DAY)"
  by (simp_all add: plain_stats_def plain_api_def)

lemma plain_dates: "inj_on (sv_date plain_stats) (range trunc_day)"
proof (rule inj_onI)
  fix a b assume "a \<in> range trunc_day" "b \<in> range trunc_day" and e: "sv_date plain_stats a = sv_date plain_stats b"
  then obtain x y where xy: "a = trunc_day x" "b = trunc_day y" by blast
  have "a div MICROS_PER_DAY = b div MICROS_PER_DAY"
    using e by (metis option.inject parse_int_show_int plain_stats_simps(4))
  moreover have "trunc_day t = t div MICROS_PER_DAY * MICROS_PER_DAY" for t
    by (simp add: trunc_day_def minus_mod_eq_div_mult)
  ultimately show "a = b" using xy by (simp add: MICROS_PER_DAY_def)
qed

end
