(* ===== verification/Estimates.thy ===== *)
theory Estimates
  imports Stats Client "HOL-Library.Multiset"
begin

text \<open>
  The two estimates of \<^verbatim>\<open>crates/api/src/stats.rs\<close>: how long finalisation takes, from the
  stamps the indexer wrote, and when the next block is due, from the times of the last hundred slots.
  Seconds are rational numbers: the double-precision arithmetic of the source is taken as exact. The
  percentiles of Postgres (\<^verbatim>\<open>percentile_cont\<close>) interpolate between neighbouring samples.
\<close>

section \<open>Finality\<close>

definition interpolate :: "rat list \<Rightarrow> rat \<Rightarrow> rat" where
  "interpolate ys rn =
     (let lo = ys ! nat \<lfloor>rn\<rfloor>; hi = ys ! nat \<lceil>rn\<rceil> in lo + (rn - of_int \<lfloor>rn\<rfloor>) * (hi - lo))"

definition percentile_cont :: "rat \<Rightarrow> rat list \<Rightarrow> rat option" where
  "percentile_cont q xs =
     (if xs = [] then None else Some (interpolate (sort xs) (q * of_nat (length xs - 1))))"

definition seconds :: "time \<Rightarrow> rat" where
  "seconds d = of_int d / 1000000"

record finality_response =
  fin_window :: string
  fin_sampled_count :: u32
  fin_p50_seconds :: rat
  fin_p95_seconds :: rat
  fin_p99_seconds :: rat
  fin_da_layer :: string
  fin_source :: string
  fin_as_of :: string

definition FINALITY_MIN_SAMPLES :: int where
  "FINALITY_MIN_SAMPLES = 20"

definition MICROS_PER_HOUR :: int where
  "MICROS_PER_HOUR = 3600000000"

definition estimated_finality :: "'k stats_env \<Rightarrow> time \<Rightarrow> finality_response" where
  "estimated_finality E now =
     \<lparr>fin_window = ''static'', fin_sampled_count = 0, fin_p50_seconds = 12, fin_p95_seconds = 15,
      fin_p99_seconds = 15, fin_da_layer = ''celestia-mocha'', fin_source = ''estimated'',
      fin_as_of = sv_rfc3339_secs E now\<rparr>"

definition finality_samples :: "time \<Rightarrow> db \<Rightarrow> rat list" where
  "finality_samples t d =
     List.map_filter (\<lambda>r. case s_finalized_at r of
         Some f \<Rightarrow> if f > t - MICROS_PER_HOUR then Some (seconds (f - s_timestamp r)) else None
       | None \<Rightarrow> None) (slots d)"

type_synonym finality_row = "rat option \<times> rat option \<times> rat option \<times> int"

definition finality_query :: "finality_row stmt" where
  "finality_query t d =
     (let xs = finality_samples t d
      in Inr (d, percentile_cont (1 / 2) xs, percentile_cont (19 / 20) xs, percentile_cont (99 / 100) xs, int (length xs)))"

definition or_else :: "'a \<Rightarrow> 'a option \<Rightarrow> 'a" where
  "or_else dflt x = (case x of Some a \<Rightarrow> a | None \<Rightarrow> dflt)"

definition compute_observed_finality :: "'k stats_env \<Rightarrow> time \<Rightarrow> finality_response computation" where
  "compute_observed_finality E now =
     yielding (query_ctx (ae_pg (sv_api E)) ''running finality percentile query'' finality_query)
       (\<lambda>(p50, p95, p99, n).
          if n < FINALITY_MIN_SAMPLES then estimated_finality E now
          else \<lparr>fin_window = ''1h'', fin_sampled_count = word_of_int n, fin_p50_seconds = or_else 12 p50,
                fin_p95_seconds = or_else 15 p95, fin_p99_seconds = or_else 15 p99,
                fin_da_layer = ''celestia-mocha'', fin_source = ''observed'', fin_as_of = sv_rfc3339_secs E now\<rparr>)"

text \<open>A failed query falls back to the estimate.\<close>

definition finality_payload :: "'k stats_env \<Rightarrow> time \<Rightarrow> finality_response computation" where
  "finality_payload E now p =
     (case compute_observed_finality E now p of
        (Inr r, p') \<Rightarrow> (Inr r, p')
      | (Inl _, p') \<Rightarrow> (Inr (estimated_finality E now), p'))"

definition ser_finality :: "'k stats_env \<Rightarrow> finality_response \<Rightarrow> json" where
  "ser_finality E r = JObject
     [(''window'', JString (fin_window r)), (''sampled_count'', JInt (uint (fin_sampled_count r))),
      (''p50_seconds'', JFloat (sv_f64 E (fin_p50_seconds r))), (''p95_seconds'', JFloat (sv_f64 E (fin_p95_seconds r))),
      (''p99_seconds'', JFloat (sv_f64 E (fin_p99_seconds r))), (''da_layer'', JString (fin_da_layer r)),
      (''source'', JString (fin_source r)), (''as_of'', JString (fin_as_of r))]"

definition finality ::
  "'k stats_env \<Rightarrow> stats_clock \<Rightarrow> stats_cache \<times> pool \<Rightarrow> stats_reply \<times> stats_cache \<times> pool" where
  "finality E q = with_cache E ''finality'' DEFAULT_TTL TTL_STATS_DEFAULT_SECS
     (yielding (finality_payload E (sq_utc q)) (ser_finality E)) q"

section \<open>Next block\<close>

record next_block_eta_response =
  eta_last_block_height :: int
  eta_last_block_timestamp :: string
  eta_mean_block_interval_secs :: "rat option"
  eta_p95_block_interval_secs :: "rat option"
  eta_expected_next_at :: "string option"
  eta_seconds_since_last :: rat
  eta_seconds_until_expected :: "rat option"
  eta_indexer_lag_secs :: rat

text \<open>\<^verbatim>\<open>num_milliseconds()\<close> cuts towards zero.\<close>

definition num_milliseconds :: "time \<Rightarrow> int" where
  "num_milliseconds d = sgn d * (\<bar>d\<bar> div 1000)"

definition secs_between :: "time \<Rightarrow> time \<Rightarrow> rat" where
  "secs_between later earlier = of_int (num_milliseconds (later - earlier)) / 1000"

text \<open>The positive intervals between neighbours, newest first.\<close>

fun intervals :: "(int \<times> time) list \<Rightarrow> rat list" where
  "intervals (newer # older # rows) =
     (let delta = secs_between (snd newer) (snd older); rest = intervals (older # rows)
      in if delta > 0 then delta # rest else rest)"
| "intervals _ = []"

definition mean_of :: "rat list \<Rightarrow> rat" where
  "mean_of ds = sum_list ds / of_nat (length ds)"

definition p95_of :: "rat list \<Rightarrow> rat" where
  "p95_of ds =
     (let p95_idx = nat \<lceil>of_nat (length ds) * (19 / 20 :: rat)\<rceil> - 1
      in sort ds ! min p95_idx (length ds - 1))"

definition recent_slots :: "db \<Rightarrow> (int \<times> time) list" where
  "recent_slots d = map (\<lambda>r. (s_height r, s_timestamp r)) (take 100 (desc s_height (slots d)))"

definition eta_of :: "'k stats_env \<Rightarrow> time \<Rightarrow> u64 option \<Rightarrow> int \<times> time \<Rightarrow> rat list \<Rightarrow> next_block_eta_response" where
  "eta_of E now chain_head latest deltas =
     (let (latest_height, latest_ts) = latest;
          mean = (if deltas = [] then None else Some (mean_of deltas));
          expected_at = map_option (\<lambda>m. latest_ts + \<lfloor>m * 1000\<rfloor> * 1000) mean
      in \<lparr>eta_last_block_height = latest_height,
          eta_last_block_timestamp = rfc3339_millis (sv_api E) latest_ts,
          eta_mean_block_interval_secs = mean,
          eta_p95_block_interval_secs = (if deltas = [] then None else Some (p95_of deltas)),
          eta_expected_next_at = map_option (rfc3339_millis (sv_api E)) expected_at,
          eta_seconds_since_last = secs_between now latest_ts,
          eta_seconds_until_expected = map_option (\<lambda>x. secs_between x now) expected_at,
          eta_indexer_lag_secs =
            (case (chain_head, mean) of
               (Some head, Some m) \<Rightarrow> of_int (max 0 (as_i64 (as_u64 (as_i64 head - latest_height)))) * m
             | _ \<Rightarrow> 0)\<rparr>)"

definition compute_next_block_eta ::
  "'k stats_env \<Rightarrow> time \<Rightarrow> u64 option \<Rightarrow> next_block_eta_response computation" where
  "compute_next_block_eta E now chain_head =
     op_bind (select E ''fetching recent slots for next-block-eta'' recent_slots) (\<lambda>rows p.
       case rows of
         [] \<Rightarrow> (Inl (Failure ''no slots indexed yet''), p)
       | latest # _ \<Rightarrow> (Inr (eta_of E now chain_head latest (intervals rows)), p))"

definition chain_head_of :: "(indexer_error, node_client) result \<Rightarrow> pool \<Rightarrow> u64 option \<times> pool" where
  "chain_head_of client p =
     (case client of
        Inl _ \<Rightarrow> (None, p)
      | Inr C \<Rightarrow> (case latest_slot C p of (Inr s, p') \<Rightarrow> (Some (sl_number s), p') | (Inl _, p') \<Rightarrow> (None, p')))"

definition ser_next_block_eta :: "'k stats_env \<Rightarrow> next_block_eta_response \<Rightarrow> json" where
  "ser_next_block_eta E r = JObject
     ([(''last_block_height'', JInt (eta_last_block_height r)),
       (''last_block_timestamp'', JString (eta_last_block_timestamp r))] @
      json_skip_none ''mean_block_interval_secs'' (\<lambda>x. JFloat (sv_f64 E x)) (eta_mean_block_interval_secs r) @
      json_skip_none ''p95_block_interval_secs'' (\<lambda>x. JFloat (sv_f64 E x)) (eta_p95_block_interval_secs r) @
      json_skip_none ''expected_next_at'' JString (eta_expected_next_at r) @
      [(''seconds_since_last'', JFloat (sv_f64 E (eta_seconds_since_last r)))] @
      json_skip_none ''seconds_until_expected'' (\<lambda>x. JFloat (sv_f64 E x)) (eta_seconds_until_expected r) @
      [(''indexer_lag_secs'', JFloat (sv_f64 E (eta_indexer_lag_secs r)))])"

definition next_block_eta ::
  "'k stats_env \<Rightarrow> (indexer_error, node_client) result \<Rightarrow> stats_clock \<Rightarrow> stats_cache \<times> pool \<Rightarrow>
   stats_reply \<times> stats_cache \<times> pool" where
  "next_block_eta E client q =
     with_cache E ''next-block-eta'' ETA_TTL TTL_STATS_NEXT_BLOCK_ETA_SECS
       (\<lambda>p. case chain_head_of client p of (head, p') \<Rightarrow>
          yielding (compute_next_block_eta E (sq_utc q) head) (ser_next_block_eta E) p') q"

section \<open>Percentiles\<close>

lemma interpolate_between:
  assumes "sorted ys" and "0 \<le> r" and "r \<le> of_nat (length ys - 1)" and "ys \<noteq> []"
  shows "ys ! nat \<lfloor>r\<rfloor> \<le> interpolate ys r" and "interpolate ys r \<le> ys ! nat \<lceil>r\<rceil>" and "nat \<lceil>r\<rceil> < length ys"
proof -
  have "\<lceil>r\<rceil> \<le> int (length ys - 1)" using ceiling_mono [OF assms(3)] by simp
  then show hi: "nat \<lceil>r\<rceil> < length ys" using assms(4) by (cases ys) auto
  have "nat \<lfloor>r\<rfloor> \<le> nat \<lceil>r\<rceil>" by (intro nat_mono floor_le_ceiling)
  then have le: "ys ! nat \<lfloor>r\<rfloor> \<le> ys ! nat \<lceil>r\<rceil>" using hi assms(1) by (simp add: sorted_nth_mono)
  have f: "0 \<le> r - of_int \<lfloor>r\<rfloor>" "r - of_int \<lfloor>r\<rfloor> \<le> 1" by (linarith)+
  then show "ys ! nat \<lfloor>r\<rfloor> \<le> interpolate ys r" using le by (simp add: interpolate_def Let_def)
  have "(r - of_int \<lfloor>r\<rfloor>) * (ys ! nat \<lceil>r\<rceil> - ys ! nat \<lfloor>r\<rfloor>) \<le> ys ! nat \<lceil>r\<rceil> - ys ! nat \<lfloor>r\<rfloor>"
    using f le by (intro mult_left_le_one_le) auto
  then show "interpolate ys r \<le> ys ! nat \<lceil>r\<rceil>" by (simp add: interpolate_def Let_def)
qed

lemma interpolate_mono:
  assumes "sorted ys" and "0 \<le> r" and "r \<le> r'" and "r' \<le> of_nat (length ys - 1)" and "ys \<noteq> []"
  shows "interpolate ys r \<le> interpolate ys r'"
proof (cases "\<lfloor>r\<rfloor> = \<lfloor>r'\<rfloor>")
  case True
  note b = interpolate_between [OF assms(1) order_trans [OF assms(2,3)] assms(4,5)]
  show ?thesis
  proof (cases "r = of_int \<lfloor>r\<rfloor>")
    case int: True
    then have "\<lceil>r\<rceil> = \<lfloor>r\<rfloor>" by (metis ceiling_of_int)
    with int have "interpolate ys r = ys ! nat \<lfloor>r'\<rfloor>" using True by (simp add: interpolate_def)
    then show ?thesis using b(1) by simp
  next
    case False
    then have "\<lceil>r\<rceil> = \<lfloor>r\<rfloor> + 1" by linarith
    moreover have "\<lceil>r'\<rceil> = \<lfloor>r'\<rfloor> + 1"
    proof -
      have "r' \<noteq> of_int \<lfloor>r'\<rfloor>" using False True assms(3) by linarith
      then show ?thesis by linarith
    qed
    ultimately have c: "\<lceil>r\<rceil> = \<lceil>r'\<rceil>" using True by simp
    have "ys ! nat \<lfloor>r'\<rfloor> \<le> ys ! nat \<lceil>r'\<rceil>" using b by linarith
    then have "(r - of_int \<lfloor>r\<rfloor>) * (ys ! nat \<lceil>r'\<rceil> - ys ! nat \<lfloor>r'\<rfloor>) \<le> (r' - of_int \<lfloor>r'\<rfloor>) * (ys ! nat \<lceil>r'\<rceil> - ys ! nat \<lfloor>r'\<rfloor>)"
      using assms(3) True by (intro mult_right_mono) auto
    then show ?thesis using True c by (simp add: interpolate_def Let_def)
  qed
next
  case False
  have "r \<le> of_nat (length ys - 1)" using assms(3,4) by simp
  note b = interpolate_between [OF assms(1,2) this assms(5)] interpolate_between [OF assms(1) order_trans [OF assms(2,3)] assms(4,5)]
  have "\<lfloor>r\<rfloor> < \<lfloor>r'\<rfloor>" using False assms(3) by (simp add: floor_mono order_less_le)
  then have "\<lceil>r\<rceil> \<le> \<lfloor>r'\<rfloor>" by linarith
  moreover have "nat \<lfloor>r'\<rfloor> < length ys"
    using b(6) nat_mono [OF floor_le_ceiling [of r']] by linarith
  ultimately have "ys ! nat \<lceil>r\<rceil> \<le> ys ! nat \<lfloor>r'\<rfloor>" using assms(1) by (simp add: sorted_nth_mono nat_mono)
  then show ?thesis using b(2,4) by simp
qed

lemma percentile_cont_mono:
  assumes "0 \<le> q" and "q \<le> q'" and "q' \<le> 1" and "xs \<noteq> []"
  obtains x x' where "percentile_cont q xs = Some x" "percentile_cont q' xs = Some x'" "x \<le> x'"
    "Min (set xs) \<le> x" "x' \<le> Max (set xs)"
proof -
  let ?n = "of_nat (length xs - 1) :: rat" and ?ys = "sort xs"
  have ne: "?ys \<noteq> []" using assms(4) by (metis set_empty set_sort)
  have r: "0 \<le> q * ?n" "q * ?n \<le> q' * ?n" "q' * ?n \<le> of_nat (length ?ys - 1)"
    using assms by (simp_all add: mult_right_mono mult_left_le_one_le)
  note lo = interpolate_between [OF sorted_sort r(1) order_trans [OF r(2,3)] ne]
  note hi = interpolate_between [OF sorted_sort order_trans [OF r(1,2)] r(3) ne]
  have "nat \<lfloor>q * ?n\<rfloor> < length ?ys" by (rule le_less_trans [OF nat_mono [OF floor_le_ceiling] lo(3)])
  then have "?ys ! nat \<lfloor>q * ?n\<rfloor> \<in> set xs" by (metis nth_mem set_sort)
  then have "Min (set xs) \<le> interpolate ?ys (q * ?n)" using lo(1) by (meson Min_le List.finite_set order_trans)
  moreover have "?ys ! nat \<lceil>q' * ?n\<rceil> \<in> set xs" using hi(3) by (metis nth_mem set_sort)
  then have "interpolate ?ys (q' * ?n) \<le> Max (set xs)" using hi(2) by (meson Max_ge List.finite_set order_trans)
  ultimately show ?thesis
    using that interpolate_mono [OF sorted_sort r ne] assms(4) by (simp add: percentile_cont_def)
qed

section \<open>Intervals\<close>

lemma intervals_pos: "d \<in> set (intervals rows) \<Longrightarrow> 0 < d"
  by (induction rows rule: intervals.induct) (auto simp: Let_def split: if_splits)

lemma mean_pos: "ds \<noteq> [] \<Longrightarrow> (\<And>d. d \<in> set ds \<Longrightarrow> 0 < d) \<Longrightarrow> 0 < mean_of ds"
proof -
  assume ne: "ds \<noteq> []" and pos: "\<And>d. d \<in> set ds \<Longrightarrow> 0 < d"
  then have "0 < sum_list ds" by (induction ds rule: list_nonempty_induct) (auto intro: add_pos_pos)
  with ne show ?thesis by (simp add: mean_of_def)
qed

lemma filter_le_sorted_nth:
  assumes "i < length ds"
  shows "Suc i \<le> length (filter (\<lambda>d. d \<le> sort ds ! i) ds)"
proof -
  have "take (Suc i) (sort ds) = filter (\<lambda>d. d \<le> sort ds ! i) (take (Suc i) (sort ds))"
    using assms by (intro filter_True [symmetric]) (auto simp: in_set_conv_nth sorted_nth_mono)
  then have "Suc i \<le> length (filter (\<lambda>d. d \<le> sort ds ! i) (take (Suc i) (sort ds) @ drop (Suc i) (sort ds)))"
    using assms by (simp only: filter_append length_append) (metis Suc_leI le_add1 length_sort length_take min.absorb2)
  then have "Suc i \<le> length (filter (\<lambda>d. d \<le> sort ds ! i) (sort ds))" by simp
  also have "\<dots> = length (filter (\<lambda>d. d \<le> sort ds ! i) ds)"
    by (metis mset_filter mset_sort size_mset)
  finally show ?thesis .
qed

text \<open>The nearest-rank percentile: a sample that at least 95 percent of the samples do not exceed.\<close>

lemma p95_of_correct:
  assumes "ds \<noteq> []"
  shows "p95_of ds \<in> set ds \<and> 19 * length ds \<le> 20 * length (filter (\<lambda>d. d \<le> p95_of ds) ds)"
proof -
  let ?n = "length ds"
  define c where "c = \<lceil>rat_of_nat (length ds) * (19 / 20)\<rceil>"
  have n: "0 < ?n" using assms by simp
  have "rat_of_nat (19 * ?n) = 20 * (rat_of_nat ?n * (19 / 20))" by simp
  also have "\<dots> \<le> 20 * of_int c" unfolding c_def by (intro mult_left_mono le_of_int_ceiling) simp
  also have "\<dots> = of_int (20 * c)" by simp
  finally have "rat_of_nat (19 * ?n) \<le> of_int (20 * c)" .
  then have c1: "int (19 * ?n) \<le> 20 * c" by (metis of_int_le_iff of_int_of_nat_eq)
  have "c \<le> int ?n" unfolding c_def by (intro ceiling_le) simp
  then have lt: "nat c - 1 < ?n" using n by linarith
  have i: "p95_of ds = sort ds ! (nat c - 1)"
    unfolding p95_of_def Let_def c_def [symmetric] using lt by (simp add: min_absorb1)
  have "Suc (nat c - 1) \<le> length (filter (\<lambda>d. d \<le> p95_of ds) ds)"
    using filter_le_sorted_nth [OF lt] by (simp add: i)
  moreover have "19 * ?n \<le> 20 * Suc (nat c - 1)"
  proof -
    have "0 < c" using c1 n by linarith
    then obtain k where "c = int (Suc k)" by (metis zero_less_imp_eq_int gr0_implies_Suc)
    then show ?thesis using c1 by simp
  qed
  moreover have "p95_of ds \<in> set ds" using lt by (metis i length_sort nth_mem set_sort)
  ultimately show ?thesis by simp
qed

section \<open>Properties\<close>

lemma int8_ok_diff: "0 \<le> a \<Longrightarrow> a \<le> i64_max \<Longrightarrow> 0 \<le> b \<Longrightarrow> b \<le> i64_max \<Longrightarrow> int8_ok (a - b)"
  by (simp add: int8_ok_def i64_max_def)

lemma finality_query_run:
  assumes "\<not> pg_fault (ae_pg (sv_api E)) (p_seq p)"
  shows "fst (compute_observed_finality E now p) =
    (let xs = finality_samples (pg_now (ae_pg (sv_api E)) (p_seq p)) (p_db p) in
     Inr (if length xs < 20 then estimated_finality E now
          else \<lparr>fin_window = ''1h'', fin_sampled_count = of_nat (length xs),
                fin_p50_seconds = or_else 12 (percentile_cont (1 / 2) xs),
                fin_p95_seconds = or_else 15 (percentile_cont (19 / 20) xs),
                fin_p99_seconds = or_else 15 (percentile_cont (99 / 100) xs),
                fin_da_layer = ''celestia-mocha'', fin_source = ''observed'', fin_as_of = sv_rfc3339_secs E now\<rparr>))"
  using assms
  by (simp add: compute_observed_finality_def yielding_def op_bind_def query_ctx_def exec_def Let_def
      finality_query_def FINALITY_MIN_SAMPLES_def)

text \<open>C34. The finality estimate always has a body to serve. It is marked as observed exactly when the database
  answers and at least twenty slots were stamped final within the last hour; then the three
  percentiles are ordered and lie between the smallest and the greatest observed latency. Otherwise
  the fixed estimate is served.\<close>

theorem finality_sound:
  "\<exists>r. fst (finality_payload E now p) = Inr r \<and>
    (let xs = finality_samples (pg_now (ae_pg (sv_api E)) (p_seq p)) (p_db p) in
     if pg_fault (ae_pg (sv_api E)) (p_seq p) \<or> length xs < 20 then r = estimated_finality E now
     else fin_source r = ''observed'' \<and> fin_sampled_count r = of_nat (length xs) \<and>
       Min (set xs) \<le> fin_p50_seconds r \<and> fin_p50_seconds r \<le> fin_p95_seconds r \<and>
       fin_p95_seconds r \<le> fin_p99_seconds r \<and> fin_p99_seconds r \<le> Max (set xs))"
proof (cases "pg_fault (ae_pg (sv_api E)) (p_seq p)")
  case True
  then show ?thesis
    by (simp add: finality_payload_def compute_observed_finality_def yielding_def op_bind_def query_ctx_def
        exec_def Let_def)
next
  case False
  let ?xs = "finality_samples (pg_now (ae_pg (sv_api E)) (p_seq p)) (p_db p)"
  obtain r p' where c: "compute_observed_finality E now p = (Inr r, p')"
    using finality_query_run [OF False, of now] by (cases "compute_observed_finality E now p") (auto simp: Let_def)
  show ?thesis
  proof (cases "length ?xs < 20")
    case True
    then show ?thesis using False c finality_query_run [OF False, of now] by (simp add: finality_payload_def)
  next
    case ge: False
    then have ne: "?xs \<noteq> []" by auto
    obtain a b where ab: "percentile_cont (1 / 2) ?xs = Some a" "percentile_cont (19 / 20) ?xs = Some b" "a \<le> b" "Min (set ?xs) \<le> a"
      by (rule percentile_cont_mono [OF _ _ _ ne, of "1 / 2" "19 / 20"]) simp_all
    obtain b' c' where bc: "percentile_cont (19 / 20) ?xs = Some b'" "percentile_cont (99 / 100) ?xs = Some c'" "b' \<le> c'" "c' \<le> Max (set ?xs)"
      by (rule percentile_cont_mono [OF _ _ _ ne, of "19 / 20" "99 / 100"]) simp_all
    show ?thesis
      using False ge c finality_query_run [OF False, of now] ab bc by (simp add: finality_payload_def or_else_def)
  qed
qed

text \<open>What the next-block endpoint reports when slots are indexed: the greatest height; a mean interval
  exactly when some recent interval is positive, and then it is positive, the 95th percentile is one
  of the intervals and at least 95 percent of them do not exceed it, and the lag is the number of
  missing slots times the mean, never negative; without an interval the lag is zero and nothing is
  predicted.\<close>

lemma next_block_eta_sound:
  assumes "fst (compute_next_block_eta E now head p) = Inr r"
  shows "slots (p_db p) \<noteq> [] \<and> eta_last_block_height r = Max (s_height ` set (slots (p_db p))) \<and>
    (let ds = intervals (recent_slots (p_db p)) in
     case eta_mean_block_interval_secs r of
       None \<Rightarrow> ds = [] \<and> eta_indexer_lag_secs r = 0 \<and> eta_p95_block_interval_secs r = None \<and> eta_expected_next_at r = None
     | Some m \<Rightarrow> 0 < m \<and> m = mean_of ds \<and> 0 \<le> eta_indexer_lag_secs r \<and>
         (\<exists>x \<in> set ds. eta_p95_block_interval_secs r = Some x \<and> 19 * length ds \<le> 20 * length (filter (\<lambda>d. d \<le> x) ds)) \<and>
         (\<forall>h. head = Some h \<and> uint h \<le> i64_max \<and> 0 \<le> eta_last_block_height r \<and> eta_last_block_height r \<le> i64_max \<longrightarrow>
            eta_indexer_lag_secs r = of_nat (nat (uint h - eta_last_block_height r)) * m))"
proof -
  let ?ds = "intervals (recent_slots (p_db p))"
  have nf: "\<not> pg_fault (ae_pg (sv_api E)) (p_seq p)"
    using assms by (auto simp: compute_next_block_eta_def op_bind_def)
  then obtain latest rest where rows: "recent_slots (p_db p) = latest # rest"
    and r: "r = eta_of E now head latest ?ds"
    using assms by (auto simp: compute_next_block_eta_def op_bind_def split: list.splits)
  have ne: "slots (p_db p) \<noteq> []" using rows by (auto simp: recent_slots_def desc_def)
  have hd: "fst latest = Max (s_height ` set (slots (p_db p)))"
    using rows desc_hd_max [OF ne, of s_height]
    by (cases "desc s_height (slots (p_db p))") (auto simp: recent_slots_def take_Cons')
  have wrap: "as_i64 (as_u64 (as_i64 h - b)) = uint h - b" if "uint h \<le> i64_max" "0 \<le> b" "b \<le> i64_max" for h b
  proof -
    have "int8_ok (uint h - b)" using that by (intro int8_ok_diff) simp_all
    then show ?thesis using that by (simp add: as_i64_small as_i64_as_u64)
  qed
  show ?thesis
  proof (cases "?ds = []")
    case True
    then show ?thesis using ne hd by (simp add: r eta_of_def split_beta split: option.split)
  next
    case False
    let ?m = "mean_of ?ds"
    have m: "0 < ?m" using False intervals_pos by (intro mean_pos) auto
    have lag: "eta_indexer_lag_secs r = of_nat (nat (uint h - fst latest)) * ?m"
      if "head = Some h" "uint h \<le> i64_max" "0 \<le> fst latest" "fst latest \<le> i64_max" for h
      using that False wrap [of h "fst latest"] by (simp add: r eta_of_def split_beta max_def)
    have fields: "eta_last_block_height r = fst latest" "eta_mean_block_interval_secs r = Some ?m"
      "eta_p95_block_interval_secs r = Some (p95_of ?ds)" "0 \<le> eta_indexer_lag_secs r"
      using False m by (simp_all add: r eta_of_def split_beta Let_def split: option.split)
    show ?thesis unfolding Let_def fields option.case using ne hd m fields(4) lag p95_of_correct [OF False] by blast
  qed
qed

definition timed_slot :: "int \<Rightarrow> time \<Rightarrow> slot_row" where
  "timed_slot h t = \<lparr>s_height = h, s_hash = [], s_prev_hash = None, s_state_root = None, s_timestamp = t,
     s_batch_count = 0, s_tx_count = 0, s_raw = JNull, s_indexed_at = t, s_proposer = None,
     s_finality_status = None, s_finalized_at = None, s_da_block_height = None\<rparr>"

definition timed_pool :: pool where
  "timed_pool = \<lparr>p_db = empty_db\<lparr>slots := [timed_slot 1 0, timed_slot 2 6000000, timed_slot 3 14000000]\<rparr>, p_seq = 0\<rparr>"

end
