(* ===== verification/Stats_Api.thy ===== *)
theory Stats_Api
  imports Estimates
begin

text \<open>
  The statistics endpoints behind their shared cache: the routes of \<^verbatim>\<open>/v1/stats\<close>
  (\<^verbatim>\<open>crates/api/src/main.rs\<close>), histories of requests, and what the cache of
  \<^verbatim>\<open>crates/api/src/stats.rs\<close> promises about them. The keys under which the endpoints store
  their responses determine the endpoint and its parameters, so a cached body always answers the
  question that was asked.
\<close>

section \<open>Routes\<close>

datatype stats_endpoint =
    Totals
  | Finality
  | Next_block_eta
  | Active_addresses (window_param: "string option")
  | New_wallets_daily (days_param: "u32 option")
  | Tx_rate_daily (days_param: "u32 option")
  | Attestations_daily (days_param: "u32 option")
  | Drips_daily (days_param: "u32 option")
  | Top_holders (n_param: "u32 option")
  | Top_attesters (n_param: "u32 option")
  | Top_schema_owners (n_param: "u32 option")
  | Top_attestor_sets (n_param: "u32 option")

text \<open>What the handlers share, and one request: the bank answers it sees and its clock readings.\<close>

record ('k, 'key, 'addr) stats_app =
  sa_env :: "'k stats_env"
  sa_sdk :: "('key, 'addr) sdk"
  sa_signer :: "'key signer"
  sa_config :: config
  sa_client :: "(indexer_error, node_client) result"

record stats_request =
  sr_endpoint :: stats_endpoint
  sr_bank :: bank
  sr_clock :: stats_clock

fun stats_handle ::
  "('k :: linorder, 'key, 'addr) stats_app \<Rightarrow> stats_endpoint \<Rightarrow> bank \<Rightarrow> stats_clock \<Rightarrow> stats_cache \<times> pool \<Rightarrow>
   stats_reply \<times> stats_cache \<times> pool" where
  "stats_handle A Totals B q = totals (sa_env A) B (sa_signer A) (sa_config A) q"
| "stats_handle A Finality B q = finality (sa_env A) q"
| "stats_handle A Next_block_eta B q = next_block_eta (sa_env A) (sa_client A) q"
| "stats_handle A (Active_addresses w) B q = active_addresses (sa_env A) w q"
| "stats_handle A (New_wallets_daily d) B q = new_wallets_daily (sa_env A) d q"
| "stats_handle A (Tx_rate_daily d) B q = tx_rate_daily (sa_env A) d q"
| "stats_handle A (Attestations_daily d) B q = attestations_daily (sa_env A) d q"
| "stats_handle A (Drips_daily d) B q = drips_daily (sa_env A) (sa_sdk A) (sa_signer A) d q"
| "stats_handle A (Top_holders n) B q = top_holders (sa_env A) B (sa_signer A) n q"
| "stats_handle A (Top_attesters n) B q = top_attesters (sa_env A) n q"
| "stats_handle A (Top_schema_owners n) B q = top_schema_owners (sa_env A) n q"
| "stats_handle A (Top_attestor_sets n) B q = top_attestor_sets (sa_env A) n q"

section \<open>Keys\<close>

text \<open>The key each handler builds from its endpoint and its parameters.\<close>

fun stats_key :: "('k, 'key, 'addr) stats_app \<Rightarrow> stats_endpoint \<Rightarrow> string" where
  "stats_key A Totals = ''totals''"
| "stats_key A Finality = ''finality''"
| "stats_key A Next_block_eta = ''next-block-eta''"
| "stats_key A (Active_addresses w) = ''active-addresses:'' @ (case w of Some x \<Rightarrow> x | None \<Rightarrow> ''24h'')"
| "stats_key A (New_wallets_daily d) = ''new-wallets-daily:'' @ show_nat (capped d 7 90)"
| "stats_key A (Tx_rate_daily d) = ''tx-rate-daily:'' @ show_nat (capped d 7 90)"
| "stats_key A (Attestations_daily d) = ''attestations-daily:'' @ show_nat (capped d 30 90)"
| "stats_key A (Drips_daily d) = ''drips-daily:'' @ signer_address (sa_sdk A) (sa_signer A) @ '':'' @ show_nat (capped d 30 90)"
| "stats_key A (Top_holders n) = ''top-holders:'' @ show_nat (capped n 10 100)"
| "stats_key A (Top_attesters n) = ''top-attesters:'' @ show_nat (capped n 10 100)"
| "stats_key A (Top_schema_owners n) = ''top-schema-owners:'' @ show_nat (capped n 10 100)"
| "stats_key A (Top_attestor_sets n) = ''top-attestor-sets:'' @ show_nat (capped n 10 100)"

text \<open>Two requests with one key are the same question.\<close>

lemma stats_key_handle:
  assumes "stats_key A e = stats_key A e'"
  shows "stats_handle A e = stats_handle A e'"
  using assms
  by (cases e; cases e')
     (auto simp: fun_eq_iff show_nat_inj active_addresses_def new_wallets_daily_def tx_rate_daily_def attestations_daily_def
        drips_daily_def top_holders_def top_attesters_def top_schema_owners_def top_attestor_sets_def Let_def)

text \<open>Every endpoint goes through the cache under its key, except a refused window.\<close>

definition key_max_age :: "string \<Rightarrow> nat" where
  "key_max_age key =
     (if key = ''totals'' then TTL_STATS_TOTALS_SECS
      else if key = ''next-block-eta'' then TTL_STATS_NEXT_BLOCK_ETA_SECS
      else TTL_STATS_DEFAULT_SECS)"

definition cached_under :: "('k, 'key, 'addr) stats_app \<Rightarrow> string \<Rightarrow> json computation \<Rightarrow> stats_clock \<Rightarrow> stats_cache \<times> pool \<Rightarrow>
    stats_reply \<times> stats_cache \<times> pool" where
  "cached_under A key = with_cache (sa_env A) key (key_ttl key) (key_max_age key)"

lemmas endpoint_defs = totals_def finality_def next_block_eta_def new_wallets_daily_def tx_rate_daily_def
  attestations_daily_def drips_daily_def top_holders_def top_attesters_def top_schema_owners_def top_attestor_sets_def

lemma active_addresses_cached:
  "(\<exists>compute. active_addresses (sa_env A) w q = cached_under A (stats_key A (Active_addresses w)) compute q) \<or>
   (\<exists>err. active_addresses (sa_env A) w q = (\<lambda>st. (Stats_error err, st)))"
proof (cases "parse_interval (case w of Some x \<Rightarrow> x | None \<Rightarrow> ''24h'')")
  case (Inl e)
  then have "active_addresses (sa_env A) w q = (\<lambda>st. (Stats_error (error_body e), st))"
    by (simp add: active_addresses_def Let_def fun_eq_iff)
  then show ?thesis by blast
next
  case (Inr n)
  then have "active_addresses (sa_env A) w q = cached_under A (stats_key A (Active_addresses w))
      (yielding (compute_active_addresses (sa_env A) (sq_utc q) (case w of Some x \<Rightarrow> x | None \<Rightarrow> ''24h'') n) ser_active_addresses) q"
    by (simp add: active_addresses_def Let_def fun_eq_iff cached_under_def key_ttl_def key_max_age_def)
  then show ?thesis by blast
qed

lemma stats_handle_cached:
  "(\<exists>compute. stats_handle A e B q = cached_under A (stats_key A e) compute q) \<or>
   (\<exists>err. stats_handle A e B q = (\<lambda>st. (Stats_error err, st)))"
proof (cases "\<exists>w. e = Active_addresses w")
  case True
  then show ?thesis using active_addresses_cached by (metis stats_handle.simps(4))
next
  case False
  then have "\<exists>compute. stats_handle A e B q = cached_under A (stats_key A e) compute q"
    by (cases e) (auto simp: cached_under_def endpoint_defs Let_def key_ttl_def key_max_age_def)
  then show ?thesis by blast
qed

lemma stats_handle_cases:
  obtains (hit) b where "stats_get_fresh (fst st) (stats_key A e) (key_ttl (stats_key A e)) (sq_asked q) = Some b"
      "stats_handle A e B q st = (Stats_ok b (key_max_age (stats_key A e)), st)"
  | (stored) b p where "stats_get_fresh (fst st) (stats_key A e) (key_ttl (stats_key A e)) (sq_asked q) = None"
      "stats_handle A e B q st = (Stats_ok b (key_max_age (stats_key A e)), stats_put (stats_key A e) b (sq_done q) (fst st), p)"
      "fst (stats_handle A e B q ([], snd st)) = Stats_ok b (key_max_age (stats_key A e))"
  | (unstored) r p where "stats_handle A e B q st = (r, fst st, p)" "\<And>b age. r \<noteq> Stats_ok b age"
  using stats_handle_cached [of A e B q]
proof (elim disjE exE)
  fix compute assume c: "stats_handle A e B q = cached_under A (stats_key A e) compute q"
  show thesis
  proof (cases "stats_get_fresh (fst st) (stats_key A e) (key_ttl (stats_key A e)) (sq_asked q)")
    case (Some b)
    then show ?thesis using hit by (simp add: c cached_under_def with_cache_def)
  next
    case None
    have e: "stats_get_fresh [] k ttl t = None" for k ttl t by (simp add: stats_get_fresh_def)
    obtain o' p' where o: "compute (snd st) = (o', p')" by force
    show ?thesis
    proof (cases "\<exists>v b. o' = Inr v \<and> sv_json (sa_env A) v = Inr b")
      case True
      then show ?thesis using stored [OF None] None o by (auto simp: c cached_under_def with_cache_def e)
    next
      case False
      then have "\<exists>r. stats_handle A e B q st = (r, fst st, p') \<and> (\<forall>b age. r \<noteq> Stats_ok b age)"
        using None o by (auto simp: c cached_under_def with_cache_def split: sum.split stats_failure.split)
      then show ?thesis using unstored by blast
    qed
  qed
next
  fix err assume "stats_handle A e B q = (\<lambda>st. (Stats_error err, st))"
  then show thesis using unstored [of "Stats_error err" "snd st"] by simp
qed

section \<open>Histories\<close>

definition stats_step :: "('k :: linorder, 'key, 'addr) stats_app \<Rightarrow> stats_request \<Rightarrow> stats_cache \<times> pool \<Rightarrow>
    stats_reply \<times> stats_cache \<times> pool" where
  "stats_step A r = stats_handle A (sr_endpoint r) (sr_bank r) (sr_clock r)"

text \<open>Requests answered one after another: each with the pool it was answered on.\<close>

fun serve_stats :: "('k :: linorder, 'key, 'addr) stats_app \<Rightarrow> stats_request list \<Rightarrow> stats_cache \<times> pool \<Rightarrow> (pool \<times> stats_reply) list" where
  "serve_stats A [] st = []"
| "serve_stats A (r # rs) st = (case stats_step A r st of (reply, st') \<Rightarrow> (snd st, reply) # serve_stats A rs st')"

definition stats_outcome :: "('k :: linorder, 'key, 'addr) stats_app \<Rightarrow> stats_request \<Rightarrow> stats_cache \<times> pool \<Rightarrow> string outcome" where
  "stats_outcome A r st =
     (case fst (stats_step A r st) of
        Stats_ok b _ \<Rightarrow>
          (let key = stats_key A (sr_endpoint r) in
           if stats_get_fresh (fst st) key (key_ttl key) (sq_asked (sr_clock r)) = None then Stored b else Hit b)
      | _ \<Rightarrow> Unstored)"

fun stats_log :: "('k :: linorder, 'key, 'addr) stats_app \<Rightarrow> stats_request list \<Rightarrow> stats_cache \<times> pool \<Rightarrow>
    (string \<times> instant \<times> instant \<times> string outcome) list" where
  "stats_log A [] st = []"
| "stats_log A (r # rs) st =
     (stats_key A (sr_endpoint r), sq_asked (sr_clock r), sq_done (sr_clock r), stats_outcome A r st) #
       stats_log A rs (snd (stats_step A r st))"

fun stats_in_order :: "instant \<Rightarrow> stats_request list \<Rightarrow> bool" where
  "stats_in_order t [] = True"
| "stats_in_order t (r # rs) = (t \<le> sq_asked (sr_clock r) \<and> sq_asked (sr_clock r) \<le> sq_done (sr_clock r) \<and>
     stats_in_order (sq_done (sr_clock r)) rs)"

lemma stats_log_run:
  "stats_in_order t rs \<Longrightarrow>
   cache_run (\<lambda>s k now. stats_get_fresh s k (key_ttl k) now) stats_put t (fst st) (stats_log A rs st)"
proof (induction rs arbitrary: t st)
  case (Cons r rs)
  show ?case
    by (rule stats_handle_cases [of st A "sr_endpoint r" "sr_clock r" "sr_bank r"])
       (use Cons in \<open>auto simp: stats_outcome_def stats_step_def Let_def split: stats_reply.split\<close>)
qed simp

lemma length_serve_stats [simp]:
  "length (serve_stats A rs st) = length rs"
  "length (stats_log A rs st) = length rs"
  by (induction rs arbitrary: st) (simp_all split: prod.split)

lemma stats_log_nth:
  assumes "i < length rs"
  shows "\<exists>out. stats_log A rs st ! i =
      (stats_key A (sr_endpoint (rs ! i)), sq_asked (sr_clock (rs ! i)), sq_done (sr_clock (rs ! i)), out) \<and>
    (case out of
       Hit b \<Rightarrow> snd (serve_stats A rs st ! i) = Stats_ok b (key_max_age (stats_key A (sr_endpoint (rs ! i))))
     | Stored b \<Rightarrow> snd (serve_stats A rs st ! i) = Stats_ok b (key_max_age (stats_key A (sr_endpoint (rs ! i)))) \<and>
         fst (stats_step A (rs ! i) ([], fst (serve_stats A rs st ! i))) = snd (serve_stats A rs st ! i)
     | Unstored \<Rightarrow> (\<forall>b age. snd (serve_stats A rs st ! i) \<noteq> Stats_ok b age))"
  using assms
proof (induction rs arbitrary: i st)
  case (Cons r rs)
  show ?case
  proof (cases i)
    case 0
    show ?thesis
      by (rule stats_handle_cases [of st A "sr_endpoint r" "sr_clock r" "sr_bank r"])
         (auto simp: 0 stats_outcome_def stats_step_def Let_def split: stats_reply.split)
  next
    case (Suc j)
    have "serve_stats A (r # rs) st ! i = serve_stats A rs (snd (stats_step A r st)) ! j"
      and "stats_log A (r # rs) st ! i = stats_log A rs (snd (stats_step A r st)) ! j"
      and "(r # rs) ! i = rs ! j"
      by (simp_all add: Suc split: prod.split)
    moreover have "j < length rs" using Cons.prems Suc by simp
    ultimately show ?thesis
      using Cons.IH [of j "snd (stats_step A r st)"] by (simp only:)
  qed
qed simp

section \<open>Properties\<close>

text \<open>C27. Over requests to the statistics endpoints handled one after another, starting with an empty cache, every
  body served with success is what the very endpoint that was asked computes: in this request, or in an
  earlier one for the same endpoint and parameters that ended less than the lifetime of the entry ago
  (five seconds for the block estimate, thirty for all others); failed computations are never served
  again, and the computations stored under one key are at least that lifetime apart.\<close>

theorem stats_served_fresh:
  assumes "stats_in_order 0 rs"
  shows "(\<forall>i < length rs. \<forall>b age. snd (serve_stats A rs ([], p) ! i) = Stats_ok b age \<longrightarrow>
      (\<exists>j \<le> i. stats_key A (sr_endpoint (rs ! j)) = stats_key A (sr_endpoint (rs ! i)) \<and>
         fst (stats_handle A (sr_endpoint (rs ! i)) (sr_bank (rs ! j)) (sr_clock (rs ! j))
           ([], fst (serve_stats A rs ([], p) ! j))) = Stats_ok b age \<and>
         (j = i \<or> sq_asked (sr_clock (rs ! i)) < sq_done (sr_clock (rs ! j)) + key_ttl (stats_key A (sr_endpoint (rs ! i)))))) \<and>
    sorted_wrt (spaced fst key_ttl) (stores (stats_log A rs ([], p)))"
proof (intro conjI allI impI)
  let ?log = "stats_log A rs ([], p)" and ?run = "serve_stats A rs ([], p)"
  have run: "cache_run (\<lambda>s k now. stats_get_fresh s k (key_ttl k) now) stats_put 0 [] ?log"
    using stats_log_run [OF assms, of "([], p)"] by simp
  show "sorted_wrt (spaced fst key_ttl) (stores ?log)" by (rule stats.stores_spaced [OF run])
  fix i b age assume i: "i < length rs" and ok: "snd (?run ! i) = Stats_ok b age"
  let ?k = "\<lambda>i. stats_key A (sr_endpoint (rs ! i))" and ?ta = "\<lambda>i. sq_asked (sr_clock (rs ! i))" and ?tp = "\<lambda>i. sq_done (sr_clock (rs ! i))"
  note entry = stats_log_nth [of _ rs A "([], p)"]
  obtain out where out: "?log ! i = (?k i, ?ta i, ?tp i, out)"
    "case out of Hit b \<Rightarrow> snd (?run ! i) = Stats_ok b (key_max_age (?k i))
     | Stored b \<Rightarrow> snd (?run ! i) = Stats_ok b (key_max_age (?k i)) \<and> fst (stats_step A (rs ! i) ([], fst (?run ! i))) = snd (?run ! i)
     | Unstored \<Rightarrow> (\<forall>b age. snd (?run ! i) \<noteq> Stats_ok b age)"
    using entry [OF i] by blast
  show "\<exists>j \<le> i. ?k j = ?k i \<and>
      fst (stats_handle A (sr_endpoint (rs ! i)) (sr_bank (rs ! j)) (sr_clock (rs ! j)) ([], fst (?run ! j))) = Stats_ok b age \<and>
      (j = i \<or> ?ta i < ?tp j + key_ttl (?k i))"
  proof (cases out)
    case (Hit b')
    then have same: "b' = b" "age = key_max_age (?k i)" using out ok by simp_all
    have "?log = take i ?log @ (?k i, ?ta i, ?tp i, Hit b) # drop (Suc i) ?log"
      using id_take_nth_drop [of i ?log] i out(1) Hit same by simp
    then obtain ta tp where "(?k i, ta, tp, Stored b) \<in> set (take i ?log)" and fresh: "?ta i < tp + key_ttl (?k i)"
      using stats.hit_fresh [of 0 "[]" "take i ?log" "?k i" "?ta i" "?tp i" b "drop (Suc i) ?log"] run
      by (auto simp: find_row_def)
    then obtain j where j: "j < i" "?log ! j = (?k i, ta, tp, Stored b)"
      using i by (auto simp: in_set_conv_nth)
    then have old: "?k j = ?k i" "tp = ?tp j" "snd (?run ! j) = Stats_ok b (key_max_age (?k j))"
      "fst (stats_step A (rs ! j) ([], fst (?run ! j))) = snd (?run ! j)"
      using entry [of j] i by auto
    then have "fst (stats_handle A (sr_endpoint (rs ! i)) (sr_bank (rs ! j)) (sr_clock (rs ! j)) ([], fst (?run ! j))) = Stats_ok b age"
      using stats_key_handle [OF old(1)] by (simp add: stats_step_def same)
    then show ?thesis using j old fresh by (intro exI [of _ j]) simp
  next
    case (Stored b')
    then show ?thesis using out ok by (intro exI [of _ i]) (simp add: stats_step_def)
  qed (use out ok in auto)
qed

definition demo_app :: "(string, unit, string) stats_app" where
  "demo_app = \<lparr>sa_env = plain_stats, sa_sdk = demo_sdk, sa_signer = demo_signer, sa_config = sample_config,
     sa_client = Inl (NodeUnreachable ''no url'')\<rparr>"

definition ranking_at :: "nat \<Rightarrow> stats_request" where
  "ranking_at s = \<lparr>sr_endpoint = Top_attesters (Some 3),
     sr_bank = \<lparr>get_balance_for_holder = (\<lambda>_ _. Inr 0), to_bech32 = (\<lambda>_. []), http_get = (\<lambda>_. Inr []), from_str = (\<lambda>_. Inr JNull)\<rparr>,
     sr_clock = \<lparr>sq_asked = s * NANOS_PER_SEC, sq_done = s * NANOS_PER_SEC + 1, sq_utc = int s * 1000000\<rparr>\<rparr>"

theorem stats_served_fresh_witness:
  "map snd (serve_stats demo_app (map ranking_at [1, 20, 40]) ([], \<lparr>p_db = empty_db, p_seq = 0\<rparr>)) =
     [Stats_ok ''body'' 30, Stats_ok ''body'' 30, Stats_ok ''body'' 30] \<and>
   length (stores (stats_log demo_app (map ranking_at [1, 20, 40]) ([], \<lparr>p_db = empty_db, p_seq = 0\<rparr>))) = 2 \<and>
   sorted_wrt (spaced fst key_ttl) (stores (stats_log demo_app (map ranking_at [1, 20, 40]) ([], \<lparr>p_db = empty_db, p_seq = 0\<rparr>)))"
proof -
  let ?p = "\<lparr>p_db = empty_db, p_seq = 0\<rparr>" and ?rs = "map ranking_at [1, 20, 40]"
  have "stats_in_order 0 ?rs" by (simp add: ranking_at_def NANOS_PER_SEC_def)
  note fresh = stats_served_fresh [OF this, of demo_app ?p]
  have key: "key_ttl (CHR ''t'' # CHR ''o'' # CHR ''p'' # x) = 30 * NANOS_PER_SEC" for x
    by (simp add: key_ttl_def DEFAULT_TTL_def)
  have step: "top_attesters (sa_env demo_app) (Some 3) q (cache, p) =
      (case stats_get_fresh cache (''top-attesters:'' @ show_nat 3) (30 * NANOS_PER_SEC) (sq_asked q) of
         Some b \<Rightarrow> (Stats_ok b 30, cache, p)
       | None \<Rightarrow> (Stats_ok ''body'' 30, stats_put (''top-attesters:'' @ show_nat 3) ''body'' (sq_done q) cache, p\<lparr>p_seq := Suc (p_seq p)\<rparr>))"
    for q cache p
    by (simp add: demo_app_def top_attesters_def with_cache_def compute_top_attesters_def yielding_simps Let_def capped_def
        DEFAULT_TTL_def TTL_STATS_DEFAULT_SECS_def split: option.split)
  have "map snd (serve_stats demo_app ?rs ([], ?p)) = [Stats_ok ''body'' 30, Stats_ok ''body'' 30, Stats_ok ''body'' 30]"
    and "length (stores (stats_log demo_app ?rs ([], ?p))) = 2"
    by (simp_all add: ranking_at_def stats_step_def stats_outcome_def step Let_def capped_def key stats_get_fresh_def stats_put_def
        duration_since_def find_row_def upsert_def NANOS_PER_SEC_def)
  with fresh show ?thesis by blast
qed

end
