(* ===== verification/App.thy ===== *)
theory App
  imports Router Faucet Search Bot_Drip Cluster Stats_Api
begin

text \<open>
  The API as one machine: the shared state of \<^verbatim>\<open>crates/api/src/main.rs\<close> (\<^verbatim>\<open>AppState\<close>), the
  requests its routes accept once axum has extracted their parameters, and what each of them does to the
  state. A handler runs to its end before the next one starts; the interleavings inside the faucet are the
  subject of the theory of the faucet. The extraction itself (query strings, bodies, headers) is a
  parameter: it either rejects a request with a status or yields a request of the endpoint.
\<close>

section \<open>State and requests\<close>

record ('k, 'key, 'addr) app_env =
  ap_env :: "'k stats_env"
  ap_sdk :: "('key, 'addr) sdk"
  ap_crypto :: crypto
  ap_config :: config
  ap_client :: "(indexer_error, node_client) result"

record 'key app_state =
  app_signer :: "'key signer"
  app_limiter :: rate_limiter
  app_stats_cache :: stats_cache
  app_cluster_cache :: cluster_cache

text \<open>One request with its parameters, its clock readings and the bank answers it sees.\<close>

datatype api_request =
    R_health
  | R_info
  | R_drip string instant instant
  | R_drip_status "string option" instant nat
  | R_drip_bot "string option" drip_bot_request "nat \<Rightarrow> time"
  | R_blocks pagination_params
  | R_block u64
  | R_txs txs_list_params
  | R_tx string
  | R_address string bank
  | R_address_txs string pagination_params
  | R_schemas schemas_list_params
  | R_schema string
  | R_attestor_sets pagination_params
  | R_member_sets string pagination_params
  | R_attestor_set string
  | R_set_attestations string pagination_params
  | R_schema_attestations string pagination_params
  | R_attestations pagination_params
  | R_attestation string
  | R_bounties bounties_list_params
  | R_matching string
  | R_bounty string
  | R_contracts contracts_list_params
  | R_contract string
  | R_search string
  | R_stats stats_endpoint bank stats_clock
  | R_cluster cluster_request

datatype api_response =
    Health_response json
  | Info_response "info_response reply"
  | Drip_response "(error_response, drip_response) result"
  | Status_response drip_status_body
  | Bot_response "(bot_error_response, drip_bot_response) result"
  | Blocks_response "block_response page reply"
  | Block_response "block_response reply"
  | Txs_response "tx_response page reply"
  | Tx_response "tx_response reply"
  | Address_response "address_summary_response reply"
  | Schemas_response "schema_response page reply"
  | Schema_response "schema_response reply"
  | Sets_response "attestor_set_response page reply"
  | Set_response "attestor_set_response reply"
  | Attestations_response "attestation_response page reply"
  | Attestation_response "attestation_response reply"
  | Bounties_response "bounty_detail_response page reply"
  | Matching_response "bounty_matching_response reply"
  | Bounty_response "bounty_detail_response reply"
  | Contracts_response "contract_detail_response page reply"
  | Contract_response "contract_detail_response reply"
  | Search_response "search_response reply"
  | Stats_response stats_reply
  | Cluster_response http_reply
  | Rejected nat

fun stats_route :: "stats_endpoint \<Rightarrow> endpoint" where
  "stats_route Totals = H_totals"
| "stats_route Finality = H_finality"
| "stats_route Next_block_eta = H_next_block_eta"
| "stats_route (Active_addresses _) = H_active_addresses"
| "stats_route (New_wallets_daily _) = H_new_wallets_daily"
| "stats_route (Tx_rate_daily _) = H_tx_rate_daily"
| "stats_route (Attestations_daily _) = H_attestations_daily"
| "stats_route (Drips_daily _) = H_drips_daily"
| "stats_route (Top_holders _) = H_top_holders"
| "stats_route (Top_attesters _) = H_top_attesters"
| "stats_route (Top_schema_owners _) = H_top_schema_owners"
| "stats_route (Top_attestor_sets _) = H_top_attestor_sets"

fun endpoint_of :: "api_request \<Rightarrow> endpoint" where
  "endpoint_of R_health = H_health"
| "endpoint_of R_info = H_info"
| "endpoint_of (R_drip _ _ _) = H_drip"
| "endpoint_of (R_drip_status _ _ _) = H_drip_status"
| "endpoint_of (R_drip_bot _ _ _) = H_drip_bot"
| "endpoint_of (R_blocks _) = H_blocks_list"
| "endpoint_of (R_block _) = H_block_by_height"
| "endpoint_of (R_txs _) = H_txs_list"
| "endpoint_of (R_tx _) = H_tx_by_hash"
| "endpoint_of (R_address _ _) = H_address_summary"
| "endpoint_of (R_address_txs _ _) = H_address_txs"
| "endpoint_of (R_schemas _) = H_schemas_list"
| "endpoint_of (R_schema _) = H_schema_by_id"
| "endpoint_of (R_attestor_sets _) = H_attestor_sets_list"
| "endpoint_of (R_member_sets _ _) = H_attestor_sets_by_member"
| "endpoint_of (R_attestor_set _) = H_attestor_set_by_id"
| "endpoint_of (R_set_attestations _ _) = H_attestations_by_attestor_set"
| "endpoint_of (R_schema_attestations _ _) = H_attestations_by_schema"
| "endpoint_of (R_attestations _) = H_attestations_list"
| "endpoint_of (R_attestation _) = H_attestation_by_id"
| "endpoint_of (R_bounties _) = H_bounties_list"
| "endpoint_of (R_matching _) = H_bounties_matching"
| "endpoint_of (R_bounty _) = H_bounty_detail"
| "endpoint_of (R_contracts _) = H_contracts_list"
| "endpoint_of (R_contract _) = H_contract_detail"
| "endpoint_of (R_search _) = H_search"
| "endpoint_of (R_stats e _ _) = stats_route e"
| "endpoint_of (R_cluster _) = H_cluster_nodes"

section \<open>Handling\<close>

definition health :: json where
  "health = JObject [(''status'', JString ''ok'')]"

definition reading :: "('r \<Rightarrow> api_response) \<Rightarrow> (pool \<Rightarrow> 'r \<times> pool) \<Rightarrow> pool \<times> 'key app_state \<Rightarrow>
    api_response \<times> pool \<times> 'key app_state" where
  "reading f m st = (case m (fst st) of (r, p') \<Rightarrow> (f r, p', snd st))"

definition stats_app_of :: "('k, 'key, 'addr) app_env \<Rightarrow> 'key app_state \<Rightarrow> ('k, 'key, 'addr) stats_app" where
  "stats_app_of A a =
     \<lparr>sa_env = ap_env A, sa_sdk = ap_sdk A, sa_signer = app_signer a, sa_config = ap_config A, sa_client = ap_client A\<rparr>"

definition client_option :: "(indexer_error, node_client) result \<Rightarrow> node_client option" where
  "client_option r = (case r of Inl _ \<Rightarrow> None | Inr C \<Rightarrow> Some C)"

fun handle :: "('k :: linorder, 'key, 'addr) app_env \<Rightarrow> api_request \<Rightarrow> pool \<times> 'key app_state \<Rightarrow>
    api_response \<times> pool \<times> 'key app_state" where
  "handle A R_health st = (Health_response health, st)"
| "handle A R_info st = reading Info_response (info (sv_api (ap_env A)) (client_option (ap_client A))) st"
| "handle A (R_drip addr tc tr) (p, a) =
     (case drip (ap_sdk A) (cf_drip_amount (ap_config A)) addr tc tr (app_limiter a, app_signer a) of
        (r, rl, sg) \<Rightarrow> (Drip_response r, p, a\<lparr>app_limiter := rl, app_signer := sg\<rparr>))"
| "handle A (R_drip_status q now wall) (p, a) =
     (Status_response (drip_status (cf_drip_amount (ap_config A)) (cf_drip_rate_limit_secs (ap_config A))
        (signer_address (ap_sdk A) (app_signer a)) q now wall (app_limiter a)), p, a)"
| "handle A (R_drip_bot secret req utc) (p, a) =
     (case drip_bot (ap_sdk A) (ae_pg (sv_api (ap_env A))) (ap_config A) utc secret req (p, app_signer a) of
        (r, p', sg) \<Rightarrow> (Bot_response r, p', a\<lparr>app_signer := sg\<rparr>))"
| "handle A (R_blocks q) st = reading Blocks_response (blocks_list (sv_api (ap_env A)) q) st"
| "handle A (R_block h) st = reading Block_response (block_by_height (sv_api (ap_env A)) h) st"
| "handle A (R_txs q) st = reading Txs_response (txs_list (sv_api (ap_env A)) q) st"
| "handle A (R_tx h) st = reading Tx_response (get_tx_by_hash (sv_api (ap_env A)) h) st"
| "handle A (R_address x B) st = reading Address_response (address_summary (sv_api (ap_env A)) B (app_signer (snd st)) x) st"
| "handle A (R_address_txs x q) st = reading Txs_response (address_txs (sv_api (ap_env A)) x q) st"
| "handle A (R_schemas q) st = reading Schemas_response (schemas_list (sv_api (ap_env A)) q) st"
| "handle A (R_schema i) st = reading Schema_response (get_schema_by_id (sv_api (ap_env A)) i) st"
| "handle A (R_attestor_sets q) st = reading Sets_response (attestor_sets_list (sv_api (ap_env A)) q) st"
| "handle A (R_member_sets k q) st = reading Sets_response (attestor_sets_by_member (sv_api (ap_env A)) (ap_crypto A) k q) st"
| "handle A (R_attestor_set i) st = reading Set_response (get_attestor_set_by_id (sv_api (ap_env A)) i) st"
| "handle A (R_set_attestations i q) st = reading Attestations_response (attestations_by_attestor_set (sv_api (ap_env A)) i q) st"
| "handle A (R_schema_attestations i q) st = reading Attestations_response (attestations_by_schema (sv_api (ap_env A)) i q) st"
| "handle A (R_attestations q) st = reading Attestations_response (attestations_list (sv_api (ap_env A)) q) st"
| "handle A (R_attestation i) st = reading Attestation_response (attestation_by_id (sv_api (ap_env A)) i) st"
| "handle A (R_bounties q) st = reading Bounties_response (bounties_list (sv_api (ap_env A)) q) st"
| "handle A (R_matching x) st = reading Matching_response (bounties_matching (sv_api (ap_env A)) x) st"
| "handle A (R_bounty i) st = reading Bounty_response (bounty_detail (sv_api (ap_env A)) i) st"
| "handle A (R_contracts q) st = reading Contracts_response (contracts_list (sv_api (ap_env A)) q) st"
| "handle A (R_contract i) st = reading Contract_response (contract_detail (sv_api (ap_env A)) i) st"
| "handle A (R_search q) st = reading Search_response (search (sv_api (ap_env A)) q) st"
| "handle A (R_stats e B q) (p, a) =
     (case stats_handle (stats_app_of A a) e B q (app_stats_cache a, p) of
        (r, cache, p') \<Rightarrow> (Stats_response r, p', a\<lparr>app_stats_cache := cache\<rparr>))"
| "handle A (R_cluster q) (p, a) =
     (case nodes (sv_json (ap_env A)) (ap_client A) (cf_chain_cluster_auth_token (ap_config A)) q (app_cluster_cache a, p) of
        (r, cache, p') \<Rightarrow> (Cluster_response r, p', a\<lparr>app_cluster_cache := cache\<rparr>))"

text \<open>A request as it arrives: the route, the extraction of the parameters, the handler.\<close>

definition http_serve ::
  "(route list \<Rightarrow> string \<Rightarrow> route option) \<Rightarrow> (endpoint \<Rightarrow> (string \<times> string) list \<Rightarrow> 'q \<Rightarrow> (nat, api_request) result) \<Rightarrow>
   ('k :: linorder, 'key, 'addr) app_env \<Rightarrow> http_method \<Rightarrow> string \<Rightarrow> 'q \<Rightarrow> pool \<times> 'key app_state \<Rightarrow>
   api_response \<times> pool \<times> 'key app_state" where
  "http_serve lookup extract A asked path parts st =
     (case dispatch lookup asked path of
        No_route \<Rightarrow> (Rejected 404, st)
      | Method_not_allowed \<Rightarrow> (Rejected 405, st)
      | Call e args \<Rightarrow>
          (case extract e args parts of
             Inl status \<Rightarrow> (Rejected status, st)
           | Inr r \<Rightarrow> handle A r st))"

section \<open>What requests leave alone\<close>

lemma respond_pool [simp]: "snd (respond rp f) = snd rp"
  by (simp add: respond_def)

lemmas query_defs =
  max_slot_height_def slot_by_height_def slots_page_def tx_by_hash_def txs_page_def address_txs_page_def
  schema_by_id_def schemas_page_def attestor_set_by_id_def attestor_sets_page_def
  attestor_sets_for_member_page_def query_address_summary_def attestations_page_def
  query_attestations_by_attestor_set_def query_attestation_by_id_def slot_height_for_block_hash_def
  address_exists_def schema_exists_def attestor_set_exists_def attestation_id_exists_def
  attestation_id_by_payload_hash_def bounties_matching_address_def bounty_by_id_def bounties_page_def
  contract_by_id_def contracts_page_def

lemmas page_handlers =
  blocks_list_def txs_list_def address_txs_def schemas_list_def attestor_sets_list_def attestations_list_def
  attestations_by_schema_def attestations_by_attestor_set_def bounties_list_def contracts_list_def

lemmas detail_handlers =
  block_by_height_def get_tx_by_hash_def address_summary_def get_schema_by_id_def get_attestor_set_by_id_def
  bounties_matching_def bounty_detail_def contract_detail_def

lemma reads_db [simp]:
  "p_db (snd (blocks_list E q p)) = p_db p" "p_db (snd (txs_list E tq p)) = p_db p"
  "p_db (snd (address_txs E x q p)) = p_db p" "p_db (snd (schemas_list E' sq p)) = p_db p"
  "p_db (snd (attestor_sets_list E' q p)) = p_db p" "p_db (snd (attestations_list E' q p)) = p_db p"
  "p_db (snd (attestations_by_schema E' x q p)) = p_db p" "p_db (snd (attestations_by_attestor_set E' x q p)) = p_db p"
  "p_db (snd (bounties_list E' bq p)) = p_db p" "p_db (snd (contracts_list E' cq p)) = p_db p"
  "p_db (snd (block_by_height E h p)) = p_db p" "p_db (snd (get_tx_by_hash E x p)) = p_db p"
  "p_db (snd (address_summary E B sg x p)) = p_db p" "p_db (snd (get_schema_by_id E x p)) = p_db p"
  "p_db (snd (get_attestor_set_by_id E x p)) = p_db p" "p_db (snd (bounties_matching E' x p)) = p_db p"
  "p_db (snd (bounty_detail E x p)) = p_db p" "p_db (snd (contract_detail E x p)) = p_db p"
  by (simp_all only: page_handlers detail_handlers query_defs Let_def respond_pool read_op_db)

lemma member_sets_db [simp]: "p_db (snd (attestor_sets_by_member E C k q p)) = p_db p"
  by (simp only: attestor_sets_by_member_def query_defs Let_def) (simp split: sum.split)

lemma attestation_by_id_db [simp]: "p_db (snd (attestation_by_id E i p)) = p_db p"
  by (simp only: attestation_by_id_def query_defs Let_def) simp

lemma search_prefix_db [simp]: "p_db (snd (search_prefix E q p)) = p_db p"
  by (simp only: search_prefix_def query_defs Let_def) simp

lemma search_db [simp]: "p_db (snd (search E q p)) = p_db p"
proof (cases "parse_i64 (trim q)")
  case None
  then show ?thesis by (simp add: search_def Let_def)
next
  case (Some h)
  obtain r p' where r: "slot_by_height (ae_pg E) h p = (r, p')" by force
  have "p_db p' = p_db p" using read_op_db arg_cong [OF r, of snd] by (metis slot_by_height_def snd_conv)
  then show ?thesis using Some r by (simp add: search_def Let_def split: sum.split option.split)
qed

lemma info_db [simp]: "p_db (snd (info E c p)) = p_db p"
  by (simp add: info_def max_slot_height_def case_prod_unfold Let_def split: option.split)

text \<open>The computations behind the statistics only read.\<close>

named_theorems read_only "computations that leave the tables alone"

definition reads :: "(pool \<Rightarrow> 'r \<times> pool) \<Rightarrow> bool" where
  "reads m \<longleftrightarrow> (\<forall>p. p_db (snd (m p)) = p_db p)"

lemma readsD: "reads m \<Longrightarrow> p_db (snd (m p)) = p_db p"
  by (simp add: reads_def)

lemma reads_select [read_only]: "reads (select E ctx q)"
  unfolding reads_def
proof
  fix p show "p_db (snd (select E ctx q p)) = p_db p"
    by (cases "pg_fault (ae_pg (sv_api E)) (p_seq p)") simp_all
qed

lemma reads_op_ok [read_only]: "reads (op_ok a)"
  by (simp add: reads_def op_ok_def)

lemma reads_Pair [read_only]: "reads (Pair r)"
  by (simp add: reads_def)

lemma reads_op_bind [read_only]: "reads m \<Longrightarrow> (\<And>a. reads (f a)) \<Longrightarrow> reads (op_bind m f)"
  unfolding reads_def op_bind_def by (auto split: prod.split sum.split) (metis snd_conv)+

lemma reads_yielding [read_only]: "reads m \<Longrightarrow> reads (yielding m f)"
  unfolding yielding_def by (intro read_only)

lemma reads_with_cache:
  "reads m \<Longrightarrow> p_db (snd (snd (with_cache E key ttl age m q st))) = p_db (snd st)"
  unfolding reads_def with_cache_def
  by (auto split: option.split prod.split sum.split stats_failure.split) (metis snd_conv)+

lemma reads_query_ctx: "(\<And>t d. \<exists>a. q t d = Inr (d, a)) \<Longrightarrow> reads (query_ctx P ctx q)"
  unfolding reads_def query_ctx_def exec_def
  by (auto simp: Let_def split: prod.split sum.split) (metis Inr_inject prod.inject sum.distinct(1))+

lemma reads_active [read_only]: "reads (compute_active_addresses E now w n)"
  unfolding reads_def compute_active_addresses_def by (simp add: readsD [OF reads_yielding [OF reads_select]] split: sum.split)

lemma reads_finality [read_only]: "reads (finality_payload E now)"
proof -
  have "reads (compute_observed_finality E now)"
    unfolding compute_observed_finality_def
    by (intro reads_yielding reads_query_ctx) (simp add: finality_query_def Let_def)
  then show ?thesis
    unfolding reads_def finality_payload_def by (auto split: prod.split sum.split) (metis snd_conv)+
qed

lemma reads_eta [read_only]: "reads (compute_next_block_eta E now head)"
  unfolding compute_next_block_eta_def
  by (intro read_only) (auto simp: reads_def split: list.split)

lemma chain_head_db: "chain_head_of client p = (head, p') \<Longrightarrow> p_db p' = p_db p"
  by (auto simp: chain_head_of_def split: sum.splits prod.splits dest: arg_cong [where f = "\<lambda>x. p_db (snd x)"])

lemma reads_eta_handler:
  "reads (\<lambda>p. case chain_head_of client p of (head, p') \<Rightarrow> yielding (compute_next_block_eta E now head) f p')"
  unfolding reads_def by (simp add: readsD [OF reads_yielding [OF reads_eta]] chain_head_db split: prod.split)

lemmas stats_computations =
  compute_totals_def compute_new_wallets_daily_def compute_attestations_daily_def compute_tx_rate_daily_def
  compute_drips_daily_def compute_top_attesters_def compute_top_schema_owners_def compute_top_attestor_sets_def
  compute_top_holders_def

lemma reads_stats [read_only]:
  "reads (compute_totals E B sg t)" "reads (compute_new_wallets_daily E now d)" "reads (compute_attestations_daily E now d)"
  "reads (compute_tx_rate_daily E' now d)" "reads (compute_drips_daily E now d f)" "reads (compute_top_attesters E' n)"
  "reads (compute_top_schema_owners E' n)" "reads (compute_top_attestor_sets E' n)" "reads (compute_top_holders E B sg n)"
  unfolding stats_computations Let_def by (intro read_only)+

lemma stats_handle_db [simp]: "p_db (snd (snd (stats_handle A e B q st))) = p_db (snd st)"
  by (cases e)
     (auto simp: endpoint_defs active_addresses_def Let_def intro!: reads_with_cache read_only reads_eta_handler
       split: sum.split)

lemma cluster_nodes_db [simp]: "p_db (snd (cluster_nodes C tok p)) = p_db p"
  by (simp add: cluster_nodes_def send_def Let_def split: Client.reply.split)

lemma nodes_db [simp]: "p_db (snd (snd (nodes R client tok q st))) = p_db (snd st)"
proof -
  have "p_db p' = p_db (snd st)" if "fetch_and_transform client tok c (snd st) = (t, p')" for c t p'
    using that by (auto simp: fetch_and_transform_def Let_def split: sum.splits prod.splits
        dest: arg_cong [where f = "\<lambda>x. p_db (snd x)"])
  then show ?thesis by (simp add: nodes_def Let_def split: option.split prod.split sum.split)
qed

section \<open>Effects\<close>

text \<open>The faucet endpoints are the only ones that change more than the caches.\<close>

definition app_effect :: "endpoint \<Rightarrow> pool \<times> 'key app_state \<Rightarrow> pool \<times> 'key app_state \<Rightarrow> bool" where
  "app_effect e st st' \<longleftrightarrow>
     (if e = H_drip then
        fst st' = fst st \<and> app_stats_cache (snd st') = app_stats_cache (snd st) \<and>
        app_cluster_cache (snd st') = app_cluster_cache (snd st)
      else if e = H_drip_bot then
        app_limiter (snd st') = app_limiter (snd st) \<and> app_stats_cache (snd st') = app_stats_cache (snd st) \<and>
        app_cluster_cache (snd st') = app_cluster_cache (snd st) \<and>
        (p_db (fst st') = p_db (fst st) \<or>
         (\<exists>row. p_db (fst st') = (p_db (fst st))\<lparr>bot_drips := bot_drips (p_db (fst st)) @ [row]\<rparr>))
      else p_db (fst st') = p_db (fst st) \<and> app_signer (snd st') = app_signer (snd st) \<and>
        app_limiter (snd st') = app_limiter (snd st))"

lemma reading_effect:
  "reads m \<Longrightarrow> reading f m st = (r, st') \<Longrightarrow> p_db (fst st') = p_db (fst st) \<and> snd st' = snd st"
  by (auto simp: reading_def split: prod.splits dest: readsD [of m "fst st"])

lemma pay_bot_db:
  assumes "pay_bot S P c utc req (p, sg) = (r, p', sg')"
  shows "p_db p' = p_db p \<or> (\<exists>row. p_db p' = (p_db p)\<lparr>bot_drips := bot_drips (p_db p) @ [row]\<rparr>)"
  using assms
  by (auto simp: pay_bot_def insert_bot_drip_def exec_def Let_def split: prod.splits sum.splits if_splits)

lemma drip_bot_db:
  assumes "drip_bot S P c utc h req (p, sg) = (r, p', sg')"
  shows "p_db p' = p_db p \<or> (\<exists>row. p_db p' = (p_db p)\<lparr>bot_drips := bot_drips (p_db p) @ [row]\<rparr>)"
proof -
  obtain r1 p1 where 1: "cooldown_check P c (utc 0) ''address'' (bq_address req) ''address'' p = (r1, p1)" by force
  obtain r2 p2 where 2: "cooldown_check P c (utc 1) ''discord_user_id'' (bq_discord_user_id req) ''Discord user'' p1 = (r2, p2)"
    by force
  obtain r3 p3 sg3 where 3: "pay_bot S P c utc req (p2, sg) = (r3, p3, sg3)" by (cases "pay_bot S P c utc req (p2, sg)") auto
  have "p' = p \<or> p' = p1 \<or> p' = p2 \<or> p' = p3"
    using assms unfolding drip_bot_def Let_def fst_conv snd_conv 1
    by (auto simp: 2 3 simp del: One_nat_def split: option.splits if_splits sum.splits)
  moreover have "p_db p1 = p_db p" "p_db p2 = p_db p1" using 1 2 cooldown_check_db by blast+
  ultimately show ?thesis using pay_bot_db [OF 3] by metis
qed

lemma stats_route_safe [simp]: "stats_route e \<noteq> H_drip" "stats_route e \<noteq> H_drip_bot"
  by (cases e; simp)+

lemma reads_handlers [read_only]:
  "reads (info E c)" "reads (blocks_list E q)" "reads (block_by_height E h)" "reads (txs_list E tq)"
  "reads (get_tx_by_hash E x)" "reads (address_summary E B sg x)" "reads (address_txs E x q)"
  "reads (schemas_list E' sq)" "reads (get_schema_by_id E x)" "reads (attestor_sets_list E' q)"
  "reads (attestor_sets_by_member E' C x q)" "reads (get_attestor_set_by_id E x)"
  "reads (attestations_by_attestor_set E' x q)" "reads (attestations_by_schema E' x q)" "reads (attestations_list E' q)"
  "reads (attestation_by_id E x)" "reads (bounties_list E' bq)" "reads (bounties_matching E' x)" "reads (bounty_detail E x)"
  "reads (contracts_list E' cq)" "reads (contract_detail E x)" "reads (search E' x)"
  by (simp_all add: reads_def)

lemma handle_effect:
  assumes "handle A r st = (resp, st')"
  shows "app_effect (endpoint_of r) st st'"
proof -
  obtain p a where st: "st = (p, a)" by (cases st) auto
  show ?thesis
    using assms
    by (cases r)
       (auto simp: app_effect_def st reads_handlers split: prod.splits
         dest!: reading_effect [rotated] drip_bot_db
         dest: arg_cong [where f = "\<lambda>x. p_db (snd (snd x))"])
qed

section \<open>Properties\<close>

lemma dispatch_Call:
  assumes "path_router lookup" and "dispatch lookup asked path = Call e args"
  shows "\<exists>pat declared. (pat, declared, e) \<in> set routes \<and> serves declared asked"
proof -
  obtain pat declared where "lookup routes path = Some (pat, declared, e)" "serves declared asked"
    using assms(2) by (auto simp: dispatch_def split: option.splits if_splits)
  then show ?thesis using path_router.found [OF assms(1)] by blast
qed

lemma post_routes:
  "(pat, declared, e) \<in> set routes \<Longrightarrow> (e \<in> {H_drip, H_drip_bot} \<longleftrightarrow> declared = POST) \<and> declared \<in> {GET, POST}"
  by (auto simp: routes_def)

text \<open>C8. Safe methods are safe. Whatever path, parameters and headers a GET or HEAD request has, it leaves every
  table, the signer with its nonce and the rate limiter as they were; only the two response caches and
  the count of statements may move. Requests for unknown paths, for a method the path does not declare,
  or with parameters that do not parse change nothing at all. A POST reaches nothing but the two
  faucets: the web faucet does not touch the database, and the Discord faucet adds at most one row to
  its own table and leaves the limiter alone.\<close>

theorem http_effects:
  assumes "path_router lookup" and "\<And>e args parts r. extract e args parts = Inr r \<Longrightarrow> endpoint_of r = e"
    and "http_serve lookup extract A asked path parts st = (resp, st')"
  shows "(case dispatch lookup asked path of
      Call e args \<Rightarrow> st' = st \<or> (app_effect e st st' \<and> (asked = POST \<longleftrightarrow> e \<in> {H_drip, H_drip_bot}))
    | _ \<Rightarrow> st' = st) \<and>
    (asked \<noteq> POST \<longrightarrow> p_db (fst st') = p_db (fst st) \<and> app_signer (snd st') = app_signer (snd st) \<and>
       app_limiter (snd st') = app_limiter (snd st))"
proof (cases "dispatch lookup asked path")
  case (Call e args)
  obtain pat declared where route: "(pat, declared, e) \<in> set routes" "serves declared asked"
    using dispatch_Call [OF assms(1) Call] by blast
  have posts: "asked = POST \<longleftrightarrow> e \<in> {H_drip, H_drip_bot}"
    using post_routes [OF route(1)] route(2) by (auto simp: serves_def)
  show ?thesis
  proof (cases "extract e args parts")
    case (Inl status)
    then show ?thesis using assms(3) Call by (simp add: http_serve_def)
  next
    case (Inr r)
    then have "handle A r st = (resp, st')" using assms(3) Call by (simp add: http_serve_def)
    then have "app_effect e st st'" using handle_effect assms(2) [OF Inr] by blast
    then show ?thesis using posts by (auto simp: Call app_effect_def)
  qed
qed (use assms(3) in \<open>simp_all add: http_serve_def\<close>)

definition demo_extract :: "endpoint \<Rightarrow> (string \<times> string) list \<Rightarrow> unit \<Rightarrow> (nat, api_request) result" where
  "demo_extract e args parts =
     (if e = H_drip then Inr (R_drip ''lig1a'' 1 2) else if e = H_health then Inr R_health else Inl 400)"

definition demo_env :: "(string, unit, string) app_env" where
  "demo_env = \<lparr>ap_env = plain_stats, ap_sdk = demo_sdk, ap_crypto = toy_crypto, ap_config = sample_config,
     ap_client = Inl (NodeUnreachable ''no url'')\<rparr>"

definition demo_state :: "unit app_state" where
  "demo_state = \<lparr>app_signer = demo_signer, app_limiter = rl_new 10, app_stats_cache = [], app_cluster_cache = None\<rparr>"

theorem http_effects_witness:
  "\<exists>resp st'. http_serve scan demo_extract demo_env POST ''/v1/drip'' () (fresh_pool, demo_state) = (resp, st') \<and>
     fst st' = fresh_pool \<and> app_stats_cache (snd st') = []"
proof -
  obtain resp st' where s: "http_serve scan demo_extract demo_env POST ''/v1/drip'' () (fresh_pool, demo_state) = (resp, st')"
    by (cases "http_serve scan demo_extract demo_env POST ''/v1/drip'' () (fresh_pool, demo_state)") blast
  have e: "demo_extract e args parts = Inr r \<Longrightarrow> endpoint_of r = e" for e args parts r
    by (auto simp: demo_extract_def split: if_splits)
  have "dispatch scan POST ''/v1/drip'' = Call H_drip []"
    by (simp add: dispatch_def scan_def scan_step_def routes_def route_matches_def pattern_of_def segment_of_def serves_def)
  moreover have "case dispatch scan POST ''/v1/drip'' of
      Call e args \<Rightarrow> st' = (fresh_pool, demo_state) \<or>
        (app_effect e (fresh_pool, demo_state) st' \<and> (POST = POST \<longleftrightarrow> e \<in> {H_drip, H_drip_bot}))
    | _ \<Rightarrow> st' = (fresh_pool, demo_state)"
    by (rule http_effects [OF scan.path_router_axioms _ s, THEN conjunct1]) (rule e)
  ultimately have "fst st' = fresh_pool \<and> app_stats_cache (snd st') = []"
    by (auto simp: app_effect_def demo_state_def)
  then show ?thesis using s by blast
qed

end
