(* ===== verification/Socket_Addr.thy ===== *)
theory Socket_Addr
  imports Prelude
begin

text \<open>
  How the address to listen on is read: \<^verbatim>\<open>config.bind.parse::<SocketAddr>()\<close> in
  \<^verbatim>\<open>crates/api/src/main.rs\<close>, that is the parser of the standard library for
  \<^verbatim>\<open>a.b.c.d:port\<close> and \<^verbatim>\<open>[v6%scope]:port\<close>. A reader takes text and returns
  what it read with the rest; a reader that fails consumes nothing.
\<close>

type_synonym 'a reader = "string \<Rightarrow> ('a \<times> string) option"

datatype socket_addr =
    V4 "nat list" nat
  | V6 "nat list" nat nat

definition to_digit :: "nat \<Rightarrow> char \<Rightarrow> nat option" where
  "to_digit radix c =
     (let n = (of_char c :: nat);
          v = (if 48 \<le> n \<and> n \<le> 57 then Some (n - 48)
               else if 97 \<le> n \<and> n \<le> 122 then Some (n - 87)
               else if 65 \<le> n \<and> n \<le> 90 then Some (n - 55) else None)
      in case v of Some d \<Rightarrow> if d < radix then Some d else None | None \<Rightarrow> None)"

fun read_digits :: "nat \<Rightarrow> string \<Rightarrow> nat list \<times> string" where
  "read_digits radix [] = ([], [])"
| "read_digits radix (c # cs) =
     (case to_digit radix c of
        None \<Rightarrow> ([], c # cs)
      | Some d \<Rightarrow> (case read_digits radix cs of (ds, rest) \<Rightarrow> (d # ds, rest)))"

definition number_of :: "nat \<Rightarrow> nat \<Rightarrow> nat list \<Rightarrow> nat" where
  "number_of radix = foldl (\<lambda>acc d. radix * acc + d)"

definition read_number :: "nat \<Rightarrow> nat option \<Rightarrow> bool \<Rightarrow> nat \<Rightarrow> nat reader" where
  "read_number radix max_digits allow_zero_prefix bound s =
     (case read_digits radix s of
        (ds, rest) \<Rightarrow>
          if ds = [] then None
          else if (case max_digits of Some m \<Rightarrow> m < length ds | None \<Rightarrow> False) then None
          else if \<not> allow_zero_prefix \<and> hd s = CHR ''0'' \<and> 1 < length ds then None
          else if number_of radix 0 ds < bound then Some (number_of radix 0 ds, rest) else None)"

definition read_given_char :: "char \<Rightarrow> string \<Rightarrow> string option" where
  "read_given_char c s = (case s of [] \<Rightarrow> None | x # xs \<Rightarrow> if x = c then Some xs else None)"

definition read_separator :: "char \<Rightarrow> nat \<Rightarrow> 'a reader \<Rightarrow> 'a reader" where
  "read_separator sep i inner s = (if i > 0 then Option.bind (read_given_char sep s) inner else inner s)"

fun read_octets :: "nat \<Rightarrow> nat \<Rightarrow> nat list reader" where
  "read_octets i 0 s = Some ([], s)"
| "read_octets i (Suc k) s =
     (case read_separator (CHR ''.'') i (read_number 10 (Some 3) False 256) s of
        None \<Rightarrow> None
      | Some (n, rest) \<Rightarrow> map_option (\<lambda>(ns, rest'). (n # ns, rest')) (read_octets (Suc i) k rest))"

definition read_ipv4_addr :: "nat list reader" where
  "read_ipv4_addr = read_octets 0 4"

text \<open>The groups of an IPv6 address, up to a limit; the flag tells whether an IPv4 tail ended them.\<close>

fun read_groups :: "nat \<Rightarrow> nat \<Rightarrow> string \<Rightarrow> nat list \<times> bool \<times> string" where
  "read_groups i 0 s = ([], False, s)"
| "read_groups i (Suc k) s =
     (case (if k > 0 then read_separator (CHR '':'') i read_ipv4_addr s else None) of
        Some (v4, rest) \<Rightarrow> ([256 * v4 ! 0 + v4 ! 1, 256 * v4 ! 2 + v4 ! 3], True, rest)
      | None \<Rightarrow>
          (case read_separator (CHR '':'') i (read_number 16 (Some 4) True 65536) s of
             None \<Rightarrow> ([], False, s)
           | Some (g, rest) \<Rightarrow>
               (case read_groups (Suc i) k rest of (gs, v4, rest') \<Rightarrow> (g # gs, v4, rest'))))"

definition read_ipv6_addr :: "nat list reader" where
  "read_ipv6_addr s =
     (case read_groups 0 8 s of
        (head, v4, rest) \<Rightarrow>
          if length head = 8 then Some (head, rest)
          else if v4 then None
          else Option.bind (Option.bind (read_given_char (CHR '':'') rest) (read_given_char (CHR '':'')))
            (\<lambda>rest'. case read_groups 0 (8 - (length head + 1)) rest' of
               (tail, _, rest'') \<Rightarrow> Some (head @ replicate (8 - length head - length tail) 0 @ tail, rest'')))"

definition read_port :: "nat reader" where
  "read_port s = Option.bind (read_given_char (CHR '':'') s) (read_number 10 None True (2 ^ 16))"

definition read_scope_id :: "nat reader" where
  "read_scope_id s = Option.bind (read_given_char (CHR ''%'') s) (read_number 10 None True (2 ^ 32))"

definition read_socket_addr_v4 :: "socket_addr reader" where
  "read_socket_addr_v4 s =
     Option.bind (read_ipv4_addr s) (\<lambda>(ip, rest). map_option (\<lambda>(port, rest'). (V4 ip port, rest')) (read_port rest))"

definition read_socket_addr_v6 :: "socket_addr reader" where
  "read_socket_addr_v6 s =
     Option.bind (Option.bind (read_given_char (CHR ''['') s) read_ipv6_addr) (\<lambda>(ip, rest).
       let (scope, rest1) = (case read_scope_id rest of Some r \<Rightarrow> r | None \<Rightarrow> (0, rest))
       in Option.bind (read_given_char (CHR '']'') rest1) (\<lambda>rest2.
            map_option (\<lambda>(port, rest'). (V6 ip scope port, rest')) (read_port rest2)))"

definition parse_socket_addr :: "string \<Rightarrow> socket_addr option" where
  "parse_socket_addr s =
     (case (case read_socket_addr_v4 s of Some r \<Rightarrow> Some r | None \<Rightarrow> read_socket_addr_v6 s) of
        Some (addr, []) \<Rightarrow> Some addr
      | _ \<Rightarrow> None)"

section \<open>Lemmas\<close>

lemma to_digit_decimal: "digit_val c = Some d \<Longrightarrow> to_digit 10 c = Some d"
  by (auto simp: digit_val_def to_digit_def Let_def split: if_splits)

lemma read_digits_decimal:
  assumes "parse_digits acc s = Some n"
  shows "\<exists>ds. read_digits 10 s = (ds, []) \<and> length ds = length s \<and> number_of 10 acc ds = n"
  using assms
  by (induction s arbitrary: acc) (fastforce simp: number_of_def to_digit_decimal split: option.splits)+

lemma read_port_show: "p < 65536 \<Longrightarrow> read_port (CHR '':'' # show_nat p) = Some (p, [])"
  using read_digits_decimal [OF parse_digits_show_nat [of p]]
  by (auto simp: read_port_def read_given_char_def read_number_def)

text \<open>An address on all interfaces with a decimal port is read as such.\<close>

lemma parse_any_interface:
  assumes "p < 65536"
  shows "parse_socket_addr (''0.0.0.0:'' @ show_nat p) = Some (V4 [0, 0, 0, 0] p)"
proof -
  have "read_ipv4_addr (''0.0.0.0:'' @ show_nat p) = Some ([0, 0, 0, 0], CHR '':'' # show_nat p)"
    by (simp add: read_ipv4_addr_def numeral_eq_Suc read_separator_def read_number_def to_digit_def number_of_def
        read_given_char_def)
  then show ?thesis using read_port_show [OF assms] by (simp add: parse_socket_addr_def read_socket_addr_v4_def)
qed

text \<open>What is read lies in the range of an address.\<close>

lemma read_number_bound: "read_number radix m z b s = Some (n, rest) \<Longrightarrow> n < b"
  by (auto simp: read_number_def split: prod.splits if_splits)

lemma read_separator_SomeD: "read_separator sep i inner s = Some r \<Longrightarrow> \<exists>s'. inner s' = Some r"
  by (auto simp: read_separator_def split: if_splits bind_splits)

lemma read_octets_shape:
  "read_octets i k s = Some (ns, rest) \<Longrightarrow> length ns = k \<and> (\<forall>n \<in> set ns. n < 256)"
proof (induction k arbitrary: i s ns rest)
  case (Suc k)
  then show ?case
    by (fastforce split: option.splits prod.splits dest!: read_separator_SomeD read_number_bound)
qed simp

lemma read_groups_shape:
  "read_groups i k s = (gs, v4, rest) \<Longrightarrow> length gs \<le> k \<and> (\<forall>g \<in> set gs. g < 65536)"
proof (induction i k s arbitrary: gs v4 rest rule: read_groups.induct)
  case (2 i k s)
  show ?case
  proof (cases "if k > 0 then read_separator (CHR '':'') i read_ipv4_addr s else None")
    case None
    then show ?thesis using 2
      by (fastforce split: option.splits prod.splits dest!: read_separator_SomeD read_number_bound)
  next
    case (Some r)
    obtain v r' where r: "r = (v, r')" by force
    obtain s' where "read_ipv4_addr s' = Some (v, r')" using Some r by (auto split: if_splits dest: read_separator_SomeD)
    then have v: "length v = 4" "\<forall>n \<in> set v. n < 256" using read_octets_shape by (auto simp: read_ipv4_addr_def)
    have at: "v ! j < 256" if "j < 4" for j using v that by simp
    have "256 * v ! 0 + v ! 1 < 65536" "256 * v ! 2 + v ! 3 < 65536"
      using at [of 0] at [of 1] at [of 2] at [of 3] by simp_all
    moreover have "0 < k" using Some by (auto split: if_splits)
    ultimately show ?thesis using 2(2) Some r by auto
  qed
qed simp

fun addr_wf :: "socket_addr \<Rightarrow> bool" where
  "addr_wf (V4 ip port) \<longleftrightarrow> length ip = 4 \<and> (\<forall>n \<in> set ip. n < 256) \<and> port < 2 ^ 16"
| "addr_wf (V6 ip scope port) \<longleftrightarrow> length ip = 8 \<and> (\<forall>g \<in> set ip. g < 65536) \<and> scope < 2 ^ 32 \<and> port < 2 ^ 16"

lemma read_ipv6_shape: "read_ipv6_addr s = Some (ip, rest) \<Longrightarrow> length ip = 8 \<and> (\<forall>g \<in> set ip. g < 65536)"
  by (fastforce simp: read_ipv6_addr_def split: prod.splits if_splits bind_splits dest!: read_groups_shape)

lemma read_port_bound: "read_port s = Some (n, rest) \<Longrightarrow> n < 2 ^ 16"
  unfolding read_port_def by (auto split: bind_splits dest: read_number_bound)

lemma read_scope_bound: "read_scope_id s = Some (n, rest) \<Longrightarrow> n < 2 ^ 32"
  unfolding read_scope_id_def by (auto split: bind_splits dest: read_number_bound)

lemma read_v4_wf: "read_socket_addr_v4 s = Some (a, rest) \<Longrightarrow> addr_wf a"
  by (auto simp: read_socket_addr_v4_def read_ipv4_addr_def simp del: power_numeral split: bind_splits
      dest!: read_octets_shape read_port_bound)

lemma read_v6_wf: "read_socket_addr_v6 s = Some (a, rest) \<Longrightarrow> addr_wf a"
  by (auto simp: read_socket_addr_v6_def Let_def simp del: power_numeral split: bind_splits option.splits prod.splits
      dest!: read_ipv6_shape read_port_bound read_scope_bound)

lemma parse_socket_addr_wf: "parse_socket_addr s = Some a \<Longrightarrow> addr_wf a"
  by (auto simp: parse_socket_addr_def split: option.splits prod.splits list.splits dest: read_v4_wf read_v6_wf)

end
