(* ===== verification/Startup.thy ===== *)
theory Startup
  imports App Socket_Addr
begin

text \<open>
  The start of the process, \<^verbatim>\<open>main\<close> in \<^verbatim>\<open>crates/api/src/main.rs\<close>: the configuration, the
  database and its migrations, the signer with its seeded nonce, the budget check, the shared state, the
  indexer task and the listener, in the order of the code, with the outcome of each step that can fail.
  What the steps ask of the outside (sqlx, the chain SDK, the operating system) is the record \<open>boot_world\<close>.
\<close>

section \<open>Data\<close>

record ('key, 'addr) boot_world =
  bw_env :: environment
  bw_sdk :: "('key, 'addr) sdk"
  bw_token_id :: "u8 list \<Rightarrow> (string, u8 list) result"
  bw_connect :: "nat \<Rightarrow> string \<Rightarrow> (string, pool) result"
  bw_migrate :: "pool \<Rightarrow> (string, pool) result"
  bw_bank :: "nat \<Rightarrow> bank"
  bw_bind :: "socket_addr \<Rightarrow> (string, unit) result"

record indexer_config =
  ix_rpc_url :: string
  ix_database_url :: string
  ix_start_height :: "u64 option"
  ix_numeric_chain_id :: u64

record 'key process =
  pr_config :: config
  pr_bind :: socket_addr
  pr_pool :: pool
  pr_app :: "'key app_state"
  pr_indexer :: indexer_config

text \<open>
  What a boot does that can be seen from outside, in order, and how it ends. Of an error the outermost
  context is kept, without the values interpolated into it; only the redacted database URL is written out.
\<close>

datatype boot_event =
    Starting socket_addr
  | Connected
  | Migrated
  | Signer_loaded string u64
  | Budget_checked
  | Budget_skipped
  | Indexer_spawned indexer_config
  | Listening socket_addr

datatype boot_error =
    Boot_error string
  | Boot_panicked string

type_synonym 'a boot = "boot_event list \<times> (boot_error, 'a) result"

definition attempt :: "('a \<Rightarrow> boot_event list) \<Rightarrow> (boot_error, 'a) result \<Rightarrow> 'a boot" where
  "attempt events r = (case r of Inl e \<Rightarrow> ([], Inl e) | Inr a \<Rightarrow> (events a, Inr a))"

definition and_then :: "'a boot \<Rightarrow> ('a \<Rightarrow> 'b boot) \<Rightarrow> 'b boot" where
  "and_then m f =
     (case m of
        (evs, Inl e) \<Rightarrow> (evs, Inl e)
      | (evs, Inr a) \<Rightarrow> (case f a of (evs', r) \<Rightarrow> (evs @ evs', r)))"

definition map_err :: "('e \<Rightarrow> 'f) \<Rightarrow> ('e, 'a) result \<Rightarrow> ('f, 'a) result" where
  "map_err f r = (case r of Inl e \<Rightarrow> Inl (f e) | Inr a \<Rightarrow> Inr a)"

abbreviation with_context :: "string \<Rightarrow> ('e, 'a) result \<Rightarrow> (boot_error, 'a) result" where
  "with_context text \<equiv> map_err (\<lambda>_. Boot_error text)"

section \<open>The steps\<close>

definition load_config :: "('key, 'addr) boot_world \<Rightarrow> (config \<times> socket_addr) boot" where
  "load_config W =
     attempt (\<lambda>(c, addr). [Starting addr])
       (bind_result (with_context ''loading config from env'' (from_env (bw_sdk W) (bw_env W))) (\<lambda>c.
        bind_result (ok_or (Boot_error ''parsing API_BIND as SocketAddr'') (parse_socket_addr (cf_bind c))) (\<lambda>addr.
        Inr (c, addr))))"

definition open_database :: "('key, 'addr) boot_world \<Rightarrow> config \<Rightarrow> pool boot" where
  "open_database W c =
     and_then (attempt (\<lambda>_. [Connected])
       (with_context (''connecting to Postgres at '' @ redact_pg_url (cf_database_url c))
          (bw_connect W (cf_pg_pool_size c) (cf_database_url c)))) (\<lambda>pg.
     attempt (\<lambda>_. [Migrated]) (with_context ''running sqlx migrations'' (bw_migrate W pg)))"

definition build_signer :: "('key, 'addr) boot_world \<Rightarrow> config \<Rightarrow> ('key signer \<times> u64) boot" where
  "build_signer W c =
     attempt (\<lambda>(sg, starting_nonce). [Signer_loaded (signer_address (bw_sdk W) sg) starting_nonce])
       (bind_result (with_context ''AVOW_TOKEN_ID must be valid hex'' (hex_decode (bw_sdk W) (cf_avow_token_id_hex c)))
          (\<lambda>token_id_bytes.
        bind_result (map_err (\<lambda>e. Boot_error (''AVOW_TOKEN_ID wrong shape: '' @ e)) (bw_token_id W token_id_bytes)) (\<lambda>token.
        with_context ''building drip signer''
          (new_with_chain_seed (bw_sdk W) (cf_drip_signer_key c) (cf_chain_rpc c) (cf_chain_id c) (cf_chain_hash c)
             token (cf_drip_starting_nonce c)))))"

definition require_budget :: "('key, 'addr) boot_world \<Rightarrow> config \<Rightarrow> 'key signer \<Rightarrow> unit boot" where
  "require_budget W c sg =
     attempt (\<lambda>_. [if cf_drip_min_budget c > 0 then Budget_checked else Budget_skipped])
       (case budget_check c (\<lambda>i. query_self_balance (bw_sdk W) (bw_bank W i) sg) of
          Boot_ok \<Rightarrow> Inr ()
        | Boot_refused m \<Rightarrow> Inl (Boot_error m)
        | Boot_panic m \<Rightarrow> Inl (Boot_panicked m))"

definition new_app_state :: "config \<Rightarrow> 'key signer \<Rightarrow> 'key app_state" where
  "new_app_state c sg =
     \<lparr>app_signer = sg, app_limiter = rl_new (cf_drip_rate_limit_secs c * NANOS_PER_SEC),
      app_stats_cache = [], app_cluster_cache = None\<rparr>"

definition indexer_config_of :: "config \<Rightarrow> indexer_config" where
  "indexer_config_of c =
     \<lparr>ix_rpc_url = cf_chain_rpc c, ix_database_url = cf_database_url c,
      ix_start_height = cf_indexer_start_height c, ix_numeric_chain_id = cf_chain_id c\<rparr>"

definition listen :: "('key, 'addr) boot_world \<Rightarrow> socket_addr \<Rightarrow> unit boot" where
  "listen W addr = attempt (\<lambda>_. [Listening addr]) (with_context ''binding listener'' (bw_bind W addr))"

definition boot_process :: "('key, 'addr) boot_world \<Rightarrow> 'key process boot" where
  "boot_process W =
     and_then (load_config W) (\<lambda>(c, addr).
     and_then (open_database W c) (\<lambda>pg.
     and_then (build_signer W c) (\<lambda>(sg, starting_nonce).
     and_then (require_budget W c sg) (\<lambda>_.
     and_then ([Indexer_spawned (indexer_config_of c)], Inr ()) (\<lambda>_.
     and_then (listen W addr) (\<lambda>_.
     ([], Inr \<lparr>pr_config = c, pr_bind = addr, pr_pool = pg, pr_app = new_app_state c sg,
               pr_indexer = indexer_config_of c\<rparr>)))))))"

section \<open>Lemmas\<close>

named_theorems boot_inv "what the success of a step says"

lemma and_then_Inr:
  "and_then m f = (evs, Inr b) \<longleftrightarrow>
     (\<exists>evs1 evs2 a. m = (evs1, Inr a) \<and> f a = (evs2, Inr b) \<and> evs = evs1 @ evs2)"
  by (auto simp: and_then_def split: prod.splits sum.splits)

lemma and_then_Inl:
  "and_then m f = (evs, Inl e) \<longleftrightarrow>
     m = (evs, Inl e) \<or> (\<exists>evs1 evs2 a. m = (evs1, Inr a) \<and> f a = (evs2, Inl e) \<and> evs = evs1 @ evs2)"
  by (auto simp: and_then_def split: prod.splits sum.splits)

lemma attempt_Inr: "attempt f r = (evs, Inr a) \<longleftrightarrow> r = Inr a \<and> evs = f a"
  by (auto simp: attempt_def split: sum.splits)

lemma attempt_Inl: "attempt f r = (evs, Inl e) \<longleftrightarrow> r = Inl e \<and> evs = []"
  by (auto simp: attempt_def split: sum.splits)

lemma map_err_Inr [simp]: "map_err f r = Inr a \<longleftrightarrow> r = Inr a"
  by (cases r) (simp_all add: map_err_def)

lemma load_config_Inr [boot_inv]:
  "load_config W = (evs, Inr (c, addr)) \<longleftrightarrow>
     from_env (bw_sdk W) (bw_env W) = Inr c \<and> parse_socket_addr (cf_bind c) = Some addr \<and> evs = [Starting addr]"
  by (auto simp: load_config_def attempt_Inr bind_result_Inr_iff)

lemma open_database_Inr [boot_inv]:
  "open_database W c = (evs, Inr pg) \<longleftrightarrow>
     (\<exists>pg0. bw_connect W (cf_pg_pool_size c) (cf_database_url c) = Inr pg0 \<and> bw_migrate W pg0 = Inr pg) \<and>
     evs = [Connected, Migrated]"
  by (auto simp: open_database_def and_then_Inr attempt_Inr)

text \<open>A signer that was built carries the identity of the configuration and the resolved nonce.\<close>

lemma new_with_chain_seed_Inr:
  assumes "new_with_chain_seed S key rpc cid chash token override = Inr (sg, n)"
  shows "nonce sg = n" "sg_chain_id sg = cid" "sg_chain_hash sg = chash" "avow_token_id sg = token"
    "chain_rpc_with_v1 sg = normalise_rpc rpc"
    "case override of Some m \<Rightarrow> n = m | None \<Rightarrow> get_nonce_for_key S (private_key sg) = Inr n"
  using assms by (auto simp: new_with_chain_seed_def signer_new_def split: sum.splits option.splits if_splits)

definition signer_of :: "('key, 'addr) boot_world \<Rightarrow> config \<Rightarrow> 'key signer \<Rightarrow> bool" where
  "signer_of W c sg \<longleftrightarrow>
     sg_chain_id sg = cf_chain_id c \<and> sg_chain_hash sg = cf_chain_hash c \<and>
     chain_rpc_with_v1 sg = normalise_rpc (cf_chain_rpc c) \<and>
     (\<exists>b. hex_decode (bw_sdk W) (cf_avow_token_id_hex c) = Inr b \<and> bw_token_id W b = Inr (avow_token_id sg)) \<and>
     (case cf_drip_starting_nonce c of
        Some n \<Rightarrow> nonce sg = n
      | None \<Rightarrow> get_nonce_for_key (bw_sdk W) (private_key sg) = Inr (nonce sg))"

lemma build_signer_InrD [boot_inv]:
  assumes "build_signer W c = (evs, Inr (sg, n))"
  shows "signer_of W c sg \<and> evs = [Signer_loaded (signer_address (bw_sdk W) sg) (nonce sg)]"
proof -
  obtain b token where b: "hex_decode (bw_sdk W) (cf_avow_token_id_hex c) = Inr b" "bw_token_id W b = Inr token"
    and sg: "new_with_chain_seed (bw_sdk W) (cf_drip_signer_key c) (cf_chain_rpc c) (cf_chain_id c) (cf_chain_hash c)
             token (cf_drip_starting_nonce c) = Inr (sg, n)"
    and evs: "evs = [Signer_loaded (signer_address (bw_sdk W) sg) n]"
    using assms by (auto simp: build_signer_def attempt_Inr bind_result_Inr_iff)
  show ?thesis using new_with_chain_seed_Inr [OF sg] b evs by (auto simp: signer_of_def split: option.splits)
qed

definition funded :: "('key, 'addr) boot_world \<Rightarrow> config \<Rightarrow> 'key signer \<Rightarrow> bool" where
  "funded W c sg \<longleftrightarrow>
     (\<exists>i < 5. \<exists>b. query_self_balance (bw_sdk W) (bw_bank W i) sg = Inr b \<and>
        cf_drip_min_budget c * cf_drip_amount c \<le> b)"

lemma require_budget_InrD [boot_inv]:
  assumes "require_budget W c sg = (evs, Inr u)"
  shows "budget_check c (\<lambda>i. query_self_balance (bw_sdk W) (bw_bank W i) sg) = Boot_ok \<and>
    evs = [if cf_drip_min_budget c > 0 then Budget_checked else Budget_skipped]"
  using assms by (auto simp: require_budget_def attempt_Inr split: boot_outcome.splits)

lemma listen_Inr [boot_inv]: "listen W addr = (evs, Inr u) \<longleftrightarrow> bw_bind W addr = Inr u \<and> evs = [Listening addr]"
  by (auto simp: listen_def attempt_Inr)

lemmas boot_stages = boot_process_def and_then_Inr

lemma boot_process_InrD:
  assumes "boot_process W = (evs, Inr pr)"
  obtains c addr pg0 pg sg evs1 u where
    "from_env (bw_sdk W) (bw_env W) = Inr c" "parse_socket_addr (cf_bind c) = Some addr"
    "bw_connect W (cf_pg_pool_size c) (cf_database_url c) = Inr pg0" "bw_migrate W pg0 = Inr pg"
    "signer_of W c sg" "budget_check c (\<lambda>i. query_self_balance (bw_sdk W) (bw_bank W i) sg) = Boot_ok"
    "bw_bind W addr = Inr u"
    "pr = \<lparr>pr_config = c, pr_bind = addr, pr_pool = pg, pr_app = new_app_state c sg, pr_indexer = indexer_config_of c\<rparr>"
    "evs = [Starting addr, Connected, Migrated, Signer_loaded (signer_address (bw_sdk W) sg) (nonce sg),
       if cf_drip_min_budget c > 0 then Budget_checked else Budget_skipped,
       Indexer_spawned (indexer_config_of c), Listening addr]"
  using assms by (auto simp: boot_stages load_config_Inr open_database_Inr listen_Inr dest!: build_signer_InrD require_budget_InrD)

section \<open>Properties\<close>

text \<open>C10. A process that serves was started soundly: its configuration loaded, its address is a well-formed one,
  its database was reached and migrated, its signer has the chain identity of the configuration and
  starts at the operator's nonce or else at the chain's, and, unless the check is switched off, a
  balance that pays for the required drips was seen in one of five tries. It starts with no remembered
  drips and empty caches, the indexer task reads the same node, database and chain id, and the events
  come in this order.\<close>

theorem boot_sound:
  assumes "boot_process W = (evs, Inr pr)"
  defines "c \<equiv> pr_config pr" and "sg \<equiv> app_signer (pr_app pr)"
  shows "from_env (bw_sdk W) (bw_env W) = Inr c \<and> parse_socket_addr (cf_bind c) = Some (pr_bind pr) \<and>
    addr_wf (pr_bind pr) \<and>
    (\<exists>pg. bw_connect W (cf_pg_pool_size c) (cf_database_url c) = Inr pg \<and> bw_migrate W pg = Inr (pr_pool pr)) \<and>
    signer_of W c sg \<and> (0 < cf_drip_min_budget c \<longrightarrow> 0 < cf_drip_amount c \<and> funded W c sg) \<and>
    app_limiter (pr_app pr) = rl_new (cf_drip_rate_limit_secs c * NANOS_PER_SEC) \<and>
    app_stats_cache (pr_app pr) = [] \<and> app_cluster_cache (pr_app pr) = None \<and>
    ix_rpc_url (pr_indexer pr) = cf_chain_rpc c \<and> ix_database_url (pr_indexer pr) = cf_database_url c \<and>
    ix_numeric_chain_id (pr_indexer pr) = sg_chain_id sg \<and>
    evs = [Starting (pr_bind pr), Connected, Migrated, Signer_loaded (signer_address (bw_sdk W) sg) (nonce sg),
      if 0 < cf_drip_min_budget c then Budget_checked else Budget_skipped,
      Indexer_spawned (pr_indexer pr), Listening (pr_bind pr)]"
  using assms(1)
proof (rule boot_process_InrD)
  fix c' addr pg0 pg sg' u
  assume steps: "from_env (bw_sdk W) (bw_env W) = Inr c'" "parse_socket_addr (cf_bind c') = Some addr"
    "bw_connect W (cf_pg_pool_size c') (cf_database_url c') = Inr pg0" "bw_migrate W pg0 = Inr pg" "signer_of W c' sg'"
    and budget: "budget_check c' (\<lambda>i. query_self_balance (bw_sdk W) (bw_bank W i) sg') = Boot_ok"
    and pr: "pr = \<lparr>pr_config = c', pr_bind = addr, pr_pool = pg, pr_app = new_app_state c' sg', pr_indexer = indexer_config_of c'\<rparr>"
    and evs: "evs = [Starting addr, Connected, Migrated, Signer_loaded (signer_address (bw_sdk W) sg') (nonce sg'),
       if cf_drip_min_budget c' > 0 then Budget_checked else Budget_skipped,
       Indexer_spawned (indexer_config_of c'), Listening addr]"
  have [simp]: "c = c'" "sg = sg'" by (simp_all add: c_def sg_def pr new_app_state_def)
  have "0 < cf_drip_amount c' \<and> funded W c' sg'" if "0 < cf_drip_min_budget c'"
    using budget_check_sound [OF budget that] by (auto simp: funded_def)
  moreover have "sg_chain_id sg' = cf_chain_id c'" using steps(5) by (simp add: signer_of_def)
  ultimately show ?thesis
    using steps evs parse_socket_addr_wf [OF steps(2)] by (simp add: pr new_app_state_def indexer_config_of_def)
qed

definition rich_bank :: bank where
  "rich_bank = \<lparr>get_balance_for_holder = (\<lambda>_ _. Inr 10000000000000), to_bech32 = (\<lambda>_. ''token_1''),
     http_get = (\<lambda>_. Inl ''down''), from_str = (\<lambda>_. Inl ''down'')\<rparr>"

definition sample_world :: "(unit, string) sdk \<Rightarrow> (unit, string) boot_world" where
  "sample_world S = \<lparr>bw_env = sample_environment, bw_sdk = S, bw_token_id = Inr, bw_connect = (\<lambda>_ _. Inr fresh_pool),
     bw_migrate = Inr, bw_bank = (\<lambda>_. rich_bank), bw_bind = (\<lambda>_. Inr ())\<rparr>"

lemma sample_loads:
  assumes "hex_decode S = hex_decode plain_sdk"
  shows "\<exists>c. load_config (sample_world S) = ([Starting (V4 [0, 0, 0, 0] 8080)], Inr (c, V4 [0, 0, 0, 0] 8080)) \<and>
    open_database (sample_world S) c = ([Connected, Migrated], Inr fresh_pool) \<and>
    cf_drip_starting_nonce c = None \<and> cf_drip_min_budget c = 100 \<and> cf_drip_amount c = 100000000000 \<and>
    cf_drip_signer_key c = replicate 64 (CHR ''c'')"
proof -
  have id: "parse_u64 ''4242'' = Some 4242" by (simp add: parse_u64_def parse_uint_def digit_val_def)
  have len: "length (replicate 64 c) = 64" for c :: char by simp
  have "show_nat 8080 = ''8080''" by (simp add: show_nat.simps digit_char_def char_of_eq_iff)
  then have bind: "parse_socket_addr DEFAULT_BIND = Some (V4 [0, 0, 0, 0] 8080)"
    using parse_any_interface [of 8080] by (simp add: DEFAULT_BIND_def)
  obtain c where "from_env S sample_environment = Inr c" "cf_bind c = DEFAULT_BIND" "cf_drip_starting_nonce c = None"
    "cf_drip_min_budget c = 100" "cf_drip_amount c = 100000000000" "cf_drip_signer_key c = replicate 64 (CHR ''c'')"
    using assms
    by (simp add: from_env_def require_env_def sample_environment_def chain_hash_from_def signer_key_from_def
        parse_env_u32_def parse_env_u64_def parse_env_u128_def parse_env_opt_u64_def parse_env_def plain_sdk_def
        bind_address_def DEFAULT_DRIP_MIN_BUDGET_def DEFAULT_DRIP_AMOUNT_def id len)
  then show ?thesis using bind
    by (intro exI [of _ c]) (simp add: load_config_Inr open_database_Inr sample_world_def)
qed

theorem boot_sound_witness:
  "\<exists>evs pr. boot_process (sample_world plain_sdk) = (evs, Inr pr) \<and> nonce (app_signer (pr_app pr)) = 7 \<and>
     pr_bind pr = V4 [0, 0, 0, 0] 8080"
proof -
  let ?W = "sample_world plain_sdk"
  obtain c where c: "load_config ?W = ([Starting (V4 [0, 0, 0, 0] 8080)], Inr (c, V4 [0, 0, 0, 0] 8080))"
    "open_database ?W c = ([Connected, Migrated], Inr fresh_pool)" "cf_drip_starting_nonce c = None"
    "cf_drip_min_budget c = 100" "cf_drip_amount c = 100000000000" "cf_drip_signer_key c = replicate 64 (CHR ''c'')"
    using sample_loads [of plain_sdk] by blast
  obtain evs sg n where sg: "build_signer ?W c = (evs, Inr (sg, n))"
    using c(3,6) by (simp add: build_signer_def sample_world_def plain_sdk_def new_with_chain_seed_def signer_new_def
        attempt_def map_err_def)
  have "require_budget ?W c sg = ([Budget_checked], Inr ())"
    using c(4,5) query_balance_loop_tries [of 0 5 "\<lambda>i. query_self_balance (bw_sdk ?W) (bw_bank ?W i) sg" 0 10000000000000 None 0]
    by (simp add: require_budget_def budget_check_def query_balance_with_retry_def query_self_balance_def
        query_balance_for_def sample_world_def rich_bank_def attempt_def)
  then obtain evs' pr where pr: "boot_process ?W = (evs', Inr pr)"
    using c(1,2) sg by (simp add: boot_process_def and_then_def listen_def attempt_def map_err_def sample_world_def)
  show ?thesis
    using boot_sound [OF pr] c(1,3) pr
    by (auto simp: load_config_Inr signer_of_def sample_world_def plain_sdk_def)
qed

text \<open>C35. An unreachable chain stops the service, it does not degrade it: without a pinned nonce, a signer key
  whose nonce the chain does not answer for makes the boot fail after the migrations, with the error
  of the signer, before the indexer task exists and before anything listens.\<close>

theorem boot_needs_chain:
  assumes "load_config W = (evs1, Inr (c, addr))" and "open_database W c = (evs2, Inr pg)"
    and "hex_decode (bw_sdk W) (cf_avow_token_id_hex c) = Inr b" and "bw_token_id W b = Inr token"
    and "cf_drip_starting_nonce c = None" and "\<And>k. \<exists>e. get_nonce_for_key (bw_sdk W) k = Inl e"
  shows "boot_process W = ([Starting addr, Connected, Migrated], Inl (Boot_error ''building drip signer''))"
proof -
  have "\<exists>e. new_with_chain_seed (bw_sdk W) (cf_drip_signer_key c) (cf_chain_rpc c) (cf_chain_id c) (cf_chain_hash c)
      token (cf_drip_starting_nonce c) = Inl e"
    using assms(5,6) by (auto simp: new_with_chain_seed_def split: sum.split) (metis sum.distinct(1))
  then have "build_signer W c = ([], Inl (Boot_error ''building drip signer''))"
    using assms(3,4) by (auto simp: build_signer_def attempt_def map_err_def)
  moreover have "evs1 = [Starting addr]" "evs2 = [Connected, Migrated]"
    using assms(1,2) by (simp_all add: load_config_Inr open_database_Inr)
  ultimately show ?thesis using assms(1,2) by (simp add: boot_process_def and_then_def)
qed

theorem boot_needs_chain_witness:
  "fst (boot_process (sample_world (plain_sdk\<lparr>get_nonce_for_key := \<lambda>_. Inl ''unreachable''\<rparr>))) =
     [Starting (V4 [0, 0, 0, 0] 8080), Connected, Migrated]"
proof -
  let ?S = "plain_sdk\<lparr>get_nonce_for_key := \<lambda>_. Inl ''unreachable''\<rparr>"
  obtain c where c: "load_config (sample_world ?S) = ([Starting (V4 [0, 0, 0, 0] 8080)], Inr (c, V4 [0, 0, 0, 0] 8080))"
    "open_database (sample_world ?S) c = ([Connected, Migrated], Inr fresh_pool)" "cf_drip_starting_nonce c = None"
    using sample_loads [of ?S] by auto
  obtain b where "hex_decode (bw_sdk (sample_world ?S)) (cf_avow_token_id_hex c) = Inr b"
    by (simp add: sample_world_def plain_sdk_def)
  from boot_needs_chain [OF c(1,2) this _ c(3)] show ?thesis by (simp add: sample_world_def)
qed

end
