(* ===== verification/Db_Resources.thy ===== *)
theory Db_Resources
  imports Db_Tx
begin

text \<open>
  The writes of the resource tables in \<^verbatim>\<open>crates/indexer/src/db.rs\<close>: attestor sets, schemas,
  attestations, bounties and contracts, with their counters and escrow columns.
\<close>

section \<open>Attestor sets\<close>

definition new_attestor_set_row ::
  "indexer_register_attestor_set \<Rightarrow> string \<Rightarrow> u64 \<Rightarrow> time \<Rightarrow> time \<Rightarrow> attestor_set_row" where
  "new_attestor_set_row d tx_hash slot_height timestamp t =
     \<lparr>as_id = ira_attestor_set_id d, as_members = JArray (map JString (ira_members d)),
      as_threshold = int (ira_threshold d), as_slot = as_i64 slot_height, as_tx = tx_hash,
      as_timestamp = timestamp, as_schema_count = 0, as_indexed_at = t\<rparr>"

definition merge_attestor_set_row :: "attestor_set_row \<Rightarrow> time \<Rightarrow> attestor_set_row \<Rightarrow> attestor_set_row" where
  "merge_attestor_set_row new t old =
     old\<lparr>as_members := as_members new, as_threshold := as_threshold new, as_slot := as_slot new,
         as_tx := as_tx new, as_timestamp := as_timestamp new, as_indexed_at := t\<rparr>"

definition insert_attestor_set_stmt :: "(time \<Rightarrow> attestor_set_row) \<Rightarrow> unit stmt" where
  "insert_attestor_set_stmt row t d =
     (let new = row t in
      if \<not> attestor_set_check new then Inl (CheckViolation ''attestor_sets'')
      else if find_row s_height (as_slot new) (slots d) = None then Inl (ForeignKeyViolation ''registered_at_slot'')
      else if find_row t_hash (as_tx new) (transactions d) = None then Inl (ForeignKeyViolation ''registered_at_tx'')
      else Inr (d\<lparr>attestor_sets := upsert as_id new (merge_attestor_set_row new t) (attestor_sets d)\<rparr>, ()))"

definition insert_attestor_set ::
  "pg \<Rightarrow> indexer_register_attestor_set \<Rightarrow> string \<Rightarrow> u64 \<Rightarrow> time \<Rightarrow> unit op" where
  "insert_attestor_set P d tx_hash slot_height timestamp =
     exec P (insert_attestor_set_stmt (new_attestor_set_row d tx_hash slot_height timestamp))"

section \<open>Schemas\<close>

definition new_schema_row ::
  "indexer_register_schema \<Rightarrow> string \<Rightarrow> u64 \<Rightarrow> time \<Rightarrow> time \<Rightarrow> schema_row" where
  "new_schema_row d tx_hash slot_height timestamp t =
     \<lparr>sc_id = irs_schema_id d, sc_name = irs_name d, sc_version = i32_clamped (irs_version d),
      sc_owner = irs_owner d, sc_attestor_set_id = irs_attestor_set_id d,
      sc_fee_routing_bps = int (irs_fee_routing_bps d), sc_fee_routing_addr = irs_fee_routing_addr d,
      sc_payload_shape_hash = irs_payload_shape_hash d, sc_slot = as_i64 slot_height, sc_tx = tx_hash,
      sc_timestamp = timestamp, sc_attestation_count = 0, sc_indexed_at = t\<rparr>"

definition schema_name_taken :: "schema_row \<Rightarrow> db \<Rightarrow> bool" where
  "schema_name_taken new d \<longleftrightarrow>
     (\<exists>r \<in> set (schemas d). (sc_owner r, sc_name r, sc_version r) = (sc_owner new, sc_name new, sc_version new))"

definition insert_schema_stmt :: "(time \<Rightarrow> schema_row) \<Rightarrow> unit stmt" where
  "insert_schema_stmt row t d =
     (let new = row t in
      if \<not> schema_check new then Inl (CheckViolation ''schemas'')
      else case find_row sc_id (sc_id new) (schemas d) of
             Some _ \<Rightarrow> Inr (d\<lparr>schemas := update_where (\<lambda>r. sc_id r = sc_id new)
                               (\<lambda>r. r\<lparr>sc_indexed_at := t\<rparr>) (schemas d)\<rparr>, ())
           | None \<Rightarrow>
               if schema_name_taken new d then Inl (UniqueViolation ''schemas_owner_name_version_unique'')
               else if find_row as_id (sc_attestor_set_id new) (attestor_sets d) = None
                 then Inl (ForeignKeyViolation ''attestor_set_id'')
               else if find_row s_height (sc_slot new) (slots d) = None
                 then Inl (ForeignKeyViolation ''registered_at_slot'')
               else if find_row t_hash (sc_tx new) (transactions d) = None
                 then Inl (ForeignKeyViolation ''registered_at_tx'')
               else Inr (d\<lparr>schemas := schemas d @ [new]\<rparr>, ()))"

definition insert_schema ::
  "pg \<Rightarrow> indexer_register_schema \<Rightarrow> string \<Rightarrow> u64 \<Rightarrow> time \<Rightarrow> unit op" where
  "insert_schema P d tx_hash slot_height timestamp =
     exec P (insert_schema_stmt (new_schema_row d tx_hash slot_height timestamp))"

section \<open>Attestations\<close>

definition new_attestation_row ::
  "indexer_submit_attestation \<Rightarrow> string \<Rightarrow> u64 \<Rightarrow> time \<Rightarrow> time \<Rightarrow> attestation_row" where
  "new_attestation_row d tx_hash slot_height timestamp t =
     \<lparr>at_id = isa_id d, at_schema_id = isa_schema_id d, at_payload_hash = isa_payload_hash d,
      at_submitter = isa_submitter d, at_submitter_pubkey = None, at_slot = as_i64 slot_height,
      at_tx = tx_hash, at_timestamp = timestamp, at_signature_count = i32_clamped (isa_signature_count d),
      at_indexed_at = t\<rparr>"

definition attestation_key_taken :: "attestation_row \<Rightarrow> db \<Rightarrow> bool" where
  "attestation_key_taken new d \<longleftrightarrow>
     (\<exists>r \<in> set (attestations d).
        (at_schema_id r, at_payload_hash r, at_tx r) = (at_schema_id new, at_payload_hash new, at_tx new))"

definition insert_attestation_stmt :: "(time \<Rightarrow> attestation_row) \<Rightarrow> unit stmt" where
  "insert_attestation_stmt row t d =
     (let new = row t in
      if \<not> attestation_check new then Inl (CheckViolation ''attestations'')
      else case find_row at_id (at_id new) (attestations d) of
             Some _ \<Rightarrow> Inr (d\<lparr>attestations := update_where (\<lambda>r. at_id r = at_id new)
                               (\<lambda>r. r\<lparr>at_signature_count := at_signature_count new, at_indexed_at := t\<rparr>)
                               (attestations d)\<rparr>, ())
           | None \<Rightarrow>
               if attestation_key_taken new d then Inl (UniqueViolation ''attestations_pkey'')
               else if find_row sc_id (at_schema_id new) (schemas d) = None
                 then Inl (ForeignKeyViolation ''schema_id'')
               else if find_row s_height (at_slot new) (slots d) = None
                 then Inl (ForeignKeyViolation ''submitted_at_slot'')
               else if find_row t_hash (at_tx new) (transactions d) = None
                 then Inl (ForeignKeyViolation ''submitted_at_tx'')
               else Inr (d\<lparr>attestations := attestations d @ [new]\<rparr>, ()))"

definition insert_attestation ::
  "pg \<Rightarrow> indexer_submit_attestation \<Rightarrow> string \<Rightarrow> u64 \<Rightarrow> time \<Rightarrow> unit op" where
  "insert_attestation P d tx_hash slot_height timestamp =
     exec P (insert_attestation_stmt (new_attestation_row d tx_hash slot_height timestamp))"

section \<open>Counters\<close>

definition bump_attestor_set_schema_count :: "pg \<Rightarrow> string \<Rightarrow> unit op" where
  "bump_attestor_set_schema_count P i =
     exec P (\<lambda>t d.
       if \<exists>r \<in> set (attestor_sets d). as_id r = i \<and> \<not> int4_ok (as_schema_count r + 1)
       then Inl NumericOutOfRange
       else Inr (d\<lparr>attestor_sets := update_where (\<lambda>r. as_id r = i)
              (\<lambda>r. r\<lparr>as_schema_count := as_schema_count r + 1, as_indexed_at := t\<rparr>) (attestor_sets d)\<rparr>, ()))"

definition bump_schema_attestation_count :: "pg \<Rightarrow> string \<Rightarrow> unit op" where
  "bump_schema_attestation_count P i =
     exec P (\<lambda>t d.
       if \<exists>r \<in> set (schemas d). sc_id r = i \<and> \<not> int4_ok (sc_attestation_count r + 1)
       then Inl NumericOutOfRange
       else Inr (d\<lparr>schemas := update_where (\<lambda>r. sc_id r = i)
              (\<lambda>r. r\<lparr>sc_attestation_count := sc_attestation_count r + 1, sc_indexed_at := t\<rparr>) (schemas d)\<rparr>, ()))"

section \<open>Bounties\<close>

definition map_bounty_status :: "string \<Rightarrow> string" where
  "map_bounty_status chain_status =
     (if chain_status = ''Open'' then ''open''
      else if chain_status = ''Exhausted'' then ''exhausted''
      else if chain_status = ''Expired'' then ''expired''
      else if chain_status = ''Cancelled'' then ''cancelled''
      else if chain_status = ''Finalised'' then ''finalised''
      else ''open'')"

definition new_bounty_row ::
  "string \<Rightarrow> bounty_record \<Rightarrow> u64 \<Rightarrow> string \<Rightarrow> time \<Rightarrow> bounty_row" where
  "new_bounty_row i rec slot_height tx_hash timestamp =
     \<lparr>bo_id = i, bo_poster = br_poster rec, bo_board_schema_id = br_board_schema_id rec,
      bo_pool_nano = br_pool rec, bo_per_attestation_nano = br_per_attestation rec,
      bo_escrow_remaining_nano = br_pool rec, bo_status = map_bounty_status (br_status rec),
      bo_acceptance = br_acceptance rec, bo_expiry_da_height = as_i64 (br_expiry_da_height rec),
      bo_dispute_window_blocks = i32_clamped (br_dispute_window_blocks rec),
      bo_slot = as_i64 slot_height, bo_tx = tx_hash, bo_timestamp = timestamp,
      bo_claim_count = 0, bo_last_claim_at_slot = None\<rparr>"

definition merge_bounty_row :: "bounty_row \<Rightarrow> bounty_row \<Rightarrow> bounty_row" where
  "merge_bounty_row new old =
     old\<lparr>bo_poster := bo_poster new, bo_board_schema_id := bo_board_schema_id new,
         bo_pool_nano := bo_pool_nano new, bo_per_attestation_nano := bo_per_attestation_nano new,
         bo_status := bo_status new, bo_acceptance := bo_acceptance new,
         bo_expiry_da_height := bo_expiry_da_height new,
         bo_dispute_window_blocks := bo_dispute_window_blocks new\<rparr>"

definition upsert_bounty_stmt :: "bounty_row \<Rightarrow> unit stmt" where
  "upsert_bounty_stmt new t d =
     (if bo_status new \<notin> set bounty_statuses then Inl (CheckViolation ''bounties'')
      else if find_row sc_id (bo_board_schema_id new) (schemas d) = None
        then Inl (ForeignKeyViolation ''board_schema_id'')
      else Inr (d\<lparr>bounties := upsert bo_id new (merge_bounty_row new) (bounties d)\<rparr>, ()))"

definition upsert_bounty ::
  "pg \<Rightarrow> string \<Rightarrow> bounty_record \<Rightarrow> u64 \<Rightarrow> string \<Rightarrow> time \<Rightarrow> unit op" where
  "upsert_bounty P i rec slot_height tx_hash timestamp =
     exec P (upsert_bounty_stmt (new_bounty_row i rec slot_height tx_hash timestamp))"

text \<open>The \<^verbatim>\<open>UPDATE\<close> of a claim: the cast may fail on a malformed text, the counter may overflow.\<close>

definition claim_row :: "pg \<Rightarrow> string \<Rightarrow> int \<Rightarrow> u64 \<Rightarrow> bounty_row \<Rightarrow> (db_error, bounty_row) result" where
  "claim_row P payout n slot r =
     (case numeric_sub P (bo_escrow_remaining_nano r) payout of
        None \<Rightarrow> Inl InvalidNumeric
      | Some escrow \<Rightarrow>
          if \<not> int4_ok (bo_claim_count r + n) then Inl NumericOutOfRange
          else Inr (r\<lparr>bo_escrow_remaining_nano := escrow, bo_claim_count := bo_claim_count r + n,
                      bo_last_claim_at_slot := Some (as_i64 slot)\<rparr>))"

definition apply_bounty_claim :: "pg \<Rightarrow> string \<Rightarrow> string \<Rightarrow> int \<Rightarrow> u64 \<Rightarrow> unit op" where
  "apply_bounty_claim P i payout n slot =
     exec P (\<lambda>_ d.
       case find_row bo_id i (bounties d) of
         None \<Rightarrow> Inr (d, ())
       | Some r \<Rightarrow> bind_result (claim_row P payout n slot r) (\<lambda>r'.
           Inr (d\<lparr>bounties := update_where (\<lambda>x. bo_id x = i) (\<lambda>_. r') (bounties d)\<rparr>, ())))"

definition set_bounty_escrow_zero :: "pg \<Rightarrow> string \<Rightarrow> unit op" where
  "set_bounty_escrow_zero P i =
     exec P (\<lambda>_ d. Inr (d\<lparr>bounties := update_where (\<lambda>r. bo_id r = i)
       (\<lambda>r. r\<lparr>bo_escrow_remaining_nano := ''0''\<rparr>) (bounties d)\<rparr>, ()))"

section \<open>Contracts\<close>

definition map_contract_status :: "string \<Rightarrow> string" where
  "map_contract_status chain_status =
     (if chain_status = ''Open'' then ''open''
      else if chain_status = ''Committed'' then ''committed''
      else if chain_status = ''Delivered'' then ''delivered''
      else if chain_status = ''Accepted'' then ''accepted''
      else if chain_status = ''Rejected'' then ''rejected''
      else if chain_status = ''Disputed'' then ''disputed''
      else if chain_status = ''Cancelled'' then ''cancelled''
      else if chain_status = ''Expired'' then ''expired''
      else ''open'')"

definition stringify_criteria_doc_hash :: "pg \<Rightarrow> json \<Rightarrow> string" where
  "stringify_criteria_doc_hash P v = (case v of JString s \<Rightarrow> s | _ \<Rightarrow> json_text P v)"

definition new_contract_row ::
  "pg \<Rightarrow> string \<Rightarrow> contract_record \<Rightarrow> u64 \<Rightarrow> string \<Rightarrow> time \<Rightarrow> contract_row" where
  "new_contract_row P i rec slot_height tx_hash timestamp =
     \<lparr>co_id = i, co_poster = cr_poster rec, co_arbiter = cr_arbiter rec,
      co_criteria_doc_hash = stringify_criteria_doc_hash P (cr_criteria_doc_hash rec),
      co_pool_nano = cr_pool rec, co_escrow_remaining_nano = cr_pool rec,
      co_arbiter_fee_bps = int (cr_arbiter_fee_bps rec), co_status = map_contract_status (cr_status rec),
      co_expiry_da_height = as_i64 (cr_expiry_da_height rec),
      co_dispute_window_blocks = i32_clamped (cr_dispute_window_blocks rec),
      co_slot = as_i64 slot_height, co_tx = tx_hash, co_timestamp = timestamp\<rparr>"

definition merge_contract_row :: "contract_row \<Rightarrow> contract_row \<Rightarrow> contract_row" where
  "merge_contract_row new old =
     old\<lparr>co_poster := co_poster new, co_arbiter := co_arbiter new,
         co_criteria_doc_hash := co_criteria_doc_hash new, co_pool_nano := co_pool_nano new,
         co_arbiter_fee_bps := co_arbiter_fee_bps new, co_status := co_status new,
         co_expiry_da_height := co_expiry_da_height new,
         co_dispute_window_blocks := co_dispute_window_blocks new\<rparr>"

definition upsert_contract_stmt :: "contract_row \<Rightarrow> unit stmt" where
  "upsert_contract_stmt new t d =
     (if co_status new \<notin> set contract_statuses then Inl (CheckViolation ''contracts'')
      else Inr (d\<lparr>contracts := upsert co_id new (merge_contract_row new) (contracts d)\<rparr>, ()))"

definition upsert_contract ::
  "pg \<Rightarrow> string \<Rightarrow> contract_record \<Rightarrow> u64 \<Rightarrow> string \<Rightarrow> time \<Rightarrow> unit op" where
  "upsert_contract P i rec slot_height tx_hash timestamp =
     exec P (upsert_contract_stmt (new_contract_row P i rec slot_height tx_hash timestamp))"

definition set_contract_escrow_zero :: "pg \<Rightarrow> string \<Rightarrow> unit op" where
  "set_contract_escrow_zero P i =
     exec P (\<lambda>_ d. Inr (d\<lparr>contracts := update_where (\<lambda>r. co_id r = i)
       (\<lambda>r. r\<lparr>co_escrow_remaining_nano := ''0''\<rparr>) (contracts d)\<rparr>, ()))"

section \<open>Sequences of bounty and contract writes\<close>

definition bounty_of :: "db \<Rightarrow> string \<Rightarrow> bounty_row option" where
  "bounty_of d i = find_row bo_id i (bounties d)"

definition contract_of :: "db \<Rightarrow> string \<Rightarrow> contract_row option" where
  "contract_of d i = find_row co_id i (contracts d)"

datatype bounty_write =
    BHydrate bounty_record u64 string time
  | BClaim nat int u64
  | BZero

fun apply_bounty_write :: "pg \<Rightarrow> string \<Rightarrow> bounty_write \<Rightarrow> pool \<Rightarrow> pool" where
  "apply_bounty_write P i (BHydrate rec slot tx ts) p = snd (upsert_bounty P i rec slot tx ts p)"
| "apply_bounty_write P i (BClaim payout n slot) p = snd (apply_bounty_claim P i (show_nat payout) n slot p)"
| "apply_bounty_write P i BZero p = snd (set_bounty_escrow_zero P i p)"

text \<open>The accounts the writes should leave: remaining escrow and number of claims.\<close>

fun account :: "bounty_write \<Rightarrow> int \<times> int \<Rightarrow> int \<times> int" where
  "account (BHydrate _ _ _ _) (e, c) = (e, c)"
| "account (BClaim payout n _) (e, c) = (e - int payout, c + n)"
| "account BZero (e, c) = (0, c)"

fun claims_of :: "bounty_write list \<Rightarrow> int" where
  "claims_of [] = 0"
| "claims_of (BClaim _ n _ # ws) = n + claims_of ws"
| "claims_of (_ # ws) = claims_of ws"

fun claims_nonneg :: "bounty_write \<Rightarrow> bool" where
  "claims_nonneg (BClaim _ n _) = (0 \<le> n)"
| "claims_nonneg _ = True"

definition accounts :: "bounty_row \<Rightarrow> int \<times> int \<Rightarrow> bool" where
  "accounts r a \<longleftrightarrow> bo_escrow_remaining_nano r = show_int (fst a) \<and> bo_claim_count r = snd a"

lemma show_int_0: "show_int 0 = ''0''"
  by code_simp

lemma claims_of_nonneg: "\<forall>w \<in> set ws. claims_nonneg w \<Longrightarrow> 0 \<le> claims_of ws"
  by (induction ws rule: claims_of.induct) auto

lemma map_bounty_status_known: "map_bounty_status s \<in> set bounty_statuses"
  by (simp add: map_bounty_status_def bounty_statuses_def)

lemma map_contract_status_known: "map_contract_status s \<in> set contract_statuses"
  by (simp add: map_contract_status_def contract_statuses_def)

lemma merge_bounty_id [simp]: "bo_id (merge_bounty_row new r) = bo_id r"
  by (simp add: merge_bounty_row_def)

lemma merge_contract_id [simp]: "co_id (merge_contract_row new r) = co_id r"
  by (simp add: merge_contract_row_def)

lemma bounty_hydrate:
  "\<exists>f. (\<forall>r a. accounts r a \<longrightarrow> accounts (f r) a) \<and>
     (\<forall>j. j \<noteq> i \<or> bounty_of (p_db p) i \<noteq> None \<longrightarrow>
        bounty_of (p_db (snd (upsert_bounty P i rec slot tx ts p))) j =
        (if j = i then map_option f (bounty_of (p_db p) i) else bounty_of (p_db p) j))"
proof (cases "upsert_bounty P i rec slot tx ts p")
  case (Pair res p')
  let ?new = "new_bounty_row i rec slot tx ts"
  have acc: "accounts r a \<longrightarrow> accounts (merge_bounty_row ?new r) a" for r a
    by (simp add: accounts_def merge_bounty_row_def)
  have new_id: "bo_id ?new = i" by (simp add: new_bounty_row_def)
  show ?thesis
  proof (cases res)
    case (Inl e)
    with Pair have "p_db p' = p_db p" by (auto simp: upsert_bounty_def dest!: exec_Inl)
    with Pair show ?thesis by (intro exI [of _ "\<lambda>r. r"]) (auto simp: option.map_ident)
  next
    case (Inr u)
    with Pair have "bounties (p_db p') = upsert bo_id ?new (merge_bounty_row ?new) (bounties (p_db p))"
      by (auto simp: upsert_bounty_def exec_Inr upsert_bounty_stmt_def split: if_splits)
    with Pair acc show ?thesis
      by (intro exI [of _ "merge_bounty_row ?new"])
         (auto simp: bounty_of_def find_row_upsert new_id split: option.splits)
  qed
qed

lemma bounty_write_step:
  assumes "numeric_exact P" and "\<not> pg_fault P (p_seq p)" and "bounty_of (p_db p) i = Some r"
    and "accounts r a" and "claims_nonneg w" and "0 \<le> snd a" and "snd a + claims_of [w] \<le> i32_max"
  shows "(\<exists>r'. bounty_of (p_db (apply_bounty_write P i w p)) i = Some r' \<and> accounts r' (account w a)) \<and>
    (\<forall>j. j \<noteq> i \<longrightarrow> bounty_of (p_db (apply_bounty_write P i w p)) j = bounty_of (p_db p) j)"
proof (cases w)
  case (BHydrate rec slot tx ts)
  obtain f where f: "\<forall>r a. accounts r a \<longrightarrow> accounts (f r) a"
    "\<forall>j. j \<noteq> i \<or> bounty_of (p_db p) i \<noteq> None \<longrightarrow>
        bounty_of (p_db (snd (upsert_bounty P i rec slot tx ts p))) j =
        (if j = i then map_option f (bounty_of (p_db p) i) else bounty_of (p_db p) j)"
    using bounty_hydrate by blast
  then show ?thesis using assms(3,4) by (cases a) (simp add: BHydrate)
next
  case (BClaim payout n slot)
  have rid: "bo_id r = i" using assms(3) by (auto simp: bounty_of_def dest: find_row_SomeD)
  have sub: "numeric_sub P (bo_escrow_remaining_nano r) (show_nat payout) = Some (show_int (fst a - int payout))"
    using assms(1,4) by (metis accounts_def numeric_exact_def show_int_nat)
  have cnt: "int4_ok (bo_claim_count r + n)"
    using assms(4-7) by (simp add: BClaim accounts_def int4_ok_def)
  show ?thesis
    using assms(2,3,4) sub cnt rid
    by (cases a) (simp add: BClaim apply_bounty_claim_def exec_def claim_row_def bounty_of_def
        find_row_update_key accounts_def Let_def)
next
  case BZero
  then show ?thesis
    using assms(2,3,4)
    by (cases a) (simp add: set_bounty_escrow_zero_def exec_def bounty_of_def find_row_update_key
        accounts_def show_int_0 Let_def)
qed

datatype contract_write =
    CHydrate contract_record u64 string time
  | CZero

fun apply_contract_write :: "pg \<Rightarrow> string \<Rightarrow> contract_write \<Rightarrow> pool \<Rightarrow> pool" where
  "apply_contract_write P i (CHydrate rec slot tx ts) p = snd (upsert_contract P i rec slot tx ts p)"
| "apply_contract_write P i CZero p = snd (set_contract_escrow_zero P i p)"

lemma contract_write_step:
  assumes "contract_of (p_db p) i = Some r"
  shows "\<exists>r'. contract_of (p_db (apply_contract_write P i w p)) i = Some r' \<and>
    (co_escrow_remaining_nano r' = co_escrow_remaining_nano r \<or>
     (w = CZero \<and> co_escrow_remaining_nano r' = ''0'')) \<and>
    (w = CZero \<and> \<not> pg_fault P (p_seq p) \<longrightarrow> co_escrow_remaining_nano r' = ''0'')"
proof (cases w)
  case (CHydrate rec slot tx ts)
  have "co_id (new_contract_row P i rec slot tx ts) = i" by (simp add: new_contract_row_def)
  then show ?thesis
    using assms by (auto simp: CHydrate upsert_contract_def exec_def upsert_contract_stmt_def contract_of_def
        find_row_upsert merge_contract_row_def Let_def)
next
  case CZero
  have "co_id r = i" using assms by (auto simp: contract_of_def dest: find_row_SomeD)
  then show ?thesis
    using assms by (auto simp: CZero set_contract_escrow_zero_def exec_def contract_of_def
        find_row_update_where Let_def)
qed

definition sample_bounty :: bounty_row where
  "sample_bounty = new_bounty_row ''lbt1a'' \<lparr>br_poster = ''lig1a'', br_board_schema_id = ''lsc1a'',
     br_pool = show_nat 100, br_per_attestation = show_nat 10, br_acceptance = JNull,
     br_expiry_da_height = 9, br_dispute_window_blocks = 3, br_status = ''Open''\<rparr> 1 ''ltx1a'' 0"

definition sample_contract_record :: contract_record where
  "sample_contract_record = \<lparr>cr_poster = ''lig1a'', cr_arbiter = ''lig1b'', cr_criteria_doc_hash = JString ''00'',
     cr_pool = ''50'', cr_expiry_da_height = 9, cr_dispute_window_blocks = 3, cr_arbiter_fee_bps = 0,
     cr_status = ''Open''\<rparr>"

section \<open>Properties\<close>

text \<open>C14. Escrow accounting of a bounty is exact: over any sequence of re-hydrations, claims and
  terminal events the remaining escrow is the starting amount less the payouts since (zero after a
  terminal event), the claim counter grows by the claims, and re-hydrating from the chain, which only
  knows the original pool, never changes either. Other bounties are untouched.\<close>

theorem bounty_escrow_exact:
  assumes "numeric_exact P" and "\<forall>n. \<not> pg_fault P n" and "bounty_of (p_db p) i = Some r"
    and "bo_escrow_remaining_nano r = show_int e" and "bo_claim_count r = c" and "0 \<le> c"
    and "\<forall>w \<in> set ws. claims_nonneg w" and "c + claims_of ws \<le> i32_max"
  shows "(\<exists>r'. bounty_of (p_db (fold (apply_bounty_write P i) ws p)) i = Some r' \<and>
      bo_escrow_remaining_nano r' = show_int (fst (fold account ws (e, c))) \<and>
      bo_claim_count r' = snd (fold account ws (e, c))) \<and>
    (\<forall>j. j \<noteq> i \<longrightarrow> bounty_of (p_db (fold (apply_bounty_write P i) ws p)) j = bounty_of (p_db p) j)"
  using assms(3-)
proof (induction ws arbitrary: p r e c)
  case Nil
  then show ?case by simp
next
  case (Cons w ws)
  have split: "claims_of (w # ws) = claims_of [w] + claims_of ws" by (cases w) auto
  have nn: "0 \<le> claims_of ws" "0 \<le> claims_of [w]"
    using Cons.prems(5) claims_of_nonneg [of ws] claims_of_nonneg [of "[w]"] by auto
  from bounty_write_step [OF assms(1) assms(2) [rule_format] Cons.prems(1), of "(e, c)" w] Cons.prems nn split
  obtain r' where r': "bounty_of (p_db (apply_bounty_write P i w p)) i = Some r'" "accounts r' (account w (e, c))"
    and other: "\<forall>j. j \<noteq> i \<longrightarrow> bounty_of (p_db (apply_bounty_write P i w p)) j = bounty_of (p_db p) j"
    by (auto simp: accounts_def)
  obtain e' c' where a: "account w (e, c) = (e', c')" by force
  have c': "c' = c + claims_of [w]" using a by (cases w) auto
  from Cons.IH [OF r'(1), of e' c'] r'(2) other Cons.prems nn split show ?case
    by (simp add: accounts_def a c')
qed

theorem bounty_escrow_exact_witness:
  "\<exists>r'. bounty_of (p_db (fold (apply_bounty_write calm_pg ''lbt1a'') [BClaim 30 2 5, BClaim 10 1 6]
      \<lparr>p_db = empty_db\<lparr>bounties := [sample_bounty]\<rparr>, p_seq = 0\<rparr>)) ''lbt1a'' = Some r' \<and>
    bo_escrow_remaining_nano r' = show_int 60 \<and> bo_claim_count r' = 3"
  using bounty_escrow_exact [OF calm_numeric_exact, of "\<lparr>p_db = empty_db\<lparr>bounties := [sample_bounty]\<rparr>, p_seq = 0\<rparr>"
      "''lbt1a''" sample_bounty 100 0 "[BClaim 30 2 5, BClaim 10 1 6]"]
  by (simp add: bounty_of_def sample_bounty_def new_bounty_row_def show_int_def i32_max_def)

text \<open>Drained contract escrow stays drained: the escrow column of a contract only ever moves to
  zero, on a terminal event, and no sequence of re-hydrations, with or without failing statements,
  brings it back to the pool.\<close>

lemma contract_escrow_never_resurrected:
  assumes "contract_of (p_db p) i = Some r"
  shows "\<exists>r'. contract_of (p_db (fold (apply_contract_write P i) ws p)) i = Some r' \<and>
    (co_escrow_remaining_nano r' = co_escrow_remaining_nano r \<or> co_escrow_remaining_nano r' = ''0'') \<and>
    (CZero \<in> set ws \<and> (\<forall>n. \<not> pg_fault P n) \<longrightarrow> co_escrow_remaining_nano r' = ''0'')"
  using assms
proof (induction ws arbitrary: p r)
  case Nil
  then show ?case by simp
next
  case (Cons w ws)
  from contract_write_step [OF Cons.prems, of P w] obtain r1 where
    "contract_of (p_db (apply_contract_write P i w p)) i = Some r1"
    "co_escrow_remaining_nano r1 = co_escrow_remaining_nano r \<or> co_escrow_remaining_nano r1 = ''0''"
    "w = CZero \<and> \<not> pg_fault P (p_seq p) \<longrightarrow> co_escrow_remaining_nano r1 = ''0''" by blast
  with Cons.IH [OF this(1)] show ?case by fastforce
qed

end
