(* ===== verification/Ingest.thy ===== *)
theory Ingest
  imports Client Db_Resources
begin

text \<open>
  The ingest loop, \<^verbatim>\<open>crates/indexer/src/ingest.rs\<close>. One slot, one transaction, one re-poll
  tick are functions on the pool; the endless loops are the step relation \<open>ingest_step\<close>, in which
  the walk over the slots, the re-poll task and crashes of the process interleave.
\<close>

record codec =
  cx_crypto :: crypto
  cx_base64 :: "string \<Rightarrow> u8 list option"

definition codec_bech32m :: "codec \<Rightarrow> string \<Rightarrow> u8 list \<Rightarrow> string option" where
  "codec_bech32m K hrp data = (case bech32m_encode (cx_crypto K) hrp data of Inl _ \<Rightarrow> None | Inr s \<Rightarrow> Some s)"

text \<open>A database operation inside a function that returns an \<^typ>\<open>indexer_error\<close>.\<close>

definition db_op :: "'a op \<Rightarrow> 'a request" where
  "db_op m p = (case m p of (Inl e, p') \<Rightarrow> (Inl (Database e), p') | (Inr a, p') \<Rightarrow> (Inr a, p'))"

section \<open>Address summaries\<close>

definition update_address_summaries :: "pg \<Rightarrow> classified_tx \<Rightarrow> u64 \<Rightarrow> time \<Rightarrow> unit request" where
  "update_address_summaries P c slot_height ts =
     op_bind
       (case event_sender (ctx_kind c) of
          None \<Rightarrow> op_ok ()
        | Some addr \<Rightarrow> db_op (upsert_address_activity P addr Sender slot_height (ctx_hash c) ts))
       (\<lambda>_. case ctx_kind c of
          Transfer t \<Rightarrow> db_op (upsert_address_activity P (it_to t) Receiver slot_height (ctx_hash c) ts)
        | _ \<Rightarrow> op_ok ())"

section \<open>Resource rows\<close>

fun bump_members :: "pg \<Rightarrow> string list \<Rightarrow> unit request" where
  "bump_members P [] = op_ok ()"
| "bump_members P (m # ms) = op_bind (op_log (bump_attestor_member_count P m)) (\<lambda>_. bump_members P ms)"

definition bounty_delta :: "pg \<Rightarrow> string \<Rightarrow> bounty_event_kind \<Rightarrow> u64 \<Rightarrow> unit request" where
  "bounty_delta P bounty_id kind slot_height =
     (case kind of
        BClaimed cnt payout \<Rightarrow>
          op_log (apply_bounty_claim P bounty_id payout (i32_clamped cnt) slot_height)
      | BExpired \<Rightarrow> op_log (set_bounty_escrow_zero P bounty_id)
      | BFinalised \<Rightarrow> op_log (set_bounty_escrow_zero P bounty_id)
      | BPosted \<Rightarrow> op_ok ()
      | BDisputed \<Rightarrow> op_ok ()
      | BDisputeResolved \<Rightarrow> op_ok ())"

definition contract_delta :: "pg \<Rightarrow> string \<Rightarrow> contract_event_kind \<Rightarrow> unit request" where
  "contract_delta P contract_id kind =
     (if kind \<in> {CAccepted, CDisputeResolved, CCancelled, CExpired}
      then op_log (set_contract_escrow_zero P contract_id)
      else op_ok ())"

definition insert_resource_rows ::
  "pg \<Rightarrow> node_client \<Rightarrow> classified_tx \<Rightarrow> u64 \<Rightarrow> time \<Rightarrow> unit request" where
  "insert_resource_rows P C c slot_height ts =
     (case ctx_kind c of
        RegisterAttestorSet d \<Rightarrow>
          op_bind (db_op (insert_attestor_set P d (ctx_hash c) slot_height ts)) (\<lambda>_.
          bump_members P (ira_members d))
      | RegisterSchema d \<Rightarrow>
          op_bind (db_op (insert_schema P d (ctx_hash c) slot_height ts)) (\<lambda>_.
          op_bind (op_log (bump_attestor_set_schema_count P (irs_attestor_set_id d))) (\<lambda>_.
          op_log (bump_address_schemas_owned P (irs_owner d) slot_height (ctx_hash c) ts)))
      | SubmitAttestation d \<Rightarrow>
          op_bind (db_op (insert_attestation P d (ctx_hash c) slot_height ts)) (\<lambda>_.
          op_log (bump_schema_attestation_count P (isa_schema_id d)))
      | BountyEvent bounty_id kind \<Rightarrow>
          op_bind (bounty_at C bounty_id) (\<lambda>found.
            case found of
              None \<Rightarrow> op_ok ()
            | Some rec \<Rightarrow>
                op_bind (db_op (upsert_bounty P bounty_id rec slot_height (ctx_hash c) ts)) (\<lambda>_.
                bounty_delta P bounty_id kind slot_height))
      | ContractEvent contract_id kind \<Rightarrow>
          op_bind (contract_at C contract_id) (\<lambda>found.
            case found of
              None \<Rightarrow> op_ok ()
            | Some rec \<Rightarrow>
                op_bind (db_op (upsert_contract P contract_id rec slot_height (ctx_hash c) ts)) (\<lambda>_.
                contract_delta P contract_id kind))
      | Transfer _ \<Rightarrow> op_ok ()
      | Unknown _ \<Rightarrow> op_ok ())"

section \<open>Transactions of a slot\<close>

definition u64_range :: "uint64_range \<Rightarrow> u64 list" where
  "u64_range r = map of_nat [unat (rg_start r) ..< unat (rg_end r)]"

text \<open>One transaction at a position; the result is the next position.\<close>

definition ingest_tx ::
  "pg \<Rightarrow> node_client \<Rightarrow> codec \<Rightarrow> u64 \<Rightarrow> slot_response \<Rightarrow> ledger_event list \<Rightarrow> ledger_tx \<Rightarrow> i32 \<Rightarrow> i32 request" where
  "ingest_tx P C K chain_id slot all_events tx pos =
     (let tx_events = filter (\<lambda>e. ev_tx_hash e = lt_hash tx) all_events;
          decoded = decode_tx_body (cx_base64 K) (codec_bech32m K) (fb_data (lt_body tx)) chain_id
      in case classify_tx (cx_crypto K) (json_text P) tx tx_events of
           None \<Rightarrow> op_ok pos
         | Some c \<Rightarrow> (\<lambda>p.
             (case insert_transaction P c (sl_number slot) pos (map ev_key tx_events) decoded p of
                (Inl e, p') \<Rightarrow> (Inr (pos + 1), p')
              | (Inr _, p') \<Rightarrow>
                  op_bind (op_log (update_address_summaries P c (sl_number slot) (slot_timestamp P slot))) (\<lambda>_.
                  op_bind (op_log (insert_resource_rows P C c (sl_number slot) (slot_timestamp P slot))) (\<lambda>_.
                  op_ok (pos + 1))) p')))"

fun ingest_txs ::
  "pg \<Rightarrow> node_client \<Rightarrow> codec \<Rightarrow> u64 \<Rightarrow> slot_response \<Rightarrow> ledger_event list \<Rightarrow> u64 list \<Rightarrow> i32 \<Rightarrow> i32 request" where
  "ingest_txs P C K chain_id slot all_events [] pos = op_ok pos"
| "ingest_txs P C K chain_id slot all_events (n # ns) pos =
     op_bind (tx_at_number C n) (\<lambda>found.
       case found of
         None \<Rightarrow> ingest_txs P C K chain_id slot all_events ns pos
       | Some tx \<Rightarrow>
           op_bind (ingest_tx P C K chain_id slot all_events tx pos) (\<lambda>pos'.
           ingest_txs P C K chain_id slot all_events ns pos'))"

fun ingest_batches ::
  "pg \<Rightarrow> node_client \<Rightarrow> codec \<Rightarrow> u64 \<Rightarrow> slot_response \<Rightarrow> ledger_event list \<Rightarrow> u64 list \<Rightarrow> i32 \<Rightarrow> i32 request" where
  "ingest_batches P C K chain_id slot all_events [] pos = op_ok pos"
| "ingest_batches P C K chain_id slot all_events (b # bs) pos =
     op_bind (batch_at C b) (\<lambda>found.
       case found of
         None \<Rightarrow> ingest_batches P C K chain_id slot all_events bs pos
       | Some batch \<Rightarrow>
           op_bind (ingest_txs P C K chain_id slot all_events (u64_range (lb_tx_range batch)) pos) (\<lambda>pos'.
           ingest_batches P C K chain_id slot all_events bs pos'))"

definition ingest_slot_transactions ::
  "pg \<Rightarrow> node_client \<Rightarrow> codec \<Rightarrow> u64 \<Rightarrow> slot_response \<Rightarrow> unit request" where
  "ingest_slot_transactions P C K chain_id slot =
     (case sl_batch_range slot of
        None \<Rightarrow> op_ok ()
      | Some rng \<Rightarrow>
          op_bind (events_for_slot C (sl_number slot)) (\<lambda>all_events.
          op_bind (ingest_batches P C K chain_id slot all_events (u64_range rng) 0) (\<lambda>_. op_ok ())))"

section \<open>First-batch facts\<close>

record slot_first_batch_facts =
  sf_proposer :: "string option"
  sf_da_block_height :: "int option"

definition no_facts :: slot_first_batch_facts where
  "no_facts = \<lparr>sf_proposer = None, sf_da_block_height = None\<rparr>"

definition batch_facts :: "ledger_batch \<Rightarrow> slot_first_batch_facts" where
  "batch_facts batch =
     (case Option.bind (map_of (lb_raw batch) ''receipt'') as_object of
        None \<Rightarrow> no_facts
      | Some receipt \<Rightarrow>
          \<lparr>sf_proposer = Option.bind (map_of receipt ''da_address'') as_str,
           sf_da_block_height =
             Option.bind (Option.bind (map_of receipt ''da_block_height'') json_as_u64) i64_try_from\<rparr>)"

definition extract_slot_first_batch_facts ::
  "node_client \<Rightarrow> slot_response \<Rightarrow> pool \<Rightarrow> slot_first_batch_facts \<times> pool" where
  "extract_slot_first_batch_facts C slot p =
     (case sl_batch_range slot of
        None \<Rightarrow> (no_facts, p)
      | Some rng \<Rightarrow>
          (case batch_at C (rg_start rng) p of
             (Inr (Some batch), p') \<Rightarrow> (batch_facts batch, p')
           | (_, p') \<Rightarrow> (no_facts, p')))"

section \<open>The loops\<close>

text \<open>
  \<^verbatim>\<open>run\<close>: the bootstrap attempt, the resume point, one look at the head, and one height of
  the forward walk.
\<close>

definition bootstrap_once :: "pg \<Rightarrow> node_client \<Rightarrow> pool \<Rightarrow> bool \<times> pool" where
  "bootstrap_once P C p =
     (case rollup_info C p of
        (Inl _, p') \<Rightarrow> (False, p')
      | (Inr info, p') \<Rightarrow>
          (case write_chain_identity P info p' of
             (Inl _, p'') \<Rightarrow> (False, p'')
           | (Inr _, p'') \<Rightarrow> (True, p'')))"

definition saturating_add_u64 :: "u64 \<Rightarrow> u64 \<Rightarrow> u64" where
  "saturating_add_u64 a b = (if unat a + unat b < 2 ^ 64 then a + b else - 1)"

definition resume_height :: "pg \<Rightarrow> u64 option \<Rightarrow> pool \<Rightarrow> u64 \<times> pool" where
  "resume_height P start_height p =
     (case start_height of
        Some h \<Rightarrow> (h, p)
      | None \<Rightarrow>
          (case read_last_indexed_height P p of
             (Inr (Some h), p') \<Rightarrow> (saturating_add_u64 h 1, p')
           | (Inr None, p') \<Rightarrow> (1, p')
           | (Inl _, p') \<Rightarrow> (1, p')))"

text \<open>
  Where the loop is: before the bootstrap, before the resume point, at the top of the outer loop,
  at a height of the walk, with the slot row of that height written, with its transactions done.
\<close>

datatype phase =
    Boot
  | Resume
  | Outer (ph_next: u64)
  | Walk (ph_next: u64) (ph_head: u64)
  | Landed (ph_next: u64) (ph_head: u64) slot_response
  | Ingested (ph_next: u64) (ph_head: u64)

definition head_check :: "node_client \<Rightarrow> u64 \<Rightarrow> pool \<Rightarrow> phase \<times> pool" where
  "head_check C next p =
     (case latest_slot C p of
        (Inl _, p') \<Rightarrow> (Outer next, p')
      | (Inr s, p') \<Rightarrow> if next > sl_number s then (Outer next, p') else (Walk next (sl_number s), p'))"

text \<open>
  Fetching one height and writing its slot row: the phase afterwards. A height the node answers with
  404 is skipped, a failed fetch or write goes back to the outer loop without advancing.
\<close>

definition next_height :: "u64 \<Rightarrow> u64 \<Rightarrow> phase" where
  "next_height h top_h = (if h + 1 \<le> top_h then Walk (h + 1) top_h else Outer (h + 1))"

definition walk_slot :: "pg \<Rightarrow> node_client \<Rightarrow> u64 \<Rightarrow> u64 \<Rightarrow> pool \<Rightarrow> phase \<times> pool" where
  "walk_slot P C h top_h p =
     (case slot_at C h p of
        (Inl _, p') \<Rightarrow> (Outer h, p')
      | (Inr None, p') \<Rightarrow> (next_height h top_h, p')
      | (Inr (Some slot), p') \<Rightarrow>
          (case extract_slot_first_batch_facts C slot p' of
             (facts, p1) \<Rightarrow>
               (case upsert_slot P slot (sf_proposer facts) (sf_da_block_height facts) p1 of
                  (Inl _, p2) \<Rightarrow> (Outer h, p2)
                | (Inr _, p2) \<Rightarrow> (Landed h top_h slot, p2))))"

definition is_missing :: "node_client \<Rightarrow> u64 \<Rightarrow> pool \<Rightarrow> bool" where
  "is_missing C h p \<longleftrightarrow> fst (slot_at C h p) = Inr None"

text \<open>\<^verbatim>\<open>repoll_pending_loop\<close>: one tick.\<close>

fun observe_pending :: "node_client \<Rightarrow> u64 list \<Rightarrow> pool \<Rightarrow> (u64 \<times> string option) list \<times> pool" where
  "observe_pending C [] p = ([], p)"
| "observe_pending C (h # hs) p =
     (case slot_at C h p of
        (Inr (Some slot), p') \<Rightarrow>
          (case observe_pending C hs p' of (obs, p'') \<Rightarrow> ((h, sl_finality_status slot) # obs, p''))
      | (_, p') \<Rightarrow> observe_pending C hs p')"

definition repoll_tick :: "pg \<Rightarrow> node_client \<Rightarrow> pool \<Rightarrow> pool" where
  "repoll_tick P C p =
     (case pending_slot_heights P p of
        (Inl _, p') \<Rightarrow> p'
      | (Inr pending, p') \<Rightarrow>
          if pending = [] then p'
          else (case observe_pending C pending p' of
                  (observed, p'') \<Rightarrow> snd (flip_pending_slots P observed p'')))"

text \<open>
  The state of a run: the phase of the loop, the pool, and, for the statements below, the heights
  the node has answered with 404 so far. The transactions of a slot are one step, in which every request
  and statement can fail on its own: a crash among them leaves the tables as if the rest had failed.
\<close>

record ingest_state =
  ig_phase :: phase
  ig_pool :: pool
  ig_missing :: "u64 set"

inductive ingest_step ::
  "pg \<Rightarrow> node_client \<Rightarrow> codec \<Rightarrow> u64 \<Rightarrow> u64 option \<Rightarrow> ingest_state \<Rightarrow> ingest_state \<Rightarrow> bool"
  for P :: pg and C :: node_client and K :: codec and chain_id :: u64 and start :: "u64 option" where
  boot: "ig_phase s = Boot \<Longrightarrow> bootstrap_once P C (ig_pool s) = (ok, p') \<Longrightarrow>
    ingest_step P C K chain_id start s (s\<lparr>ig_phase := (if ok then Resume else Boot), ig_pool := p'\<rparr>)"
| resume: "ig_phase s = Resume \<Longrightarrow> resume_height P start (ig_pool s) = (h, p') \<Longrightarrow>
    ingest_step P C K chain_id start s (s\<lparr>ig_phase := Outer h, ig_pool := p'\<rparr>)"
| head: "ig_phase s = Outer h \<Longrightarrow> head_check C h (ig_pool s) = (ph, p') \<Longrightarrow>
    ingest_step P C K chain_id start s (s\<lparr>ig_phase := ph, ig_pool := p'\<rparr>)"
| walk: "ig_phase s = Walk h top_h \<Longrightarrow> walk_slot P C h top_h (ig_pool s) = (ph, p') \<Longrightarrow>
    ingest_step P C K chain_id start s
      (s\<lparr>ig_phase := ph, ig_pool := p',
         ig_missing := (if is_missing C h (ig_pool s) then insert h (ig_missing s) else ig_missing s)\<rparr>)"
| txs: "ig_phase s = Landed h top_h slot \<Longrightarrow>
    ingest_step P C K chain_id start s
      (s\<lparr>ig_phase := Ingested h top_h,
         ig_pool := snd (ingest_slot_transactions P C K chain_id slot (ig_pool s))\<rparr>)"
| mark: "ig_phase s = Ingested h top_h \<Longrightarrow>
    ingest_step P C K chain_id start s
      (s\<lparr>ig_phase := next_height h top_h, ig_pool := snd (write_last_indexed_height P h (ig_pool s))\<rparr>)"
| repoll: "ig_phase s \<noteq> Boot \<Longrightarrow> ig_phase s \<noteq> Resume \<Longrightarrow>
    ingest_step P C K chain_id start s (s\<lparr>ig_pool := repoll_tick P C (ig_pool s)\<rparr>)"
| crash: "ingest_step P C K chain_id start s (s\<lparr>ig_phase := Boot\<rparr>)"

inductive ingest_reach ::
  "pg \<Rightarrow> node_client \<Rightarrow> codec \<Rightarrow> u64 \<Rightarrow> u64 option \<Rightarrow> ingest_state \<Rightarrow> ingest_state \<Rightarrow> bool"
  for P :: pg and C :: node_client and K :: codec and chain_id :: u64 and start :: "u64 option"
    and s0 :: ingest_state where
  start: "ingest_reach P C K chain_id start s0 s0"
| step: "ingest_reach P C K chain_id start s0 s \<Longrightarrow> ingest_step P C K chain_id start s s' \<Longrightarrow>
    ingest_reach P C K chain_id start s0 s'"

section \<open>What the operations keep\<close>

text \<open>
  The writes of resource rows and summaries touch neither slots nor transactions nor the state
  entries; requests touch nothing. An operation \<^emph>\<open>frames\<close> when that is so.
\<close>

named_theorems framing "operations that leave slots, transactions and state entries alone"

definition frame_eq :: "db \<Rightarrow> db \<Rightarrow> bool" where
  "frame_eq d d' \<longleftrightarrow> slots d' = slots d \<and> transactions d' = transactions d \<and> indexer_state d' = indexer_state d"

definition frames :: "(pool \<Rightarrow> 'r \<times> pool) \<Rightarrow> bool" where
  "frames m \<longleftrightarrow> (\<forall>p. frame_eq (p_db p) (p_db (snd (m p))))"

lemma frame_eq_refl [simp]: "frame_eq d d"
  by (simp add: frame_eq_def)

lemma frame_eq_trans: "frame_eq d d' \<Longrightarrow> frame_eq d' d'' \<Longrightarrow> frame_eq d d''"
  by (simp add: frame_eq_def)

lemma frames_exec:
  assumes "\<And>t d d' a. st t d = Inr (d', a) \<Longrightarrow> frame_eq d d'"
  shows "frames (exec P st)"
  using assms by (auto simp: frames_def exec_def Let_def split: sum.splits)

lemma frames_op_ok [framing]: "frames (op_ok a)"
  by (simp add: frames_def)

lemma frames_Pair [framing]: "frames (Pair r)"
  by (simp add: frames_def)

lemma frames_op_log [framing]: "frames m \<Longrightarrow> frames (op_log m)"
  by (simp add: frames_def)

lemma frames_db_op [framing]: "frames m \<Longrightarrow> frames (db_op m)"
  by (auto simp: frames_def db_op_def split: prod.splits sum.splits) (metis snd_conv)+

lemma frames_op_bind [framing]:
  assumes "frames m" and "\<And>a. frames (f a)"
  shows "frames (op_bind m f)"
  unfolding frames_def
proof
  fix p
  show "frame_eq (p_db p) (p_db (snd (op_bind m f p)))"
    using assms by (intro op_bind_snd_cases [where Q = "\<lambda>p'. frame_eq (p_db p) (p_db p')"])
      (auto simp: frames_def intro: frame_eq_trans)
qed

lemma frames_requests [framing]: "frames (bounty_at C i)" "frames (contract_at C i)"
  by (simp_all add: frames_def)

lemma frames_upsert_address: "frames (exec P (upsert_address_stmt row merge))"
  by (rule frames_exec) (auto simp: upsert_address_stmt_def frame_eq_def bind_result_def Let_def split: sum.splits)

lemma frames_address [framing]:
  "frames (upsert_address_activity P a role h tx ts)"
  "frames (bump_address_schemas_owned P a h tx ts)"
  "frames (bump_attestor_member_count P m)"
  by (auto simp: upsert_address_activity_def bump_address_schemas_owned_def bump_attestor_member_count_def
      frames_upsert_address frames_op_ok split: prod.splits)

lemma frames_resources [framing]:
  "frames (insert_attestor_set P d1 tx h ts)"
  "frames (insert_schema P d2 tx h ts)"
  "frames (insert_attestation P d3 tx h ts)"
  "frames (bump_attestor_set_schema_count P i)"
  "frames (bump_schema_attestation_count P i)"
  "frames (upsert_bounty P i rec1 h tx ts)"
  "frames (apply_bounty_claim P i pay n h)"
  "frames (set_bounty_escrow_zero P i)"
  "frames (upsert_contract P i rec2 h tx ts)"
  "frames (set_contract_escrow_zero P i)"
  unfolding insert_attestor_set_def insert_schema_def insert_attestation_def
    bump_attestor_set_schema_count_def bump_schema_attestation_count_def upsert_bounty_def
    apply_bounty_claim_def set_bounty_escrow_zero_def upsert_contract_def set_contract_escrow_zero_def
  by (rule frames_exec; auto simp: insert_attestor_set_stmt_def insert_schema_stmt_def
      insert_attestation_stmt_def upsert_bounty_stmt_def upsert_contract_stmt_def bind_result_def
      frame_eq_def Let_def split: if_splits option.splits sum.splits)+

lemma frames_bump_members [framing]: "frames (bump_members P ms)"
  by (induction ms) (auto intro!: framing)

lemma frames_deltas [framing]:
  "frames (bounty_delta P i kind h)"
  "frames (contract_delta P j kind')"
  by (auto simp: bounty_delta_def contract_delta_def intro!: framing split: bounty_event_kind.split)

lemma frames_insert_resource_rows [framing]: "frames (insert_resource_rows P C c h ts)"
  by (auto simp: insert_resource_rows_def intro!: framing split: indexer_tx.split option.split)

lemma frames_update_address_summaries [framing]: "frames (update_address_summaries P c h ts)"
  by (auto simp: update_address_summaries_def intro!: framing split: indexer_tx.split option.split)

section \<open>Invariants of the loop\<close>

text \<open>
  The contract of an invariant of the ingest loop: the statements on slots, transactions and the
  chain identity keep it, the writes of summaries and resource rows for a classified transaction keep
  it, and so do the drips that requests record. A second locale adds the cursor. Whatever satisfies
  the contract holds in every reachable state.
\<close>

locale ingest_statements =
  fixes P :: pg and K :: codec and I :: "db \<Rightarrow> bool"
  assumes keep_slot: "I d \<Longrightarrow> upsert_slot_stmt P slot prev proposer da t d = Inr (d', u) \<Longrightarrow> I d'"
    and keep_flip: "I d \<Longrightarrow> flip_stmt h t d = Inr (d', n) \<Longrightarrow> I d'"
    and keep_tx: "I d \<Longrightarrow> insert_tx_stmt (new_tx_row c s i ks dec out) t d = Inr (d', u) \<Longrightarrow> I d'"
    and keep_identity: "I d \<Longrightarrow> key \<noteq> KEY_LAST_INDEXED_HEIGHT \<Longrightarrow>
      upsert_state_stmt key val t d = Inr (d', u) \<Longrightarrow> I d'"

locale cursor_statement =
  fixes I :: "db \<Rightarrow> bool"
  assumes keep_cursor: "I d \<Longrightarrow> upsert_state_stmt KEY_LAST_INDEXED_HEIGHT val t d = Inr (d', u) \<Longrightarrow> I d'"

locale ingest_kept = ingest_statements +
  assumes keep_summaries: "I (p_db p) \<Longrightarrow> I (p_db (snd (update_address_summaries P c h ts p)))"
    and keep_resources: "I (p_db p) \<Longrightarrow> classify_tx (cx_crypto K) (json_text P) tx evs = Some c \<Longrightarrow>
      I (p_db (snd (insert_resource_rows P C c h ts p)))"
    and keep_drips: "I d \<Longrightarrow> I (d\<lparr>bot_drips := rows\<rparr>)"
begin

lemma keep_exec:
  "(\<And>t d d' a. I d \<Longrightarrow> st t d = Inr (d', a) \<Longrightarrow> I d') \<Longrightarrow> I (p_db p) \<Longrightarrow> I (p_db (snd (exec P st p)))"
  by (rule exec_db_invariant [where I = I])

lemma keep_upsert_slot: "I (p_db p) \<Longrightarrow> I (p_db (snd (upsert_slot P slot proposer da p)))"
  by (cases rule: upsert_slot_cases [of P slot proposer da p]) (auto intro: keep_slot)

lemma keep_insert_transaction: "I (p_db p) \<Longrightarrow> I (p_db (snd (insert_transaction P c s i ks dec p)))"
  by (cases "ctx_outcome c") (auto simp: insert_transaction_def intro: keep_exec keep_tx)

lemma keep_ingest_tx:
  assumes "I (p_db p)"
  shows "I (p_db (snd (ingest_tx P C K chain_id slot evs tx pos p)))"
proof (cases "classify_tx (cx_crypto K) (json_text P) tx (filter (\<lambda>e. ev_tx_hash e = lt_hash tx) evs)")
  case None
  with assms show ?thesis by (simp add: ingest_tx_def)
next
  case (Some c)
  let ?dec = "decode_tx_body (cx_base64 K) (codec_bech32m K) (fb_data (lt_body tx)) chain_id"
  let ?ks = "map ev_key (filter (\<lambda>e. ev_tx_hash e = lt_hash tx) evs)"
  have "I (p_db (snd (insert_transaction P c (sl_number slot) pos ?ks ?dec p)))"
    using assms by (rule keep_insert_transaction)
  then show ?thesis
    using Some
    by (auto simp: ingest_tx_def op_bind_def Let_def split: prod.splits sum.splits
        intro!: keep_resources [OF _ Some] keep_summaries)
qed

lemma keep_ingest_txs: "I (p_db p) \<Longrightarrow> I (p_db (snd (ingest_txs P C K chain_id slot evs ns pos p)))"
proof (induction ns arbitrary: pos p)
  case Nil
  then show ?case by simp
next
  case (Cons n ns)
  let ?keeps = "\<lambda>p. I (p_db p)"
  have "?keeps (snd (op_bind (ingest_tx P C K chain_id slot evs tx pos) (ingest_txs P C K chain_id slot evs ns) p'))"
    if "I (p_db p')" for tx p'
    using that Cons.IH keep_ingest_tx by (intro op_bind_snd_cases [where Q = ?keeps]) auto
  with Cons show ?case
    by (auto intro!: op_bind_snd_cases [where Q = ?keeps] split: option.split)
qed

lemma keep_ingest_batches: "I (p_db p) \<Longrightarrow> I (p_db (snd (ingest_batches P C K chain_id slot evs bs pos p)))"
proof (induction bs arbitrary: pos p)
  case Nil
  then show ?case by simp
next
  case (Cons b bs)
  let ?keeps = "\<lambda>p. I (p_db p)"
  have "?keeps (snd (op_bind (ingest_txs P C K chain_id slot evs ns pos) (ingest_batches P C K chain_id slot evs bs) p'))"
    if "I (p_db p')" for ns p'
    using that Cons.IH keep_ingest_txs by (intro op_bind_snd_cases [where Q = ?keeps]) auto
  with Cons show ?case
    by (auto intro!: op_bind_snd_cases [where Q = ?keeps] split: option.split)
qed

lemma keep_ingest_slot_transactions:
  "I (p_db p) \<Longrightarrow> I (p_db (snd (ingest_slot_transactions P C K chain_id slot p)))"
  by (auto simp: ingest_slot_transactions_def keep_ingest_batches
      intro!: op_bind_snd_cases [where Q = "\<lambda>p. I (p_db p)"] split: option.split)

lemma keep_flips: "I (p_db p) \<Longrightarrow> I (p_db (snd (flip_pending_slots P rechecked p)))"
  unfolding flip_pending_slots_def by (rule flip_from_induct [where I = I]) (auto intro: keep_flip)

lemma observe_pending_db: "p_db (snd (observe_pending C hs p)) = p_db p"
proof (induction hs arbitrary: p)
  case Nil
  then show ?case by simp
next
  case (Cons h hs)
  obtain r p' where sl: "slot_at C h p = (r, p')" by force
  then have "p_db p' = p_db p" using request_db(3) [of C h p] by simp
  with sl Cons.IH [of p'] show ?case by (auto split: sum.split option.split prod.split)
qed

lemma keep_repoll_tick:
  assumes "I (p_db p)"
  shows "I (p_db (repoll_tick P C p))"
proof -
  obtain r p' where pd: "pending_slot_heights P p = (r, p')" by force
  have "I (p_db (snd (pending_slot_heights P p)))"
    unfolding pending_slot_heights_def using assms by (rule keep_exec [rotated]) auto
  then have p': "I (p_db p')" by (simp add: pd)
  have "I (p_db (snd (flip_pending_slots P (fst (observe_pending C hs p')) (snd (observe_pending C hs p')))))" for hs
    using p' by (intro keep_flips) (simp add: observe_pending_db)
  with pd p' show ?thesis by (simp add: repoll_tick_def case_prod_unfold split: sum.split)
qed

lemma keep_write_chain_identity:
  assumes "I (p_db p)"
  shows "I (p_db (snd (write_chain_identity P info p)))"
proof -
  let ?keeps = "\<lambda>p. I (p_db p)"
  have st: "I (p_db (snd (upsert_state P key val q)))" if "I (p_db q)" "key \<noteq> KEY_LAST_INDEXED_HEIGHT" for key val q
    unfolding upsert_state_def using keep_identity that by (intro keep_exec) auto
  have nop: "I (p_db (snd (exec P (\<lambda>_ d. Inr (d, ())) q)))" if "I (p_db q)" for q
    using that by (intro keep_exec) auto
  have keys: "KEY_CHAIN_ID \<noteq> KEY_LAST_INDEXED_HEIGHT" "KEY_CHAIN_HASH \<noteq> KEY_LAST_INDEXED_HEIGHT"
    "KEY_NODE_VERSION \<noteq> KEY_LAST_INDEXED_HEIGHT"
    by (simp_all add: KEY_CHAIN_ID_def KEY_CHAIN_HASH_def KEY_NODE_VERSION_def KEY_LAST_INDEXED_HEIGHT_def)
  let ?body = "op_bind (upsert_state P KEY_CHAIN_ID (ri_chain_id info)) (\<lambda>_.
        op_bind (upsert_state P KEY_CHAIN_HASH (ri_chain_hash info)) (\<lambda>_.
        upsert_state P KEY_NODE_VERSION (ri_version info)))"
  have body: "I (p_db (snd (?body q)))" if "I (p_db q)" for q
    using that st keys by (intro op_bind_snd_cases [where Q = ?keeps]) auto
  have "I (p_db (snd (op_bind ?body (\<lambda>_. exec P (\<lambda>_ d. Inr (d, ()))) q)))" if "I (p_db q)" for q
    by (rule op_bind_snd_cases [where Q = ?keeps]) (rule body [OF that], rule nop)
  then show ?thesis
    unfolding write_chain_identity_def in_transaction_def using assms nop
    by (intro op_bind_snd_cases [where Q = ?keeps]) (auto split: prod.split sum.split, metis snd_conv)
qed

lemma keep_bootstrap: "I (p_db p) \<Longrightarrow> I (p_db (snd (bootstrap_once P C p)))"
  by (simp add: bootstrap_once_def case_prod_unfold keep_write_chain_identity split: sum.split)

lemma keep_resume: "I (p_db p) \<Longrightarrow> I (p_db (snd (resume_height P start p)))"
proof -
  assume "I (p_db p)"
  then have "I (p_db (snd (read_last_indexed_height P p)))"
    unfolding read_last_indexed_height_def
    by (intro op_bind_snd_cases [where Q = "\<lambda>p. I (p_db p)"] keep_exec) auto
  with \<open>I (p_db p)\<close> show ?thesis
    by (simp add: resume_height_def case_prod_unfold split: option.split sum.split)
qed

lemma facts_db: "p_db (snd (extract_slot_first_batch_facts C slot p)) = p_db p"
  by (simp add: extract_slot_first_batch_facts_def case_prod_unfold split: option.split sum.split)

lemma keep_walk_slot:
  assumes "I (p_db p)"
  shows "I (p_db (snd (walk_slot P C h top_h p)))"
proof -
  have "I (p_db (snd (upsert_slot P slot x y (snd (extract_slot_first_batch_facts C slot (snd (slot_at C h p)))))))"
    for slot x y
    using assms by (intro keep_upsert_slot) (simp add: facts_db)
  with assms show ?thesis
    by (simp add: walk_slot_def case_prod_unfold split: sum.split option.split)
qed

lemma keep_head_check: "I (p_db p) \<Longrightarrow> I (p_db (snd (head_check C h p)))"
  by (simp add: head_check_def case_prod_unfold split: sum.split)

end

locale ingest_kept_cursor = ingest_kept + cursor_statement
begin

lemma keep_write_cursor: "I (p_db p) \<Longrightarrow> I (p_db (snd (write_last_indexed_height P h p)))"
  unfolding write_last_indexed_height_def upsert_state_def by (rule keep_exec [OF keep_cursor])

lemma keep_step:
  "ingest_step P C K chain_id start s s' \<Longrightarrow> I (p_db (ig_pool s)) \<Longrightarrow> I (p_db (ig_pool s'))"
proof (induction rule: ingest_step.induct)
  case (boot s ok p')
  then show ?case using keep_bootstrap [of "ig_pool s" C] by simp
next
  case (resume s h p')
  then show ?case using keep_resume [of "ig_pool s" start] by simp
next
  case (head s h ph p')
  then show ?case using keep_head_check [of "ig_pool s" C h] by simp
next
  case (walk s h top_h ph p')
  then show ?case using keep_walk_slot [of "ig_pool s" C h top_h] by simp
qed (simp_all add: keep_ingest_slot_transactions keep_write_cursor keep_repoll_tick)

lemma keep_reach:
  "ingest_reach P C K chain_id start s0 s \<Longrightarrow> I (p_db (ig_pool s0)) \<Longrightarrow> I (p_db (ig_pool s))"
  by (induction rule: ingest_reach.induct) (auto intro: keep_step)

end

text \<open>An invariant of the slots, the transactions and the state entries alone need not look at the rest.\<close>

locale ingest_invariant = ingest_statements +
  assumes keep_frame: "I d \<Longrightarrow> frame_eq d d' \<Longrightarrow> I d'"
begin

lemma keep_frames: "frames m \<Longrightarrow> I (p_db p) \<Longrightarrow> I (p_db (snd (m p)))"
  using keep_frame by (auto simp: frames_def)

end

sublocale ingest_invariant \<subseteq> ingest_kept
  by unfold_locales (auto intro: keep_frames framing keep_frame simp: frame_eq_def)

locale ingest_invariant_cursor = ingest_invariant + cursor_statement

sublocale ingest_invariant_cursor \<subseteq> ingest_kept_cursor ..

section \<open>Instances\<close>

lemma slot_kept_upsert:
  "slot_of d h \<noteq> None \<Longrightarrow> upsert_slot_stmt P slot prev proposer da t d = Inr (d', u) \<Longrightarrow> slot_of d' h \<noteq> None"
  by (simp add: slot_of_upsert)

lemma slot_kept_flip: "slot_of d h \<noteq> None \<Longrightarrow> flip_stmt h' t d = Inr (d', n) \<Longrightarrow> slot_of d' h \<noteq> None"
  by (simp add: slot_of_flip)

lemma upsert_slot_txs: "upsert_slot_stmt P slot prev proposer da t d = Inr (d', u) \<Longrightarrow> transactions d' = transactions d"
  by (auto simp: upsert_slot_stmt_def Let_def)

lemma flip_txs: "flip_stmt h t d = Inr (d', n) \<Longrightarrow> transactions d' = transactions d"
  by (auto simp: flip_stmt_def Let_def)

lemma tx_wf_slots:
  assumes "tx_wf d" and "transactions d' = transactions d"
    and "\<And>h. slot_of d h \<noteq> None \<Longrightarrow> slot_of d' h \<noteq> None"
  shows "tx_wf d'"
  using assms by (simp add: tx_wf_def slot_of_def)

interpretation txs: ingest_invariant_cursor P K tx_wf for P K
proof
  show "tx_wf d'" if "tx_wf d" "upsert_slot_stmt P slot prev proposer da t d = Inr (d', u)"
    for d slot prev proposer da t d' u
    using that slot_kept_upsert upsert_slot_txs by (intro tx_wf_slots [of d d']) blast+
  show "tx_wf d'" if "tx_wf d" "flip_stmt h t d = Inr (d', n)" for d h t d' n
    using that slot_kept_flip flip_txs by (intro tx_wf_slots [of d d']) blast+
  show "tx_wf d'" if "tx_wf d" "insert_tx_stmt (new_tx_row c s i ks dec out) t d = Inr (d', u)"
    for d c s i ks dec out t d' u
    using that by (auto intro: tx_wf_insert)
qed (auto simp: tx_wf_def upsert_state_stmt_def frame_eq_def)

lemma slot_of_unchanged:
  "insert_tx_stmt row t d = Inr (d', u) \<Longrightarrow> slot_of d' = slot_of d"
  "upsert_state_stmt key val t d = Inr (d', u) \<Longrightarrow> slot_of d' = slot_of d"
  "frame_eq d d' \<Longrightarrow> slot_of d' = slot_of d"
  by (auto simp: fun_eq_iff slot_of_def insert_tx_stmt_Inr upsert_state_stmt_def frame_eq_def)

lemma all_stamped_cong: "all_stamped d \<Longrightarrow> slot_of d' = slot_of d \<Longrightarrow> all_stamped d'"
  by (simp add: all_stamped_def)

interpretation stamps: ingest_invariant_cursor P K all_stamped for P K
  by unfold_locales
     (blast intro: all_stamped_upsert all_stamped_flip all_stamped_cong slot_of_unchanged)+

interpretation present: ingest_invariant_cursor P K "\<lambda>d. slot_of d h \<noteq> None" for P K h
  by unfold_locales (simp_all add: slot_of_upsert slot_of_flip slot_of_unchanged)

definition cursor :: "db \<Rightarrow> u64 option" where
  "cursor d = Option.bind (state_value KEY_LAST_INDEXED_HEIGHT d) parse_u64"

interpretation cursor_kept: ingest_invariant P K "\<lambda>d. cursor d = c" for P K c
proof
  show "cursor d' = c" if "cursor d = c" "key \<noteq> KEY_LAST_INDEXED_HEIGHT" "upsert_state_stmt key val t d = Inr (d', u)"
    for d key val t d' u
    using that by (auto simp: cursor_def state_value_def upsert_state_stmt_def find_row_upsert)
qed (auto simp: cursor_def state_value_def upsert_slot_stmt_def flip_stmt_def insert_tx_stmt_Inr frame_eq_def Let_def)

section \<open>Coverage of the heights\<close>

text \<open>What the client expects of the node: a slot fetched by height is the slot of that height.\<close>

definition node_numbers :: "node_client \<Rightarrow> bool" where
  "node_numbers C \<longleftrightarrow> (\<forall>h p slot. fst (slot_at C h p) = Inr (Some slot) \<longrightarrow> sl_number slot = h)"

definition accounted :: "ingest_state \<Rightarrow> u64 \<Rightarrow> bool" where
  "accounted s h \<longleftrightarrow> slot_of (p_db (ig_pool s)) (as_i64 h) \<noteq> None \<or> h \<in> ig_missing s"

fun done_below :: "phase \<Rightarrow> u64 \<Rightarrow> bool" where
  "done_below Boot h = False"
| "done_below Resume h = False"
| "done_below (Outer n) h = (h < n)"
| "done_below (Walk n top_h) h = (h < n)"
| "done_below (Landed n top_h slot) h = (h \<le> n)"
| "done_below (Ingested n top_h) h = (h \<le> n)"

text \<open>The first height that is the business of the indexer: the configured one, or 1.\<close>

definition first_height :: "u64 option \<Rightarrow> u64" where
  "first_height start = (case start of Some h \<Rightarrow> h | None \<Rightarrow> 1)"

definition no_gap :: "u64 \<Rightarrow> ingest_state \<Rightarrow> bool" where
  "no_gap lo s \<longleftrightarrow>
     (\<forall>h \<ge> lo. (done_below (ig_phase s) h \<or> (\<exists>c. cursor (p_db (ig_pool s)) = Some c \<and> h \<le> c)) \<longrightarrow> accounted s h)"

lemma less_succ_word: "(a :: u64) < b + 1 \<Longrightarrow> a \<le> b"
  by unat_arith

lemma done_next_height: "done_below (next_height n top_h) h \<Longrightarrow> h \<le> n"
  by (auto simp: next_height_def less_succ_word split: if_splits)

lemma accounted_mono:
  assumes "accounted s h" and "ig_missing s \<subseteq> ig_missing s'"
    and "\<And>i. slot_of (p_db (ig_pool s)) i \<noteq> None \<Longrightarrow> slot_of (p_db (ig_pool s')) i \<noteq> None"
  shows "accounted s' h"
  using assms by (auto simp: accounted_def)

lemma no_gap_step:
  assumes "no_gap lo s" and "ig_missing s \<subseteq> ig_missing s'"
    and "\<And>i. slot_of (p_db (ig_pool s)) i \<noteq> None \<Longrightarrow> slot_of (p_db (ig_pool s')) i \<noteq> None"
    and "\<And>c. cursor (p_db (ig_pool s')) = Some c \<Longrightarrow>
      cursor (p_db (ig_pool s)) = Some c \<or> done_below (ig_phase s) c \<and> (\<forall>h \<le> c. done_below (ig_phase s) h)"
    and "\<And>h. lo \<le> h \<Longrightarrow> done_below (ig_phase s') h \<Longrightarrow>
      done_below (ig_phase s) h \<or> (\<exists>c. cursor (p_db (ig_pool s)) = Some c \<and> h \<le> c) \<or> accounted s' h"
  shows "no_gap lo s'"
  unfolding no_gap_def
proof (intro allI impI)
  fix h :: u64
  assume h: "lo \<le> h" and "done_below (ig_phase s') h \<or> (\<exists>c. cursor (p_db (ig_pool s')) = Some c \<and> h \<le> c)"
  then have "done_below (ig_phase s) h \<or> (\<exists>c. cursor (p_db (ig_pool s)) = Some c \<and> h \<le> c) \<or> accounted s' h"
    using assms(4,5) by blast
  with h assms(1) have "accounted s h \<or> accounted s' h" by (auto simp: no_gap_def)
  then show "accounted s' h" using accounted_mono [OF _ assms(2,3)] by blast
qed

lemma resume_bound:
  assumes "resume_height P start p = (n, p')" and "first_height start \<le> h" and "h < n"
  shows "\<exists>c. cursor (p_db p) = Some c \<and> h \<le> c"
proof (cases start)
  case (Some lo)
  with assms show ?thesis by (simp add: resume_height_def first_height_def)
next
  case None
  with assms have none: "resume_height P None p = (n, p')" "1 \<le> h" "h < n" by (simp_all add: first_height_def)
  show ?thesis
  proof (cases "pg_fault P (p_seq p)")
    case True
    then have "n = 1"
      using none(1) by (auto simp: resume_height_def read_last_indexed_height_def op_bind_def exec_def Let_def)
    with none(2,3) show ?thesis by simp
  next
    case False
    then have n: "n = (case cursor (p_db p) of Some c \<Rightarrow> saturating_add_u64 c 1 | None \<Rightarrow> 1)"
      using none(1) read_cursor [OF False]
      by (auto simp: resume_height_def cursor_def case_prod_unfold split: option.splits)
    then obtain c where c: "cursor (p_db p) = Some c" "n = saturating_add_u64 c 1"
      using none(2,3) by (auto split: option.splits)
    have "h \<le> c"
    proof (cases "unat c + 1 < 2 ^ 64")
      case True
      then show ?thesis using c(2) none(3) less_succ_word [of h c] by (simp add: saturating_add_u64_def)
    next
      case False
      then show ?thesis
        using unsigned_less [of h, where ?'a = nat] by (simp add: word_le_nat_alt)
    qed
    with c(1) show ?thesis by blast
  qed
qed

lemma upsert_slot_present:
  assumes "upsert_slot P slot proposer da p = (Inr u, p')"
  shows "slot_of (p_db p') (as_i64 (sl_number slot)) \<noteq> None"
  using assms by (cases rule: upsert_slot_cases [of P slot proposer da p]) (auto simp: slot_of_upsert)

lemma walk_slot_cases:
  assumes "walk_slot P C h top_h p = (ph, p')"
  shows "ph = Outer h \<or> (is_missing C h p \<and> ph = next_height h top_h) \<or>
    (\<exists>slot. ph = Landed h top_h slot \<and> fst (slot_at C h p) = Inr (Some slot) \<and>
       slot_of (p_db p') (as_i64 (sl_number slot)) \<noteq> None)"
  using assms
  by (auto simp: walk_slot_def is_missing_def case_prod_unfold prod_eq_iff upsert_slot_present
      split: sum.splits option.splits)

lemma write_cursor_cases:
  "cursor (p_db (snd (write_last_indexed_height P h p))) \<in> {cursor (p_db p), Some h}"
proof (cases "write_last_indexed_height P h p")
  case (Pair r p')
  show ?thesis
  proof (cases r)
    case (Inl e)
    with Pair show ?thesis by (auto simp: write_last_indexed_height_def upsert_state_def dest!: exec_Inl)
  next
    case (Inr u)
    with Pair upsert_state_value [of P KEY_LAST_INDEXED_HEIGHT "show_u64 h" p p' KEY_LAST_INDEXED_HEIGHT]
    show ?thesis by (simp add: write_last_indexed_height_def cursor_def)
  qed
qed

lemma no_gap_preserved:
  assumes "node_numbers C" and st: "ingest_step P C K chain_id start s s'" and gap: "no_gap (first_height start) s"
  shows "no_gap (first_height start) s'"
proof -
  have kept: "slot_of (p_db (ig_pool s)) i \<noteq> None \<Longrightarrow> slot_of (p_db (ig_pool s')) i \<noteq> None" for i
    using present.keep_step [OF st] by blast
  show ?thesis
    using st
  proof (cases rule: ingest_step.cases)
    case (boot ok p')
    have "cursor (p_db p') = cursor (p_db (ig_pool s))"
      using cursor_kept.keep_bootstrap [OF refl, of P C "ig_pool s"] boot by simp
    with boot kept show ?thesis by (intro no_gap_step [OF gap]) (auto split: if_splits)
  next
    case (resume n p')
    have "cursor (p_db p') = cursor (p_db (ig_pool s))"
      using cursor_kept.keep_resume [OF refl, of P start "ig_pool s"] resume by simp
    with resume kept resume_bound [OF resume(3)] show ?thesis by (intro no_gap_step [OF gap]) auto
  next
    case (head n ph p')
    have "cursor (p_db p') = cursor (p_db (ig_pool s))"
      using cursor_kept.keep_head_check [OF refl, of C n "ig_pool s"] head by simp
    moreover have "ph = Outer n \<or> (\<exists>t. ph = Walk n t)"
      using head(3) by (auto simp: head_check_def split: prod.splits sum.splits if_splits)
    ultimately show ?thesis using head kept by (intro no_gap_step [OF gap]) auto
  next
    case (walk n top_h ph p')
    have "cursor (p_db p') = cursor (p_db (ig_pool s))"
      using cursor_kept.keep_walk_slot [OF refl, of P C n top_h "ig_pool s"] walk by simp
    moreover have reached: "h < n \<or> accounted s' h" if "done_below ph h" for h
      using walk_slot_cases [OF walk(3)] that assms(1) walk done_next_height [of n top_h h]
      by (auto simp: accounted_def node_numbers_def)
    ultimately show ?thesis using walk kept by (intro no_gap_step [OF gap]) (auto dest: reached)
  next
    case (txs n top_h slot)
    have "cursor (p_db (snd (ingest_slot_transactions P C K chain_id slot (ig_pool s)))) = cursor (p_db (ig_pool s))"
      by (rule cursor_kept.keep_ingest_slot_transactions [OF refl])
    with txs kept show ?thesis by (intro no_gap_step [OF gap]) auto
  next
    case (mark n top_h)
    with kept write_cursor_cases [of P n "ig_pool s"] done_next_height [of n top_h]
    show ?thesis by (intro no_gap_step [OF gap]) auto
  next
    case repoll
    have "cursor (p_db (repoll_tick P C (ig_pool s))) = cursor (p_db (ig_pool s))"
      by (rule cursor_kept.keep_repoll_tick [OF refl])
    with repoll kept show ?thesis by (intro no_gap_step [OF gap]) auto
  next
    case crash
    with kept show ?thesis by (intro no_gap_step [OF gap]) auto
  qed
qed

definition fresh_state :: ingest_state where
  "fresh_state = \<lparr>ig_phase = Boot, ig_pool = fresh_pool, ig_missing = {}\<rparr>"

lemma fresh_state_ok:
  "no_gap lo fresh_state" "tx_wf (p_db (ig_pool fresh_state))" "all_stamped (p_db (ig_pool fresh_state))"
  by (simp_all add: no_gap_def fresh_state_def fresh_pool_def empty_db_def cursor_def state_value_def
      tx_wf_def unique_key_def all_stamped_def slot_of_def)

text \<open>A node with one slot, for the witnesses.\<close>

definition one_slot_body :: json where
  "one_slot_body = JObject [(''number'', JInt 1), (''hash'', JString ''a''), (''chain_id'', JString ''c''),
     (''chain_hash'', JString ''h''), (''version'', JString ''v'')]"

definition one_slot_node :: node_client where
  "one_slot_node = \<lparr>nc_base = [], nc_join = (\<lambda>_ path. path),
     nc_get = (\<lambda>_ url _. if url \<in> {''v1/rollup/info'', ''v1/ledger/slots/latest'', ''v1/ledger/slots/'' @ show_u64 1}
                          then Reply 200 (Inr one_slot_body) else Reply 404 (Inr JNull))\<rparr>"

lemma show_u64_not_latest: "show_u64 h \<noteq> ''latest''"
proof
  assume "show_u64 h = ''latest''"
  then have "parse_u64 ''latest'' = Some h" by (metis parse_u64_show_u64)
  then show False by (simp add: parse_u64_def parse_uint_def digit_val_def)
qed

lemma no_gap_reach:
  assumes "node_numbers C" and "ingest_reach P C K chain_id start fresh_state s"
  shows "no_gap (first_height start) s"
  using assms(2) by (induction rule: ingest_reach.induct) (auto intro: fresh_state_ok no_gap_preserved [OF assms(1)])

section \<open>Properties\<close>

text \<open>The walk leaves no gap, provided the node answers for a height with the slot of that number. Starting
  from an empty database, at the configured height or else at 1, in every state the process can reach,
  through failures of the node or the database at any request, crashes between any two stages of a slot,
  restarts, and the re-poll task running alongside: every height from the first on that is below the
  next one to fetch, or not above the stored cursor, has its slot row, unless the node answered 404 for it.\<close>

lemma ingest_leaves_no_gap:
  assumes "node_numbers C" and "ingest_reach P C K chain_id start fresh_state s" and "first_height start \<le> h"
    and "done_below (ig_phase s) h \<or> (\<exists>c. cursor (p_db (ig_pool s)) = Some c \<and> h \<le> c)"
  shows "slot_of (p_db (ig_pool s)) (as_i64 h) \<noteq> None \<or> h \<in> ig_missing s"
  using no_gap_reach [OF assms(1,2)] assms(3,4) by (auto simp: no_gap_def accounted_def)

text \<open>C20. Ingesting a schema registration again is not neutral: the schema row is already there and
  stays as it is, but the counter of its attestor set grows once more. A crash between the
  transactions of a slot and the cursor, or a start height below the cursor, replays the slot, so the
  counter no longer tells how many schemas bind to the set.\<close>

theorem reingest_inflates_schema_count:
  assumes "\<forall>n. \<not> pg_fault P n" and "ctx_kind c = RegisterSchema d"
    and "find_row sc_id (irs_schema_id d) (schemas (p_db p)) = Some r"
    and "\<forall>t. schema_check (new_schema_row d (ctx_hash c) h ts t)"
    and "unique_key as_id (attestor_sets (p_db p))"
    and "find_row as_id (irs_attestor_set_id d) (attestor_sets (p_db p)) = Some a"
    and "as_schema_count a < i32_max" and "0 \<le> as_schema_count a"
  shows "map sc_id (schemas (p_db (snd (insert_resource_rows P C c h ts p)))) = map sc_id (schemas (p_db p)) \<and>
    (\<exists>a'. find_row as_id (irs_attestor_set_id d) (attestor_sets (p_db (snd (insert_resource_rows P C c h ts p)))) = Some a' \<and>
       as_schema_count a' = as_schema_count a + 1)"
proof -
  let ?p1 = "snd (insert_schema P d (ctx_hash c) h ts p)"
  have s1: "insert_schema P d (ctx_hash c) h ts p = (Inr (), ?p1)"
    "map sc_id (schemas (p_db ?p1)) = map sc_id (schemas (p_db p))" "attestor_sets (p_db ?p1) = attestor_sets (p_db p)"
    using assms(1,3,4)
    by (simp_all add: insert_schema_def exec_def insert_schema_stmt_def Let_def new_schema_row_def map_update_where)
  let ?p2 = "snd (bump_attestor_set_schema_count P (irs_attestor_set_id d) ?p1)"
  have uniq: "r = a" if "r \<in> set (attestor_sets (p_db p))" "as_id r = irs_attestor_set_id d" for r
    using that assms(5,6) find_row_Some_iff [OF assms(5), of "irs_attestor_set_id d" r] by simp
  have ok: "int4_ok (as_schema_count a + 1)" using assms(7,8) by (simp add: int4_ok_def)
  have s2: "schemas (p_db ?p2) = schemas (p_db ?p1)"
    "attestor_sets (p_db ?p2) = update_where (\<lambda>r. as_id r = irs_attestor_set_id d)
        (\<lambda>r. r\<lparr>as_schema_count := as_schema_count r + 1, as_indexed_at := pg_now P (p_seq ?p1)\<rparr>) (attestor_sets (p_db p))"
    using assms(1) ok uniq s1(3)
    by (auto simp: bump_attestor_set_schema_count_def exec_def Let_def)
  let ?p3 = "snd (bump_address_schemas_owned P (irs_owner d) h (ctx_hash c) ts ?p2)"
  have s3: "schemas (p_db ?p3) = schemas (p_db ?p2)" "attestor_sets (p_db ?p3) = attestor_sets (p_db ?p2)"
    using assms(1)
    by (simp_all add: bump_address_schemas_owned_def exec_def upsert_address_stmt_def bind_result_def Let_def
        split: sum.split)
  have "fst (insert_schema P d (ctx_hash c) h ts p) = Inr ()" using s1(1) by (metis fst_conv)
  then have "snd (insert_resource_rows P C c h ts p) = ?p3"
    by (simp add: insert_resource_rows_def assms(2) op_bind_def db_op_def case_prod_unfold)
  then show ?thesis
    using s1(2) s2 s3 assms(6) by (simp add: find_row_update_key)
qed

definition sample_schema :: indexer_register_schema where
  "sample_schema = \<lparr>irs_schema_id = ''lsc1a'', irs_name = ''n'', irs_version = 1, irs_owner = ''lig1a'',
     irs_attestor_set_id = ''las1a'', irs_fee_routing_bps = 0, irs_fee_routing_addr = None,
     irs_payload_shape_hash = ''00''\<rparr>"

definition sample_schema_tx :: classified_tx where
  "sample_schema_tx = \<lparr>ctx_hash = ''ltx1a'', ctx_batch_number = 1, ctx_global_tx_number = 1,
     ctx_outcome = Committed, ctx_kind = RegisterSchema sample_schema\<rparr>"

definition indexed_schema_pool :: pool where
  "indexed_schema_pool = \<lparr>p_db = empty_db\<lparr>schemas := [new_schema_row sample_schema ''ltx1a'' 1 0 0],
     attestor_sets := [\<lparr>as_id = ''las1a'', as_members = JArray [], as_threshold = 1, as_slot = 1, as_tx = ''ltx1b'',
       as_timestamp = 0, as_schema_count = 1, as_indexed_at = 0\<rparr>]\<rparr>, p_seq = 0\<rparr>"

theorem reingest_inflates_schema_count_witness:
  "\<exists>a'. find_row as_id ''las1a'' (attestor_sets (p_db (snd (insert_resource_rows calm_pg one_slot_node
      sample_schema_tx 1 0 indexed_schema_pool)))) = Some a' \<and> as_schema_count a' = 2"
  using reingest_inflates_schema_count [of calm_pg sample_schema_tx sample_schema indexed_schema_pool
      "new_schema_row sample_schema ''ltx1a'' 1 0 0" 1 0
      "\<lparr>as_id = ''las1a'', as_members = JArray [], as_threshold = 1, as_slot = 1, as_tx = ''ltx1b'',
       as_timestamp = 0, as_schema_count = 1, as_indexed_at = 0\<rparr>" one_slot_node]
  by (simp add: sample_schema_tx_def sample_schema_def indexed_schema_pool_def new_schema_row_def schema_check_def
      unique_key_def i32_max_def)

end
