(* ===== verification/Integrity.thy ===== *)
theory Integrity
  imports Ingest
begin

text \<open>
  The resource tables over a run. The statements on attestor sets, schemas, attestations,
  bounties, contracts and address summaries keep the keys unique and the references resolved; the
  contract of such an invariant, operation by operation, is a locale, and it gives the contract of the
  ingest loop, so that the invariant holds in every state the loop, and the service, can reach.
\<close>

section \<open>What a computation keeps\<close>

named_theorems keeping "computations that keep an invariant of the tables"

definition keeps :: "(db \<Rightarrow> bool) \<Rightarrow> (pool \<Rightarrow> 'r \<times> pool) \<Rightarrow> bool" where
  "keeps I m \<longleftrightarrow> (\<forall>p. I (p_db p) \<longrightarrow> I (p_db (snd (m p))))"

lemma keepsD: "keeps I m \<Longrightarrow> I (p_db p) \<Longrightarrow> I (p_db (snd (m p)))"
  by (simp add: keeps_def)

lemma keeps_exec:
  "(\<And>t d d' a. I d \<Longrightarrow> st t d = Inr (d', a) \<Longrightarrow> I d') \<Longrightarrow> keeps I (exec P st)"
  unfolding keeps_def by (blast intro: exec_db_invariant [where I = I])

lemma keeps_op_ok [keeping]: "keeps I (op_ok a)"
  by (simp add: keeps_def)

lemma keeps_Pair [keeping]: "keeps I (Pair r)"
  by (simp add: keeps_def)

lemma keeps_op_log [keeping]: "keeps I m \<Longrightarrow> keeps I (op_log m)"
  by (simp add: keeps_def)

lemma keeps_db_op [keeping]: "keeps I m \<Longrightarrow> keeps I (db_op m)"
  unfolding keeps_def db_op_def by (auto split: prod.split sum.split)

lemma keeps_op_bind [keeping]: "keeps I m \<Longrightarrow> (\<And>a. keeps I (f a)) \<Longrightarrow> keeps I (op_bind m f)"
  unfolding keeps_def by (blast intro: op_bind_snd_cases [where Q = "\<lambda>p. I (p_db p)"])

lemma keeps_requests [keeping]: "keeps I (bounty_at C i)" "keeps I (contract_at C i)"
  by (simp_all add: keeps_def)

section \<open>Invariants of the resource tables\<close>

text \<open>An attestation that the parser reports carries the id of its schema and payload.\<close>

lemma classified_attestation_id:
  assumes "classify_tx C J tx evs = Some c" and "ctx_kind c = SubmitAttestation a"
  shows "compute_attestation_id C (isa_schema_id a) (isa_payload_hash a) = Inr (isa_id a)"
proof -
  have "classify_events C J evs = SubmitAttestation a"
    using assms by (auto simp: classify_tx_def Let_def split: if_splits)
  then have "find_map (attestation_event C J) evs = Some (SubmitAttestation a)"
    by (auto simp: classify_events_def classify_bounty_events_def classify_contract_events_def bank_event_def
        Let_def split: option.splits if_splits dest!: find_map_SomeD)
  then obtain ev where "attestation_event C J ev = Some (SubmitAttestation a)"
    by (auto dest: find_map_SomeD)
  then show ?thesis by (auto simp: attestation_event_def split: if_splits option.splits sum.splits)
qed

locale resource_invariant = ingest_statements + cursor_statement +
  assumes keep_activity: "keeps I (upsert_address_activity P addr role h tx ts)"
    and keep_owned: "keeps I (bump_address_schemas_owned P addr h tx ts)"
    and keep_attestor_set: "keeps I (insert_attestor_set P set_event tx h ts)"
    and keep_schema: "keeps I (insert_schema P schema_event tx h ts)"
    and keep_attestation: "compute_attestation_id (cx_crypto K) (isa_schema_id a) (isa_payload_hash a) = Inr (isa_id a) \<Longrightarrow>
      keeps I (insert_attestation P a tx h ts)"
    and keep_set_count: "keeps I (bump_attestor_set_schema_count P i)"
    and keep_schema_count: "keeps I (bump_schema_attestation_count P i)"
    and keep_bounty: "keeps I (upsert_bounty P i bounty h tx ts)"
    and keep_claim: "0 \<le> n \<Longrightarrow> keeps I (apply_bounty_claim P i pay n h)"
    and keep_bounty_zero: "keeps I (set_bounty_escrow_zero P i)"
    and keep_contract: "keeps I (upsert_contract P i contract h tx ts)"
    and keep_contract_zero: "keeps I (set_contract_escrow_zero P i)"
    and keep_recorded_drips: "I d \<Longrightarrow> I (d\<lparr>bot_drips := rows\<rparr>)"
begin

lemmas resource_keeping = keep_activity keep_owned keep_attestor_set keep_schema keep_set_count keep_schema_count
  keep_bounty keep_claim keep_bounty_zero keep_contract keep_contract_zero

lemma keep_bump_members: "keeps I (bump_members P ms)"
  by (induction ms) (auto simp: bump_attestor_member_count_def intro!: keeping)

lemma keep_deltas: "keeps I (bounty_delta P i kind h)" "keeps I (contract_delta P j kind')"
  by (auto simp: bounty_delta_def contract_delta_def i32_clamped_range intro!: keeping resource_keeping
      split: bounty_event_kind.split)

lemma keep_rows:
  assumes "classify_tx (cx_crypto K) (json_text P) tx evs = Some c"
  shows "keeps I (insert_resource_rows P C c h ts)"
  using classified_attestation_id [OF assms]
  by (auto simp: insert_resource_rows_def split: indexer_tx.split option.split
      intro!: keeping resource_keeping keep_attestation keep_bump_members keep_deltas)

lemma keep_summary_rows: "keeps I (update_address_summaries P c h ts)"
  by (auto simp: update_address_summaries_def intro!: keeping keep_activity split: indexer_tx.split option.split)

end

sublocale resource_invariant \<subseteq> ingest_kept_cursor
  by unfold_locales (auto intro: keepsD keep_rows keep_summary_rows keep_recorded_drips)

section \<open>The tables\<close>

text \<open>
  Rows refer to the slot and the transaction they come from, schemas to an attestor set, attestations
  and bounties to a schema. What a row needs of its own columns and of the other tables:
\<close>

definition recorded :: "db \<Rightarrow> int \<Rightarrow> string \<Rightarrow> bool" where
  "recorded d slot tx \<longleftrightarrow> int8_ok slot \<and> slot \<in> s_height ` set (slots d) \<and> tx \<in> t_hash ` set (transactions d)"

definition attestor_set_ok :: "db \<Rightarrow> attestor_set_row \<Rightarrow> bool" where
  "attestor_set_ok d r \<longleftrightarrow> attestor_set_check r \<and> int4_ok (as_schema_count r) \<and> recorded d (as_slot r) (as_tx r)"

definition schema_ok :: "db \<Rightarrow> schema_row \<Rightarrow> bool" where
  "schema_ok d r \<longleftrightarrow> schema_check r \<and> int4_ok (sc_attestation_count r) \<and> recorded d (sc_slot r) (sc_tx r) \<and>
     sc_attestor_set_id r \<in> as_id ` set (attestor_sets d)"

definition attestation_ok :: "crypto \<Rightarrow> db \<Rightarrow> attestation_row \<Rightarrow> bool" where
  "attestation_ok C d r \<longleftrightarrow> attestation_check r \<and> int4_ok (at_signature_count r) \<and> recorded d (at_slot r) (at_tx r) \<and>
     at_schema_id r \<in> sc_id ` set (schemas d) \<and>
     compute_attestation_id C (at_schema_id r) (at_payload_hash r) = Inr (at_id r)"

definition bounty_ok :: "db \<Rightarrow> bounty_row \<Rightarrow> bool" where
  "bounty_ok d r \<longleftrightarrow> bo_status r \<in> set bounty_statuses \<and> int8_ok (bo_slot r) \<and>
     0 \<le> bo_claim_count r \<and> int4_ok (bo_claim_count r) \<and> bo_board_schema_id r \<in> sc_id ` set (schemas d)"

definition contract_ok :: "contract_row \<Rightarrow> bool" where
  "contract_ok r \<longleftrightarrow> co_status r \<in> set contract_statuses \<and> int8_ok (co_slot r)"

definition schema_name :: "schema_row \<Rightarrow> string \<times> string \<times> int" where
  "schema_name r = (sc_owner r, sc_name r, sc_version r)"

definition resources_ok :: "crypto \<Rightarrow> db \<Rightarrow> bool" where
  "resources_ok C d \<longleftrightarrow>
     (unique_key as_id (attestor_sets d) \<and> (\<forall>r \<in> set (attestor_sets d). attestor_set_ok d r)) \<and>
     (unique_key sc_id (schemas d) \<and> unique_key schema_name (schemas d) \<and> (\<forall>r \<in> set (schemas d). schema_ok d r)) \<and>
     (unique_key at_id (attestations d) \<and> (\<forall>r \<in> set (attestations d). attestation_ok C d r)) \<and>
     (unique_key bo_id (bounties d) \<and> (\<forall>r \<in> set (bounties d). bounty_ok d r)) \<and>
     (unique_key co_id (contracts d) \<and> (\<forall>r \<in> set (contracts d). contract_ok r)) \<and>
     (unique_key ad_address (address_summaries d) \<and> (\<forall>r \<in> set (address_summaries d). address_check r))"

text \<open>Referenced keys are never removed, so what a row needs stays true when another table changes.\<close>

definition grows :: "db \<Rightarrow> db \<Rightarrow> bool" where
  "grows d d' \<longleftrightarrow>
     s_height ` set (slots d) \<subseteq> s_height ` set (slots d') \<and> t_hash ` set (transactions d) \<subseteq> t_hash ` set (transactions d') \<and>
     as_id ` set (attestor_sets d) \<subseteq> as_id ` set (attestor_sets d') \<and> sc_id ` set (schemas d) \<subseteq> sc_id ` set (schemas d')"

lemma rows_ok_mono:
  assumes "grows d d'"
  shows "attestor_set_ok d r1 \<Longrightarrow> attestor_set_ok d' r1" "schema_ok d r2 \<Longrightarrow> schema_ok d' r2"
    "attestation_ok C d r3 \<Longrightarrow> attestation_ok C d' r3" "bounty_ok d r4 \<Longrightarrow> bounty_ok d' r4"
  using assms
  by (auto simp: grows_def attestor_set_ok_def schema_ok_def attestation_ok_def bounty_ok_def recorded_def)

lemma resources_step:
  assumes "resources_ok C d" and "grows d d'"
    and "attestor_sets d' = attestor_sets d \<or>
      unique_key as_id (attestor_sets d') \<and> (\<forall>r \<in> set (attestor_sets d'). attestor_set_ok d r)"
    and "schemas d' = schemas d \<or> unique_key sc_id (schemas d') \<and> unique_key schema_name (schemas d') \<and>
      (\<forall>r \<in> set (schemas d'). schema_ok d r)"
    and "attestations d' = attestations d \<or>
      unique_key at_id (attestations d') \<and> (\<forall>r \<in> set (attestations d'). attestation_ok C d r)"
    and "bounties d' = bounties d \<or> unique_key bo_id (bounties d') \<and> (\<forall>r \<in> set (bounties d'). bounty_ok d r)"
    and "contracts d' = contracts d \<or> unique_key co_id (contracts d') \<and> (\<forall>r \<in> set (contracts d'). contract_ok r)"
    and "address_summaries d' = address_summaries d \<or>
      unique_key ad_address (address_summaries d') \<and> (\<forall>r \<in> set (address_summaries d'). address_check r)"
  shows "resources_ok C d'"
  using assms(1,3-8) unfolding resources_ok_def
  by (intro conjI) (metis rows_ok_mono [OF assms(2)])+

section \<open>Every operation keeps the tables\<close>

text \<open>Replacing the rows of one table.\<close>

lemma table_steps:
  assumes "resources_ok C d"
  shows "unique_key as_id sets \<Longrightarrow> as_id ` set (attestor_sets d) \<subseteq> as_id ` set sets \<Longrightarrow>
      \<forall>r \<in> set sets. attestor_set_ok d r \<Longrightarrow> resources_ok C (d\<lparr>attestor_sets := sets\<rparr>)"
    and "unique_key sc_id scs \<Longrightarrow> unique_key schema_name scs \<Longrightarrow> sc_id ` set (schemas d) \<subseteq> sc_id ` set scs \<Longrightarrow>
      \<forall>r \<in> set scs. schema_ok d r \<Longrightarrow> resources_ok C (d\<lparr>schemas := scs\<rparr>)"
    and "unique_key at_id ats \<Longrightarrow> \<forall>r \<in> set ats. attestation_ok C d r \<Longrightarrow> resources_ok C (d\<lparr>attestations := ats\<rparr>)"
    and "unique_key bo_id bs \<Longrightarrow> \<forall>r \<in> set bs. bounty_ok d r \<Longrightarrow> resources_ok C (d\<lparr>bounties := bs\<rparr>)"
    and "unique_key co_id cs \<Longrightarrow> \<forall>r \<in> set cs. contract_ok r \<Longrightarrow> resources_ok C (d\<lparr>contracts := cs\<rparr>)"
    and "unique_key ad_address as \<Longrightarrow> \<forall>r \<in> set as. address_check r \<Longrightarrow> resources_ok C (d\<lparr>address_summaries := as\<rparr>)"
  by (rule resources_step [OF assms]; simp add: grows_def)+

lemma resources_okD:
  assumes "resources_ok C d"
  shows "unique_key as_id (attestor_sets d)" "\<forall>r \<in> set (attestor_sets d). attestor_set_ok d r"
    "unique_key sc_id (schemas d)" "unique_key schema_name (schemas d)" "\<forall>r \<in> set (schemas d). schema_ok d r"
    "unique_key at_id (attestations d)" "\<forall>r \<in> set (attestations d). attestation_ok C d r"
    "unique_key bo_id (bounties d)" "\<forall>r \<in> set (bounties d). bounty_ok d r"
    "unique_key co_id (contracts d)" "\<forall>r \<in> set (contracts d). contract_ok r"
    "unique_key ad_address (address_summaries d)" "\<forall>r \<in> set (address_summaries d). address_check r"
  using assms by (simp_all add: resources_ok_def)

lemma column_ranges [simp]: "int4_ok 0" "int8_ok (as_i64 h)" "int4_ok (i32_clamped n)"
  using as_i64_range [of h] i32_clamped_range [of n] by (simp_all add: int4_ok_def int8_ok_def i32_max_def)

lemma keeps_attestor_set: "keeps (resources_ok C) (insert_attestor_set P e tx h ts)"
  unfolding insert_attestor_set_def
proof (rule keeps_exec)
  fix t and d d' :: db and u
  let ?new = "new_attestor_set_row e tx h ts t"
  assume ok: "resources_ok C d" and "insert_attestor_set_stmt (new_attestor_set_row e tx h ts) t d = Inr (d', u)"
  then have st: "attestor_set_check ?new" "as_slot ?new \<in> s_height ` set (slots d)" "as_tx ?new \<in> t_hash ` set (transactions d)"
    "d' = d\<lparr>attestor_sets := upsert as_id ?new (merge_attestor_set_row ?new t) (attestor_sets d)\<rparr>"
    by (simp_all add: insert_attestor_set_stmt_def Let_def find_row_None split: if_splits)
  have id: "as_id (merge_attestor_set_row ?new t r) = as_id r" for r by (simp add: merge_attestor_set_row_def)
  have rec: "recorded d (as_slot ?new) (as_tx ?new)" using st(2,3) by (simp add: recorded_def new_attestor_set_row_def)
  have new: "attestor_set_ok d ?new" using st(1) rec by (simp add: attestor_set_ok_def new_attestor_set_row_def)
  have merged: "attestor_set_ok d (merge_attestor_set_row ?new t r)" if "attestor_set_ok d r" for r
    using that st(1) rec by (simp add: attestor_set_ok_def attestor_set_check_def merge_attestor_set_row_def)
  show "resources_ok C d'"
    unfolding st(4) using resources_okD(1,2) [OF ok]
    by (intro table_steps [OF ok] unique_key_upsert all_upsert new merged) (auto simp: id upsert_set_keys)
qed

lemma keeps_set_count: "keeps (resources_ok C) (bump_attestor_set_schema_count P i)"
  unfolding bump_attestor_set_schema_count_def
proof (rule keeps_exec)
  fix t and d d' :: db and u
  let ?f = "\<lambda>r. r\<lparr>as_schema_count := as_schema_count r + 1, as_indexed_at := t\<rparr>"
  let ?rows = "update_where (\<lambda>r. as_id r = i) ?f (attestor_sets d)"
  assume ok: "resources_ok C d"
    and "(if \<exists>r \<in> set (attestor_sets d). as_id r = i \<and> \<not> int4_ok (as_schema_count r + 1)
       then Inl NumericOutOfRange else Inr (d\<lparr>attestor_sets := ?rows\<rparr>, ())) = Inr (d', u)"
  then have st: "\<And>r. r \<in> set (attestor_sets d) \<Longrightarrow> as_id r = i \<Longrightarrow> int4_ok (as_schema_count r + 1)"
    "d' = d\<lparr>attestor_sets := ?rows\<rparr>" by (auto split: if_splits)
  have "\<forall>r \<in> set ?rows. attestor_set_ok d r"
    using resources_okD(2) [OF ok] st(1) by (intro all_update_where) (auto simp: attestor_set_ok_def attestor_set_check_def)
  then show "resources_ok C d'"
    unfolding st(2) using resources_okD(1) [OF ok]
    by (intro table_steps [OF ok]) (simp_all add: update_where_keys unique_key_update_where)
qed

lemma keeps_schema_count: "keeps (resources_ok C) (bump_schema_attestation_count P i)"
  unfolding bump_schema_attestation_count_def
proof (rule keeps_exec)
  fix t and d d' :: db and u
  let ?f = "\<lambda>r. r\<lparr>sc_attestation_count := sc_attestation_count r + 1, sc_indexed_at := t\<rparr>"
  let ?rows = "update_where (\<lambda>r. sc_id r = i) ?f (schemas d)"
  assume ok: "resources_ok C d"
    and "(if \<exists>r \<in> set (schemas d). sc_id r = i \<and> \<not> int4_ok (sc_attestation_count r + 1)
       then Inl NumericOutOfRange else Inr (d\<lparr>schemas := ?rows\<rparr>, ())) = Inr (d', u)"
  then have st: "\<And>r. r \<in> set (schemas d) \<Longrightarrow> sc_id r = i \<Longrightarrow> int4_ok (sc_attestation_count r + 1)"
    "d' = d\<lparr>schemas := ?rows\<rparr>" by (auto split: if_splits)
  have "\<forall>r \<in> set ?rows. schema_ok d r"
    using resources_okD(5) [OF ok] st(1) by (intro all_update_where) (auto simp: schema_ok_def schema_check_def)
  then show "resources_ok C d'"
    unfolding st(2) using resources_okD(3,4) [OF ok]
    by (intro table_steps [OF ok]) (simp_all add: update_where_keys unique_key_update_where schema_name_def)
qed

lemma keeps_schema: "keeps (resources_ok C) (insert_schema P e tx h ts)"
  unfolding insert_schema_def
proof (rule keeps_exec)
  fix t and d d' :: db and u
  let ?new = "new_schema_row e tx h ts t"
  let ?old = "update_where (\<lambda>r. sc_id r = sc_id ?new) (\<lambda>r. r\<lparr>sc_indexed_at := t\<rparr>) (schemas d)"
  assume ok: "resources_ok C d" and "insert_schema_stmt (new_schema_row e tx h ts) t d = Inr (d', u)"
  then consider (old) "d' = d\<lparr>schemas := ?old\<rparr>"
    | (new) "d' = d\<lparr>schemas := schemas d @ [?new]\<rparr>" "schema_check ?new" "find_row sc_id (sc_id ?new) (schemas d) = None"
        "\<not> schema_name_taken ?new d" "find_row as_id (sc_attestor_set_id ?new) (attestor_sets d) \<noteq> None"
        "find_row s_height (sc_slot ?new) (slots d) \<noteq> None" "find_row t_hash (sc_tx ?new) (transactions d) \<noteq> None"
    by (auto simp: insert_schema_stmt_def Let_def split: if_splits option.splits)
  then show "resources_ok C d'"
  proof cases
    case old
    have "\<forall>r \<in> set ?old. schema_ok d r"
      using resources_okD(5) [OF ok] by (intro all_update_where) (auto simp: schema_ok_def schema_check_def)
    then show ?thesis
      unfolding old using resources_okD(3,4) [OF ok]
      by (intro table_steps [OF ok]) (simp_all add: update_where_keys unique_key_update_where schema_name_def)
  next
    case new
    have "schema_ok d ?new"
      using new(2,5-) unfolding find_row_None by (simp add: schema_ok_def recorded_def new_schema_row_def)
    moreover have "schema_name ?new \<notin> schema_name ` set (schemas d)"
      using new(4) by (auto simp: schema_name_taken_def schema_name_def)
    ultimately show ?thesis
      unfolding new(1) using resources_okD(3-5) [OF ok] new(3)
      by (intro table_steps [OF ok]) (simp_all add: find_row_None unique_key_append1 subset_insertI)
  qed
qed

lemma keeps_attestation:
  assumes "compute_attestation_id C (isa_schema_id a) (isa_payload_hash a) = Inr (isa_id a)"
  shows "keeps (resources_ok C) (insert_attestation P a tx h ts)"
  unfolding insert_attestation_def
proof (rule keeps_exec)
  fix t and d d' :: db and u
  let ?new = "new_attestation_row a tx h ts t"
  let ?old = "update_where (\<lambda>r. at_id r = at_id ?new)
    (\<lambda>r. r\<lparr>at_signature_count := at_signature_count ?new, at_indexed_at := t\<rparr>) (attestations d)"
  assume ok: "resources_ok C d" and "insert_attestation_stmt (new_attestation_row a tx h ts) t d = Inr (d', u)"
  then consider (old) "d' = d\<lparr>attestations := ?old\<rparr>" "attestation_check ?new"
    | (new) "d' = d\<lparr>attestations := attestations d @ [?new]\<rparr>" "attestation_check ?new"
        "find_row at_id (at_id ?new) (attestations d) = None" "find_row sc_id (at_schema_id ?new) (schemas d) \<noteq> None"
        "find_row s_height (at_slot ?new) (slots d) \<noteq> None" "find_row t_hash (at_tx ?new) (transactions d) \<noteq> None"
    by (auto simp: insert_attestation_stmt_def Let_def split: if_splits option.splits)
  then show "resources_ok C d'"
  proof cases
    case old
    have "int4_ok (at_signature_count ?new)" by (simp add: new_attestation_row_def)
    then have "\<forall>r \<in> set ?old. attestation_ok C d r"
      using resources_okD(7) [OF ok] old(2) by (intro all_update_where) (auto simp: attestation_ok_def attestation_check_def)
    then show ?thesis
      unfolding old(1) using resources_okD(6) [OF ok]
      by (intro table_steps [OF ok]) (simp_all add: unique_key_update_where)
  next
    case new
    have "attestation_ok C d ?new"
      using new(2,4-) assms unfolding find_row_None
      by (simp add: attestation_ok_def recorded_def new_attestation_row_def)
    then show ?thesis
      unfolding new(1) using resources_okD(6,7) [OF ok] new(3)
      by (intro table_steps [OF ok]) (simp_all add: find_row_None unique_key_append1)
  qed
qed

lemma keeps_bounty: "keeps (resources_ok C) (upsert_bounty P i rec h tx ts)"
  unfolding upsert_bounty_def
proof (rule keeps_exec)
  fix t and d d' :: db and u
  let ?new = "new_bounty_row i rec h tx ts"
  assume ok: "resources_ok C d" and "upsert_bounty_stmt ?new t d = Inr (d', u)"
  then have st: "bo_status ?new \<in> set bounty_statuses" "bo_board_schema_id ?new \<in> sc_id ` set (schemas d)"
    "d' = d\<lparr>bounties := upsert bo_id ?new (merge_bounty_row ?new) (bounties d)\<rparr>"
    by (simp_all add: upsert_bounty_stmt_def find_row_None split: if_splits)
  have new: "bounty_ok d ?new" using st(1,2) by (simp add: bounty_ok_def new_bounty_row_def)
  have merged: "bounty_ok d (merge_bounty_row ?new r)" if "bounty_ok d r" for r
    using that st(1,2) by (simp add: bounty_ok_def merge_bounty_row_def)
  show "resources_ok C d'"
    unfolding st(3) using resources_okD(8,9) [OF ok]
    by (intro table_steps [OF ok] unique_key_upsert all_upsert new merged) auto
qed

lemma keeps_claim:
  assumes "0 \<le> n"
  shows "keeps (resources_ok C) (apply_bounty_claim P i pay n h)"
  unfolding apply_bounty_claim_def
proof (rule keeps_exec)
  fix t and d d' :: db and u
  assume ok: "resources_ok C d" and st: "(case find_row bo_id i (bounties d) of None \<Rightarrow> Inr (d, ())
      | Some r \<Rightarrow> bind_result (claim_row P pay n h r) (\<lambda>r'.
           Inr (d\<lparr>bounties := update_where (\<lambda>x. bo_id x = i) (\<lambda>_. r') (bounties d)\<rparr>, ()))) = Inr (d', u)"
  show "resources_ok C d'"
  proof (cases "find_row bo_id i (bounties d)")
    case None
    with ok st show ?thesis by simp
  next
    case (Some r)
    with st obtain r' where r': "claim_row P pay n h r = Inr r'"
      "d' = d\<lparr>bounties := update_where (\<lambda>x. bo_id x = i) (\<lambda>_. r') (bounties d)\<rparr>"
      by (auto simp: bind_result_Inr_iff)
    have r: "bo_id r = i" "bounty_ok d r" using find_row_SomeD [OF Some] resources_okD(9) [OF ok] by auto
    then have "bo_id r' = i" "bounty_ok d r'"
      using r'(1) assms by (auto simp: claim_row_def bounty_ok_def split: option.splits if_splits)
    moreover from this have "map bo_id (update_where (\<lambda>x. bo_id x = i) (\<lambda>_. r') (bounties d)) = map bo_id (bounties d)"
      by (simp add: update_where_def)
    ultimately show ?thesis
      unfolding r'(2) using resources_okD(8,9) [OF ok]
      by (intro table_steps [OF ok] all_update_where) (simp_all add: unique_key_def)
  qed
qed

lemma keeps_escrow_zero:
  "keeps (resources_ok C) (set_bounty_escrow_zero P i)" "keeps (resources_ok C) (set_contract_escrow_zero P j)"
  unfolding set_bounty_escrow_zero_def set_contract_escrow_zero_def
  by ((rule keeps_exec, clarsimp, rule table_steps, assumption);
      (simp add: unique_key_update_where resources_okD |
       (rule all_update_where, erule resources_okD, simp add: bounty_ok_def contract_ok_def)))+

lemma keeps_contract: "keeps (resources_ok C) (upsert_contract P i rec h tx ts)"
  unfolding upsert_contract_def
proof (rule keeps_exec)
  fix t and d d' :: db and u
  let ?new = "new_contract_row P i rec h tx ts"
  assume ok: "resources_ok C d" and "upsert_contract_stmt ?new t d = Inr (d', u)"
  then have st: "co_status ?new \<in> set contract_statuses"
    "d' = d\<lparr>contracts := upsert co_id ?new (merge_contract_row ?new) (contracts d)\<rparr>"
    by (simp_all add: upsert_contract_stmt_def split: if_splits)
  have new: "contract_ok ?new" using st(1) by (simp add: contract_ok_def new_contract_row_def)
  have merged: "contract_ok (merge_contract_row ?new r)" if "contract_ok r" for r
    using that st(1) by (simp add: contract_ok_def merge_contract_row_def)
  show "resources_ok C d'"
    unfolding st(2) using resources_okD(10,11) [OF ok]
    by (intro table_steps [OF ok] unique_key_upsert all_upsert new merged) auto
qed

text \<open>The statement on summaries checks the row it leaves.\<close>

lemma keeps_address:
  assumes "\<And>t r. ad_address (merge t r) = ad_address r"
  shows "keeps (resources_ok C) (exec P (upsert_address_stmt row merge))"
proof (rule keeps_exec)
  fix t and d d' :: db and u
  let ?rows = "upsert ad_address (row t) (merge t) (address_summaries d)"
  let ?written = "case find_row ad_address (ad_address (row t)) (address_summaries d) of None \<Rightarrow> row t | Some old \<Rightarrow> merge t old"
  assume ok: "resources_ok C d" and st: "upsert_address_stmt row merge t d = Inr (d', u)"
  then have d': "d' = d\<lparr>address_summaries := ?rows\<rparr>" and ck: "address_check ?written"
    by (auto simp: upsert_address_stmt_def address_row_ok_def bind_result_Inr_iff Let_def split: if_splits)
  have u: "unique_key ad_address ?rows" by (rule unique_key_upsert [OF assms resources_okD(12) [OF ok]])
  have "address_check r" if "r \<in> set ?rows" for r
    using that u find_row_Some_iff [OF u, of "ad_address r" r] find_row_upsert [of ad_address "merge t" "ad_address r" "row t"]
      assms ck resources_okD(13) [OF ok] find_row_SomeD [of ad_address "ad_address r" "address_summaries d" r]
    by (auto split: if_splits)
  then show "resources_ok C d'" unfolding d' using u by (intro table_steps [OF ok]) auto
qed

lemma keeps_activity: "keeps (resources_ok C) (upsert_address_activity P a role h tx ts)"
  unfolding upsert_address_activity_def by (auto intro!: keeps_address split: prod.split)

lemma keeps_owned: "keeps (resources_ok C) (bump_address_schemas_owned P a h tx ts)"
  unfolding bump_address_schemas_owned_def by (rule keeps_address) simp

text \<open>The statements on slots, transactions and state entries only add keys.\<close>

lemma resources_others:
  assumes "resources_ok C d" and "s_height ` set (slots d) \<subseteq> s_height ` set (slots d')"
    and "t_hash ` set (transactions d) \<subseteq> t_hash ` set (transactions d')"
    and "attestor_sets d' = attestor_sets d" and "schemas d' = schemas d" and "attestations d' = attestations d"
    and "bounties d' = bounties d" and "contracts d' = contracts d" and "address_summaries d' = address_summaries d"
  shows "resources_ok C d'"
  by (rule resources_step [OF assms(1)]) (use assms in \<open>simp_all add: grows_def\<close>)

interpretation resources: resource_invariant P K "resources_ok (cx_crypto K)" for P K
proof
  fix d d' :: db and u :: unit and n :: nat
  let ?ok = "resources_ok (cx_crypto K)"
  assume ok: "?ok d"
  show "?ok d'" if "upsert_slot_stmt P slot prev proposer da t d = Inr (d', u)" for slot prev proposer da t
    using that upsert_set_keys [of s_height "merge_slot_row (new_slot_row P slot prev proposer da t) t"
        "new_slot_row P slot prev proposer da t" "slots d"]
    by (intro resources_others [OF ok]) (auto simp: upsert_slot_stmt_def Let_def)
  show "?ok d'" if "flip_stmt h t d = Inr (d', n)" for h t
    using that by (intro resources_others [OF ok]) (auto simp: flip_stmt_def update_where_keys Let_def)
  show "?ok d'" if "insert_tx_stmt (new_tx_row c s i ks dec out) t d = Inr (d', u)" for c s i ks dec out t
    using that by (intro resources_others [OF ok]) (auto simp: insert_tx_stmt_Inr upsert_set_keys)
  show "?ok d'" if "upsert_state_stmt key val t d = Inr (d', u)" for key val t
    using that by (intro resources_others [OF ok]) (auto simp: upsert_state_stmt_def)
  show "?ok d'" if "upsert_state_stmt key val t d = Inr (d', u)" for key val t
    using that by (intro resources_others [OF ok]) (auto simp: upsert_state_stmt_def)
  show "?ok (d\<lparr>bot_drips := rows\<rparr>)" for rows
    by (rule resources_others [OF ok]) simp_all
qed (auto intro: keeps_activity keeps_owned keeps_attestor_set keeps_schema keeps_attestation keeps_set_count
    keeps_schema_count keeps_bounty keeps_claim keeps_escrow_zero keeps_contract)

end
