(* ===== verification/Demo_Run.thy ===== *)
theory Demo_Run
  imports Integrity
begin

text \<open>
  A concrete run of the ingest loop, for the witnesses of the properties over the service: a node with one
  slot of three transactions, which register an attestor set, register a schema with it and submit an
  attestation against the schema. The loop boots, walks to the slot and indexes all three.
\<close>

section \<open>The node\<close>

definition run_event :: "string \<Rightarrow> string \<Rightarrow> json \<Rightarrow> json" where
  "run_event key tx details = JObject [(''type'', JString ''event''), (''number'', JInt 0), (''key'', JString key),
     (''value'', details), (''module'', JObject [(''name'', JString ''attestation'')]), (''tx_hash'', JString tx)]"

definition run_tx :: "string \<Rightarrow> int \<Rightarrow> json" where
  "run_tx h n = JObject [(''type'', JString ''tx''), (''hash'', JString h), (''number'', JInt n),
     (''event_range'', JObject [(''start'', JInt 0), (''end'', JInt 1)]), (''body'', JObject [(''data'', JString [])]),
     (''receipt'', JObject [(''result'', JString ''successful''), (''data'', JNull)]), (''batch_number'', JInt 0)]"

definition run_schema_id :: string where
  "run_schema_id = ''lsc'' @ replicate 32 (CHR ''a'')"

definition run_payload :: string where
  "run_payload = ''lph'' @ replicate 32 (CHR ''b'')"

definition run_set_details :: json where
  "run_set_details = JObject [(''AttestorSetRegistered'', JObject [(''attestor_set_id'', JString ''las1a''),
     (''members'', JArray [JString ''lpk1a'']), (''threshold'', JInt 1), (''registered_by'', JString ''lig1a'')])]"

definition run_schema_details :: json where
  "run_schema_details = JObject [(''SchemaRegistered'', JObject [(''schema_id'', JString run_schema_id),
     (''name'', JString ''n''), (''version'', JInt 1), (''owner'', JString ''lig1a''),
     (''attestor_set_id'', JString ''las1a''), (''fee_routing_bps'', JInt 0), (''payload_shape_hash'', JString ''00'')])]"

definition run_attestation_details :: json where
  "run_attestation_details = JObject [(''AttestationSubmitted'', JObject [(''schema_id'', JString run_schema_id),
     (''payload_hash'', JString run_payload), (''submitter'', JString ''lig1b''), (''signature_count'', JInt 1)])]"

definition run_slot :: json where
  "run_slot = JObject [(''number'', JInt 1), (''hash'', JString ''a''), (''chain_id'', JString ''c''),
     (''chain_hash'', JString ''h''), (''version'', JString ''v''),
     (''batch_range'', JObject [(''start'', JInt 0), (''end'', JInt 1)])]"

definition run_batch :: json where
  "run_batch = JObject [(''type'', JString ''batch''), (''number'', JInt 0), (''hash'', JString ''b''),
     (''slot_number'', JInt 1), (''tx_range'', JObject [(''start'', JInt 0), (''end'', JInt 3)])]"

definition run_pages :: "(string \<times> json) list" where
  "run_pages = [(''v1/rollup/info'', run_slot), (''v1/ledger/slots/latest'', run_slot), (''v1/ledger/slots/1'', run_slot),
     (''v1/ledger/slots/1/events'', JArray
       [run_event KEY_ATTESTATION_ATTESTOR_SET_REGISTERED ''ltx1a'' run_set_details,
        run_event KEY_ATTESTATION_SCHEMA_REGISTERED ''ltx1b'' run_schema_details,
        run_event KEY_ATTESTATION_ATTESTATION_SUBMITTED ''ltx1c'' run_attestation_details]),
     (''v1/ledger/batches/0'', run_batch), (''v1/ledger/txs/0'', run_tx ''ltx1a'' 0),
     (''v1/ledger/txs/1'', run_tx ''ltx1b'' 1), (''v1/ledger/txs/2'', run_tx ''ltx1c'' 2)]"

definition run_node :: node_client where
  "run_node = \<lparr>nc_base = [], nc_join = (\<lambda>_ path. path),
     nc_get = (\<lambda>_ url _. case map_of run_pages url of Some body \<Rightarrow> Reply 200 (Inr body) | None \<Rightarrow> Reply 404 (Inr JNull))\<rparr>"

text \<open>A codec whose encoder writes lower-case text with prefix and separator, a letter for every bit.\<close>

definition bits_text :: "u8 list \<Rightarrow> string" where
  "bits_text d = concat (map (\<lambda>b. map (\<lambda>i. if bit b i then CHR ''q'' else CHR ''p'') [0..<8]) d)"

definition text_crypto :: crypto where
  "text_crypto = toy_crypto\<lparr>bech32m_encode := (\<lambda>h d. Inr (h @ ''1'' @ bits_text d))\<rparr>"

definition run_codec :: codec where
  "run_codec = \<lparr>cx_crypto = text_crypto, cx_base64 = (\<lambda>_. None)\<rparr>"

section \<open>What the client decodes\<close>

definition the_slot :: slot_response where
  "the_slot = the (de_slot_response run_slot)"

definition the_event :: "string \<Rightarrow> string \<Rightarrow> json \<Rightarrow> ledger_event" where
  "the_event key tx details = \<lparr>ev_type = ''event'', ev_number = 0, ev_key = key, ev_value = details,
     ev_module = \<lparr>mr_type = [], mr_name = ''attestation''\<rparr>, ev_tx_hash = tx\<rparr>"

definition the_tx :: "string \<Rightarrow> nat \<Rightarrow> ledger_tx" where
  "the_tx h n = \<lparr>lt_type = ''tx'', lt_hash = h, lt_number = of_nat n, lt_event_range = \<lparr>rg_start = 0, rg_end = 1\<rparr>,
     lt_body = \<lparr>fb_data = [], fb_sequencing_data = None\<rparr>, lt_receipt = \<lparr>rp_result = ''successful'', rp_data = JNull\<rparr>,
     lt_events = [], lt_batch_number = 0\<rparr>"

lemma run_slot_decoded:
  "de_rollup_info run_slot = Some \<lparr>ri_chain_id = ''c'', ri_chain_hash = ''h'', ri_version = ''v''\<rparr>"
  "de_slot_response run_slot = Some the_slot"
  "sl_number the_slot = 1" "sl_batch_range the_slot = Some \<lparr>rg_start = 0, rg_end = 1\<rparr>"
  by (simp_all add: the_slot_def run_slot_def de_rollup_info_def de_slot_response_def de_uint64_range_def flat_fields_def
      as_object_def de_u64_def de_option_def)

lemma run_batch_decoded:
  "\<exists>b. de_ledger_batch run_batch = Some b \<and> lb_tx_range b = \<lparr>rg_start = 0, rg_end = 3\<rparr>"
  by (simp add: run_batch_def de_ledger_batch_def de_uint64_range_def flat_fields_def as_object_def de_u64_def)

lemma run_tx_decoded: "n < 3 \<Longrightarrow> de_ledger_tx (run_tx h (int n)) = Some (the_tx h n)"
  by (simp add: run_tx_def the_tx_def de_ledger_tx_def de_uint64_range_def de_fully_baked_tx_def de_tx_receipt_def de_u64_def)

lemma run_event_decoded: "de_ledger_event (run_event key tx details) = Some (the_event key tx details)"
  by (simp add: run_event_def the_event_def de_ledger_event_def de_module_ref_def de_u64_def)

abbreviation run_attestation_id :: string where
  "run_attestation_id \<equiv> ''lat1'' @ bits_text (replicate 32 (of_nat (of_char (CHR ''a''))))"

text \<open>The requests of the loop, and the classification of the three transactions.\<close>

lemma small_digits: "digit_char 0 = CHR ''0''" "digit_char (Suc 0) = CHR ''1''" "digit_char 2 = CHR ''2''"
  by code_simp+

lemma small_numbers: "show_u64 0 = ''0''" "show_u64 1 = ''1''" "show_u64 2 = ''2''"
  by (simp_all add: show_u64_def show_nat.simps small_digits)

lemma run_requests:
  "rollup_info run_node p = (Inr \<lparr>ri_chain_id = ''c'', ri_chain_hash = ''h'', ri_version = ''v''\<rparr>, p\<lparr>p_seq := Suc (p_seq p)\<rparr>)"
  "latest_slot run_node p = (Inr the_slot, p\<lparr>p_seq := Suc (p_seq p)\<rparr>)"
  "slot_at run_node 1 p = (Inr (Some the_slot), p\<lparr>p_seq := Suc (p_seq p)\<rparr>)"
  "events_for_slot run_node 1 p = (Inr
     [the_event KEY_ATTESTATION_ATTESTOR_SET_REGISTERED ''ltx1a'' run_set_details,
      the_event KEY_ATTESTATION_SCHEMA_REGISTERED ''ltx1b'' run_schema_details,
      the_event KEY_ATTESTATION_ATTESTATION_SUBMITTED ''ltx1c'' run_attestation_details], p\<lparr>p_seq := Suc (p_seq p)\<rparr>)"
  "tx_at_number run_node 0 p = (Inr (Some (the_tx ''ltx1a'' 0)), p\<lparr>p_seq := Suc (p_seq p)\<rparr>)"
  "tx_at_number run_node 1 p = (Inr (Some (the_tx ''ltx1b'' 1)), p\<lparr>p_seq := Suc (p_seq p)\<rparr>)"
  "tx_at_number run_node 2 p = (Inr (Some (the_tx ''ltx1c'' 2)), p\<lparr>p_seq := Suc (p_seq p)\<rparr>)"
  using run_tx_decoded [of 0] run_tx_decoded [of 1] run_tx_decoded [of 2]
  by (simp_all add: rollup_info_def latest_slot_def slot_at_def events_for_slot_def tx_at_number_def fetch_as_def
      fetch_unless_404_def send_def node_url_def run_node_def run_pages_def from_slice_def run_slot_decoded
      run_event_decoded small_numbers Let_def)

lemma run_batch_at:
  "\<exists>b. batch_at run_node 0 p = (Inr (Some b), p\<lparr>p_seq := Suc (p_seq p)\<rparr>) \<and> lb_tx_range b = \<lparr>rg_start = 0, rg_end = 3\<rparr>"
  using run_batch_decoded
  by (auto simp: batch_at_def fetch_unless_404_def send_def node_url_def run_node_def run_pages_def from_slice_def
      small_numbers Let_def)

definition run_set :: indexer_register_attestor_set where
  "run_set = \<lparr>ira_attestor_set_id = ''las1a'', ira_members = [''lpk1a''], ira_threshold = 1, ira_registered_by = ''lig1a''\<rparr>"

definition run_schema :: indexer_register_schema where
  "run_schema = \<lparr>irs_schema_id = run_schema_id, irs_name = ''n'', irs_version = 1, irs_owner = ''lig1a'',
     irs_attestor_set_id = ''las1a'', irs_fee_routing_bps = 0, irs_fee_routing_addr = None, irs_payload_shape_hash = ''00''\<rparr>"

definition run_attestation :: indexer_submit_attestation where
  "run_attestation = \<lparr>isa_id = run_attestation_id, isa_schema_id = run_schema_id, isa_payload_hash = run_payload,
     isa_submitter = ''lig1b'', isa_signature_count = 1\<rparr>"

lemma run_id: "compute_attestation_id text_crypto run_schema_id run_payload = Inr run_attestation_id"
  by (simp add: compute_attestation_id_def decode_hash32_def text_crypto_def toy_crypto_def run_schema_id_def run_payload_def
      HRP_SCHEMA_def HRP_PAYLOAD_def HRP_ATTESTATION_def bits_text_def map_replicate)

definition run_classified :: "string \<Rightarrow> nat \<Rightarrow> indexer_tx \<Rightarrow> classified_tx" where
  "run_classified h n kind = \<lparr>ctx_hash = h, ctx_batch_number = 0, ctx_global_tx_number = of_nat n, ctx_outcome = Committed,
     ctx_kind = kind\<rparr>"

lemma run_classification:
  "classify_tx text_crypto J (the_tx h n) [the_event KEY_ATTESTATION_ATTESTOR_SET_REGISTERED h run_set_details] =
     Some (run_classified h n (RegisterAttestorSet run_set))"
  "classify_tx text_crypto J (the_tx h n) [the_event KEY_ATTESTATION_SCHEMA_REGISTERED h run_schema_details] =
     Some (run_classified h n (RegisterSchema run_schema))"
  "classify_tx text_crypto J (the_tx h n) [the_event KEY_ATTESTATION_ATTESTATION_SUBMITTED h run_attestation_details] =
     Some (run_classified h n (SubmitAttestation run_attestation))"
  by (simp_all add: classify_tx_def classify_events_def attestation_event_def the_tx_def the_event_def run_set_details_def
      run_schema_details_def run_attestation_details_def outcome_of_def run_classified_def run_set_def run_schema_def
      run_attestation_def de_attestor_set_registered_event_def de_attestor_set_registered_details_def
      de_schema_registered_event_def de_schema_registered_details_def de_attestation_submitted_event_def
      de_attestation_submitted_details_def de_variant_def shape_hash_text_def run_id attestation_keys Let_def)

section \<open>The tables along the run\<close>

text \<open>The keys of the tables: heights, positions of transactions, ids of sets, schemas and attestations.\<close>

definition keys_of :: "db \<Rightarrow> int list \<times> (string \<times> int) list \<times> string list \<times> string list \<times> (string \<times> string) list" where
  "keys_of d = (map s_height (slots d), map (\<lambda>r. (t_hash r, t_position r)) (transactions d), map as_id (attestor_sets d),
     map sc_id (schemas d), map (\<lambda>r. (at_id r, at_schema_id r)) (attestations d))"

lemma keys_of_counts:
  "keeps (\<lambda>d. keys_of d = v) (upsert_address_activity P a role h tx ts)"
  "keeps (\<lambda>d. keys_of d = v) (bump_address_schemas_owned P a h tx ts)"
  "keeps (\<lambda>d. keys_of d = v) (bump_attestor_set_schema_count P i)"
  "keeps (\<lambda>d. keys_of d = v) (bump_schema_attestation_count P i)"
  unfolding upsert_address_activity_def bump_address_schemas_owned_def bump_attestor_set_schema_count_def
    bump_schema_attestation_count_def
  by (auto simp: upsert_address_stmt_def keys_of_def bind_result_def map_update_where Let_def
      intro!: keeps_exec split: prod.split sum.splits if_splits)

lemma keys_of_summaries: "keeps (\<lambda>d. keys_of d = v) (update_address_summaries P c h ts)"
  by (auto simp: update_address_summaries_def intro!: keeping keys_of_counts split: indexer_tx.split option.split)

lemma find_absent: "k \<notin> set (map key rows) \<Longrightarrow> find_row key k rows = None"
  by (simp add: find_row_None)

lemma find_present: "k \<in> set (map key rows) \<Longrightarrow> find_row key k rows \<noteq> None"
  by (simp add: find_row_None)

text \<open>The inserts succeed and add their key.\<close>

lemma run_insert_tx:
  assumes "keys_of (p_db p) = ([1], txs, rest)" and "\<forall>t \<in> set txs. fst t \<noteq> hash \<and> snd t \<noteq> sint pos"
  shows "fst (insert_transaction calm_pg (run_classified hash n kind) 1 pos ks dec p) = Inr () \<and>
    keys_of (p_db (snd (insert_transaction calm_pg (run_classified hash n kind) 1 pos ks dec p))) =
      ([1], txs @ [(hash, sint pos)], rest)"
proof -
  let ?new = "new_tx_row (run_classified hash n kind) 1 pos ks dec ''committed'' (int (p_seq p))"
  have one: "as_i64 1 = 1" by (simp add: as_i64_def)
  have none: "find_row t_hash hash (transactions (p_db p)) = None"
    using assms by (intro find_absent) (force simp: keys_of_def)
  moreover have "find_row s_height 1 (slots (p_db p)) \<noteq> None"
    using assms by (intro find_present) (simp add: keys_of_def)
  moreover have "\<not> position_taken ?new (p_db p)"
    using assms by (fastforce simp: position_taken_def keys_of_def)
  moreover have "tx_written ?new (int (p_seq p)) (p_db p) = ?new"
    using none by (simp add: tx_written_def run_classified_def)
  ultimately show ?thesis
    using assms by (auto simp: insert_transaction_def run_classified_def exec_def insert_tx_stmt_def new_tx_check one
        upsert_def keys_of_def Let_def)
qed

lemma run_insert_set:
  assumes "keys_of (p_db p) = ([1], txs, [], scs, ats)" and "hash \<in> fst ` set txs"
  shows "fst (insert_attestor_set calm_pg run_set hash 1 ts p) = Inr () \<and>
    keys_of (p_db (snd (insert_attestor_set calm_pg run_set hash 1 ts p))) = ([1], txs, [''las1a''], scs, ats)"
proof -
  have one: "as_i64 1 = 1" by (simp add: as_i64_def)
  have "find_row s_height 1 (slots (p_db p)) \<noteq> None"
    using assms by (intro find_present) (simp add: keys_of_def)
  moreover have "find_row t_hash hash (transactions (p_db p)) \<noteq> None"
    using assms by (intro find_present) (force simp: keys_of_def)
  ultimately show ?thesis
    using assms by (auto simp: insert_attestor_set_def exec_def insert_attestor_set_stmt_def new_attestor_set_row_def run_set_def
        attestor_set_check_def one upsert_def keys_of_def Let_def)
qed

lemma run_insert_schema:
  assumes "keys_of (p_db p) = ([1], txs, [''las1a''], [], ats)" and "hash \<in> fst ` set txs"
  shows "fst (insert_schema calm_pg run_schema hash 1 ts p) = Inr () \<and>
    keys_of (p_db (snd (insert_schema calm_pg run_schema hash 1 ts p))) = ([1], txs, [''las1a''], [run_schema_id], ats)"
proof -
  have one: "as_i64 1 = 1" by (simp add: as_i64_def)
  have "find_row s_height 1 (slots (p_db p)) \<noteq> None" "find_row as_id ''las1a'' (attestor_sets (p_db p)) \<noteq> None"
    using assms by (intro find_present, simp add: keys_of_def)+
  moreover have "find_row t_hash hash (transactions (p_db p)) \<noteq> None"
    using assms by (intro find_present) (force simp: keys_of_def)
  ultimately show ?thesis
    using assms by (auto simp: insert_schema_def exec_def insert_schema_stmt_def new_schema_row_def run_schema_def
        schema_check_def schema_name_taken_def one keys_of_def Let_def)
qed

lemma run_insert_attestation:
  assumes "keys_of (p_db p) = ([1], txs, sets, [run_schema_id], [])" and "hash \<in> fst ` set txs"
  shows "fst (insert_attestation calm_pg run_attestation hash 1 ts p) = Inr () \<and>
    keys_of (p_db (snd (insert_attestation calm_pg run_attestation hash 1 ts p))) =
      ([1], txs, sets, [run_schema_id], [(run_attestation_id, run_schema_id)])"
proof -
  have one: "as_i64 1 = 1" by (simp add: as_i64_def)
  have "find_row s_height 1 (slots (p_db p)) \<noteq> None" "find_row sc_id run_schema_id (schemas (p_db p)) \<noteq> None"
    using assms by (intro find_present, simp add: keys_of_def)+
  moreover have "find_row t_hash hash (transactions (p_db p)) \<noteq> None"
    using assms by (intro find_present) (force simp: keys_of_def)
  ultimately show ?thesis
    using assms by (auto simp: insert_attestation_def exec_def insert_attestation_stmt_def new_attestation_row_def
        run_attestation_def attestation_check_def attestation_key_taken_def i32_clamped_def i32_max_def one keys_of_def Let_def)
qed

text \<open>The resource rows of the three transactions.\<close>

lemma keeps_keys: "keeps (\<lambda>d. keys_of d = v) m \<Longrightarrow> keys_of (p_db p) = v \<Longrightarrow> keys_of (p_db (snd (m p))) = v"
  by (rule keepsD)

lemma db_op_ok: "fst (m p) = Inr a \<Longrightarrow> db_op m p = (Inr a, snd (m p))"
  by (cases "m p") (simp add: db_op_def)

lemma run_rows:
  "keys_of (p_db p) = ([1], txs, [], scs, ats) \<Longrightarrow> hash \<in> fst ` set txs \<Longrightarrow>
    keys_of (p_db (snd (insert_resource_rows calm_pg C (run_classified hash n (RegisterAttestorSet run_set)) 1 ts p))) =
      ([1], txs, [''las1a''], scs, ats)"
  "keys_of (p_db p) = ([1], txs, [''las1a''], [], ats) \<Longrightarrow> hash \<in> fst ` set txs \<Longrightarrow>
    keys_of (p_db (snd (insert_resource_rows calm_pg C (run_classified hash n (RegisterSchema run_schema)) 1 ts p))) =
      ([1], txs, [''las1a''], [run_schema_id], ats)"
  "keys_of (p_db p) = ([1], txs, sets, [run_schema_id], []) \<Longrightarrow> hash \<in> fst ` set txs \<Longrightarrow>
    keys_of (p_db (snd (insert_resource_rows calm_pg C (run_classified hash n (SubmitAttestation run_attestation)) 1 ts p))) =
      ([1], txs, sets, [run_schema_id], [(run_attestation_id, run_schema_id)])"
  using run_insert_set [of p txs scs ats hash ts] run_insert_schema [of p txs ats hash ts]
    run_insert_attestation [of p txs sets hash ts]
  by (simp_all add: insert_resource_rows_def run_classified_def op_bind_def db_op_ok bump_attestor_member_count_def
      run_set_def keeps_keys [OF keys_of_counts(2)] keeps_keys [OF keys_of_counts(3)] keeps_keys [OF keys_of_counts(4)])

text \<open>One transaction: its row is inserted, then its resource rows from a pool with the same keys.\<close>

lemma run_ingest_tx:
  assumes "keys_of (p_db p) = ([1], txs, rest)" and "\<forall>t \<in> set txs. fst t \<noteq> hash \<and> snd t \<noteq> sint pos"
    and "classify_tx text_crypto (json_text calm_pg) (the_tx hash n) (filter (\<lambda>e. ev_tx_hash e = hash) evs) =
      Some (run_classified hash n kind)"
  shows "\<exists>p1 ts. keys_of (p_db p1) = ([1], txs @ [(hash, sint pos)], rest) \<and>
    ingest_tx calm_pg run_node run_codec 4242 the_slot evs (the_tx hash n) pos p =
      (Inr (pos + 1), snd (insert_resource_rows calm_pg run_node (run_classified hash n kind) 1 ts p1))"
proof -
  let ?c = "run_classified hash n kind" and ?ts = "slot_timestamp calm_pg the_slot"
  let ?dec = "decode_tx_body (cx_base64 run_codec) (codec_bech32m run_codec) (fb_data (lt_body (the_tx hash n))) 4242"
  let ?ks = "map ev_key (filter (\<lambda>e. ev_tx_hash e = hash) evs)"
  let ?p0 = "snd (insert_transaction calm_pg ?c 1 pos ?ks ?dec p)"
  let ?p1 = "snd (update_address_summaries calm_pg ?c 1 ?ts ?p0)"
  note ins = run_insert_tx [OF assms(1,2), of n kind ?ks ?dec]
  from ins have "keys_of (p_db ?p1) = ([1], txs @ [(hash, sint pos)], rest)"
    by (intro keeps_keys [OF keys_of_summaries]) simp
  moreover have hash: "lt_hash (the_tx hash n) = hash" by (simp add: the_tx_def)
  have "ingest_tx calm_pg run_node run_codec 4242 the_slot evs (the_tx hash n) pos p =
      (Inr (pos + 1), snd (insert_resource_rows calm_pg run_node ?c 1 ?ts ?p1))"
    using ins assms(3)
    by (simp add: ingest_tx_def hash run_codec_def run_slot_decoded(3) op_bind_def case_prod_unfold Let_def)
  ultimately show ?thesis by blast
qed

text \<open>The whole slot.\<close>

lemma run_slot_indexed:
  assumes "keys_of (p_db p) = ([1], [], [], [], [])"
  shows "keys_of (p_db (snd (ingest_slot_transactions calm_pg run_node run_codec 4242 the_slot p))) =
    ([1], [(''ltx1a'', 0), (''ltx1b'', 1), (''ltx1c'', 2)], [''las1a''], [run_schema_id], [(run_attestation_id, run_schema_id)])"
proof -
  let ?evs = "[the_event KEY_ATTESTATION_ATTESTOR_SET_REGISTERED ''ltx1a'' run_set_details,
    the_event KEY_ATTESTATION_SCHEMA_REGISTERED ''ltx1b'' run_schema_details,
    the_event KEY_ATTESTATION_ATTESTATION_SUBMITTED ''ltx1c'' run_attestation_details]"
  let ?ingest = "ingest_tx calm_pg run_node run_codec 4242 the_slot ?evs" and ?J = "json_text calm_pg"
  have hash: "ev_tx_hash (the_event key tx v) = tx" for key tx v by (simp add: the_event_def)
  have step1: "\<exists>p'. ?ingest (the_tx ''ltx1a'' 0) 0 p = (Inr 1, p') \<and> keys_of (p_db p') = ([1], [(''ltx1a'', 0)], [''las1a''], [], [])"
    if "keys_of (p_db p) = ([1], [], [], [], [])" for p
    using run_ingest_tx [OF that, of "''ltx1a''" 0 0 ?evs] run_classification(1) [of ?J "''ltx1a''" 0] run_rows(1)
    by (fastforce simp: hash)
  have step2: "\<exists>p'. ?ingest (the_tx ''ltx1b'' 1) 1 p = (Inr 2, p') \<and>
      keys_of (p_db p') = ([1], [(''ltx1a'', 0), (''ltx1b'', 1)], [''las1a''], [run_schema_id], [])"
    if "keys_of (p_db p) = ([1], [(''ltx1a'', 0)], [''las1a''], [], [])" for p
    using run_ingest_tx [OF that, of "''ltx1b''" 1 1 ?evs] run_classification(2) [of ?J "''ltx1b''" 1] run_rows(2)
    by (fastforce simp: hash)
  have step3: "\<exists>p'. ?ingest (the_tx ''ltx1c'' 2) 2 p = (Inr 3, p') \<and>
      keys_of (p_db p') = ([1], [(''ltx1a'', 0), (''ltx1b'', 1), (''ltx1c'', 2)], [''las1a''], [run_schema_id],
        [(run_attestation_id, run_schema_id)])"
    if "keys_of (p_db p) = ([1], [(''ltx1a'', 0), (''ltx1b'', 1)], [''las1a''], [run_schema_id], [])" for p
    using run_ingest_tx [OF that, of "''ltx1c''" 2 2 ?evs] run_classification(3) [of ?J "''ltx1c''" 2] run_rows(3)
    by (fastforce simp: hash)
  let ?tick = "\<lambda>p :: pool. p\<lparr>p_seq := Suc (p_seq p)\<rparr>"
  obtain p1 where p1: "?ingest (the_tx ''ltx1a'' 0) 0 (?tick (?tick (?tick p))) = (Inr 1, p1)"
    "keys_of (p_db p1) = ([1], [(''ltx1a'', 0)], [''las1a''], [], [])"
    using step1 [of "?tick (?tick (?tick p))"] assms by auto
  obtain p2 where p2: "?ingest (the_tx ''ltx1b'' 1) 1 (?tick p1) = (Inr 2, p2)"
    "keys_of (p_db p2) = ([1], [(''ltx1a'', 0), (''ltx1b'', 1)], [''las1a''], [run_schema_id], [])"
    using step2 [of "?tick p1"] p1(2) by auto
  obtain p3 where p3: "?ingest (the_tx ''ltx1c'' 2) 2 (?tick p2) = (Inr 3, p3)"
    "keys_of (p_db p3) = ([1], [(''ltx1a'', 0), (''ltx1b'', 1), (''ltx1c'', 2)], [''las1a''], [run_schema_id],
        [(run_attestation_id, run_schema_id)])"
    using step3 [of "?tick p2"] p2(2) by auto
  obtain b where b: "batch_at run_node 0 (?tick p) = (Inr (Some b), ?tick (?tick p))" "lb_tx_range b = \<lparr>rg_start = 0, rg_end = 3\<rparr>"
    using run_batch_at [of "?tick p"] by auto
  have ranges: "u64_range \<lparr>rg_start = 0, rg_end = 1\<rparr> = [0]" "u64_range \<lparr>rg_start = 0, rg_end = 3\<rparr> = [0, 1, 2]"
    by (simp_all add: u64_range_def upt_rec)
  have "snd (ingest_slot_transactions calm_pg run_node run_codec 4242 the_slot p) = p3"
    by (simp add: ingest_slot_transactions_def run_slot_decoded run_requests ranges op_bind_def b
        p1(1) [simplified] p2(1) [simplified] p3(1) [simplified])
  then show ?thesis using p3(2) by simp
qed

section \<open>The run\<close>

lemma run_node_numbers: "node_numbers run_node"
proof -
  have "sl_number slot = h" if "fst (slot_at run_node h p) = Inr (Some slot)" for h p slot
  proof (cases "h = 1")
    case True
    with that show ?thesis by (simp add: run_requests run_slot_decoded)
  next
    case False
    then have "show_u64 h \<noteq> ''1''" using small_numbers(2) show_u64_inj by metis
    moreover have "show_u64 h \<noteq> ''1/events''"
    proof
      assume "show_u64 h = ''1/events''"
      then have "parse_u64 ''1/events'' = Some h" by (metis parse_u64_show_u64)
      then show False by (simp add: parse_u64_def parse_uint_def digit_val_def)
    qed
    ultimately show ?thesis
      using that show_u64_not_latest [of h]
      by (simp add: slot_at_def fetch_unless_404_def send_def node_url_def run_node_def run_pages_def from_slice_def Let_def)
  qed
  then show ?thesis by (auto simp: node_numbers_def)
qed

text \<open>The steps before the transactions.\<close>

lemma run_boot:
  "\<exists>p. bootstrap_once calm_pg run_node fresh_pool = (True, p) \<and> keys_of (p_db p) = ([], [], [], [], []) \<and> cursor (p_db p) = None"
proof -
  obtain p where p: "bootstrap_once calm_pg run_node fresh_pool = (True, p)" "keys_of (p_db p) = ([], [], [], [], [])"
    by (simp add: bootstrap_once_def run_requests write_chain_identity_def in_transaction_def op_bind_def upsert_state_def
        upsert_state_stmt_def exec_def keys_of_def fresh_pool_def empty_db_def Let_def)
  moreover have "cursor (p_db p) = None"
    using cursor_kept.keep_bootstrap [of fresh_pool None calm_pg run_node] p(1)
    by (simp add: cursor_def fresh_pool_def empty_db_def state_value_def)
  ultimately show ?thesis by blast
qed

lemma run_resume:
  assumes "cursor (p_db p) = None"
  shows "resume_height calm_pg None p = (1, p\<lparr>p_seq := Suc (p_seq p)\<rparr>)"
  using assms
  by (auto simp: resume_height_def read_last_indexed_height_def op_bind_def exec_def cursor_def Let_def split: option.splits)

lemma run_walk:
  assumes "keys_of (p_db p) = ([], rest)"
  shows "\<exists>p'. walk_slot calm_pg run_node 1 1 p = (Landed 1 1 the_slot, p') \<and> keys_of (p_db p') = ([1], rest)"
proof -
  obtain facts p1 where facts: "extract_slot_first_batch_facts run_node the_slot (p\<lparr>p_seq := Suc (p_seq p)\<rparr>) = (facts, p1)" by force
  have db: "p_db p1 = p_db p"
    using facts run_batch_at [of "p\<lparr>p_seq := Suc (p_seq p)\<rparr>"]
    by (auto simp: extract_slot_first_batch_facts_def run_slot_decoded)
  have one: "as_i64 1 = 1" by (simp add: as_i64_def)
  obtain prev q where q: "derive_prev_hash calm_pg the_slot p1 = (prev, q)" "p_db q = p_db p1"
    using derive_prev_hash_db [of calm_pg the_slot p1] by (cases "derive_prev_hash calm_pg the_slot p1") simp
  have "\<exists>p'. upsert_slot calm_pg the_slot (sf_proposer facts) (sf_da_block_height facts) p1 = (Inr (), p') \<and>
      keys_of (p_db p') = ([1], rest)"
    using assms db q(2)
    by (simp add: upsert_slot_def q(1) exec_def upsert_slot_stmt_def new_slot_row_def keys_of_def upsert_def
        run_slot_decoded(3) one Let_def)
  then show ?thesis by (auto simp: walk_slot_def run_requests facts)
qed

lemma run_indexes:
  "\<exists>s. ingest_reach calm_pg run_node run_codec 4242 None fresh_state s \<and> ig_phase s = Ingested 1 1 \<and> ig_missing s = {} \<and>
     keys_of (p_db (ig_pool s)) = ([1], [(''ltx1a'', 0), (''ltx1b'', 1), (''ltx1c'', 2)], [''las1a''], [run_schema_id],
       [(run_attestation_id, run_schema_id)])"
proof -
  let ?reach = "ingest_reach calm_pg run_node run_codec 4242 None fresh_state"
  let ?tick = "\<lambda>p :: pool. p\<lparr>p_seq := Suc (p_seq p)\<rparr>"
  obtain p1 where boot: "bootstrap_once calm_pg run_node fresh_pool = (True, p1)" "keys_of (p_db p1) = ([], [], [], [], [])"
    "cursor (p_db p1) = None" using run_boot by blast
  have head: "head_check run_node 1 p = (Walk 1 1, ?tick p)" for p
    by (simp add: head_check_def run_requests run_slot_decoded)
  obtain p2 where walk: "walk_slot calm_pg run_node 1 1 (?tick (?tick p1)) = (Landed 1 1 the_slot, p2)"
    "keys_of (p_db p2) = ([1], [], [], [], [])"
    using run_walk [of "?tick (?tick p1)"] boot(2) by auto
  let ?s = "\<lambda>ph p. \<lparr>ig_phase = ph, ig_pool = p, ig_missing = {}\<rparr>"
  have "?reach (?s Resume p1)"
    using ingest_reach.step [OF ingest_reach.start ingest_step.boot [of fresh_state _ _ True p1]] boot(1)
    by (simp add: fresh_state_def)
  then have "?reach (?s (Outer 1) (?tick p1))"
    using ingest_step.resume [of "?s Resume p1" calm_pg None 1 "?tick p1"] run_resume [OF boot(3)]
    by (auto intro: ingest_reach.step)
  then have "?reach (?s (Walk 1 1) (?tick (?tick p1)))"
    using ingest_step.head [of "?s (Outer 1) (?tick p1)" 1 run_node "Walk 1 1" "?tick (?tick p1)"] head [of "?tick p1"]
    by (auto intro: ingest_reach.step)
  then have "?reach (?s (Landed 1 1 the_slot) p2)"
    using ingest_step.walk [of "?s (Walk 1 1) (?tick (?tick p1))" 1 1 calm_pg run_node "Landed 1 1 the_slot" p2] walk(1)
    by (auto simp: is_missing_def run_requests intro: ingest_reach.step)
  then have "?reach (?s (Ingested 1 1) (snd (ingest_slot_transactions calm_pg run_node run_codec 4242 the_slot p2)))"
    using ingest_step.txs [of "?s (Landed 1 1 the_slot) p2" 1 1 the_slot] by (auto intro: ingest_reach.step)
  then show ?thesis using run_slot_indexed [OF walk(2)] by force
qed

end
