(* ===== verification/System.thy ===== *)
theory System
  imports Startup Demo_Run
begin

text \<open>
  The whole process: the ingest task and the API on one database, in any interleaving. A step is a step of
  the ingest loop (a stage of a slot, a re-poll tick, a crash of the task), one handled request, or a
  redeployment: the process dies and a new one boots on the database it left. The invariants of the ingest
  loop are shown to survive all of them, so that what holds of the loop alone holds of the service.
\<close>

section \<open>Steps\<close>

record 'key system =
  sys_ingest :: ingest_state
  sys_app :: "'key app_state"

inductive system_step ::
  "('k :: linorder, 'key, 'addr) app_env \<Rightarrow> node_client \<Rightarrow> codec \<Rightarrow> 'key system \<Rightarrow> 'key system \<Rightarrow> bool"
  for A :: "('k, 'key, 'addr) app_env" and C :: node_client and K :: codec where
  ingest: "ingest_step (ae_pg (sv_api (ap_env A))) C K (cf_chain_id (ap_config A)) (cf_indexer_start_height (ap_config A))
      (sys_ingest s) i' \<Longrightarrow> system_step A C K s (s\<lparr>sys_ingest := i'\<rparr>)"
| request: "handle A r (ig_pool (sys_ingest s), sys_app s) = (resp, p', a') \<Longrightarrow>
    system_step A C K s (s\<lparr>sys_ingest := (sys_ingest s)\<lparr>ig_pool := p'\<rparr>, sys_app := a'\<rparr>)"
| redeploy: "boot_process W = (evs, Inr pr) \<Longrightarrow> bw_sdk W = ap_sdk A \<Longrightarrow> pr_config pr = ap_config A \<Longrightarrow>
    p_db (pr_pool pr) = p_db (ig_pool (sys_ingest s)) \<Longrightarrow>
    system_step A C K s
      (s\<lparr>sys_ingest := (sys_ingest s)\<lparr>ig_phase := Boot, ig_pool := pr_pool pr\<rparr>, sys_app := pr_app pr\<rparr>)"

inductive system_reach ::
  "('k :: linorder, 'key, 'addr) app_env \<Rightarrow> node_client \<Rightarrow> codec \<Rightarrow> 'key system \<Rightarrow> 'key system \<Rightarrow> bool"
  for A :: "('k, 'key, 'addr) app_env" and C :: node_client and K :: codec and s0 :: "'key system" where
  start: "system_reach A C K s0 s0"
| step: "system_reach A C K s0 s \<Longrightarrow> system_step A C K s s' \<Longrightarrow> system_reach A C K s0 s'"

text \<open>The tables, as a view on the state.\<close>

abbreviation tables :: "'key system \<Rightarrow> db" where
  "tables s \<equiv> p_db (ig_pool (sys_ingest s))"

section \<open>Requests keep what the ingest loop keeps\<close>

lemma handle_frame:
  assumes "handle A r (p, a) = (resp, p', a')"
  shows "frame_eq (p_db p) (p_db p')"
  using handle_effect [OF assms] by (auto simp: app_effect_def frame_eq_def split: if_splits)

lemma handle_drips:
  assumes "handle A r (p, a) = (resp, p', a')"
  shows "\<exists>rows. p_db p' = (p_db p)\<lparr>bot_drips := rows\<rparr>"
proof -
  have "p_db p' = p_db p \<or> (\<exists>row. p_db p' = (p_db p)\<lparr>bot_drips := bot_drips (p_db p) @ [row]\<rparr>)"
    using handle_effect [OF assms] by (auto simp: app_effect_def split: if_splits)
  then show ?thesis by (metis db.surjective db.update_convs(10))
qed

context ingest_kept_cursor
begin

lemma keep_system_step:
  assumes "system_step A C K s s'" and "ae_pg (sv_api (ap_env A)) = P" and "I (tables s)"
  shows "I (tables s')"
  using assms
proof (induction rule: system_step.induct)
  case (ingest s i')
  then show ?case using keep_step by fastforce
next
  case (request r s resp p' a')
  then show ?case using handle_drips [of A r "ig_pool (sys_ingest s)" "sys_app s"] keep_drips by fastforce
qed simp

lemma keep_system:
  assumes "system_reach A C K s0 s" and "ae_pg (sv_api (ap_env A)) = P" and "I (tables s0)"
  shows "I (tables s)"
  using assms by (induction rule: system_reach.induct) (auto intro: keep_system_step)

end

lemma no_gap_frame:
  "no_gap lo i \<Longrightarrow> frame_eq (p_db (ig_pool i)) (p_db p') \<Longrightarrow> no_gap lo (i\<lparr>ig_pool := p'\<rparr>)"
  by (auto simp: no_gap_def accounted_def frame_eq_def slot_of_def cursor_def state_value_def)

lemma no_gap_reboot:
  assumes "no_gap lo i" and "p_db p' = p_db (ig_pool i)"
  shows "no_gap lo (i\<lparr>ig_phase := Boot, ig_pool := p'\<rparr>)"
proof -
  have "no_gap lo (i\<lparr>ig_pool := p'\<rparr>)" by (rule no_gap_frame [OF assms(1)]) (simp add: assms(2))
  then show ?thesis by (auto simp: no_gap_def accounted_def)
qed

lemma no_gap_system:
  assumes "system_reach A C K s0 s" and "node_numbers C"
    and "no_gap (first_height (cf_indexer_start_height (ap_config A))) (sys_ingest s0)"
  shows "no_gap (first_height (cf_indexer_start_height (ap_config A))) (sys_ingest s)"
  using assms
proof (induction rule: system_reach.induct)
  case (step s s')
  from step.hyps(2) show ?case
  proof cases
    case (ingest i')
    then show ?thesis using step no_gap_preserved by fastforce
  next
    case (request r resp p' a')
    then show ?thesis using step no_gap_frame [of _ "sys_ingest s" p'] handle_frame by simp blast
  next
    case (redeploy W evs pr)
    then show ?thesis using step no_gap_reboot by auto
  qed
qed

section \<open>The slot and transaction tables\<close>

text \<open>The shape of the slot table the read side relies on is an invariant of the ingest loop.\<close>

lemma slots_ok_upsert:
  assumes "slots_ok d" and "upsert_slot_stmt P slot prev proposer da t d = Inr (d', u)"
  shows "slots_ok d'"
proof -
  have "s_height ` set (slots d') = insert (as_i64 (sl_number slot)) (s_height ` set (slots d))"
    using assms(2) upsert_set_keys [of s_height "merge_slot_row (new_slot_row P slot prev proposer da t) t"
        "new_slot_row P slot prev proposer da t" "slots d"]
    by (auto simp: upsert_slot_stmt_def Let_def)
  moreover have "int8_ok (as_i64 (sl_number slot))" using as_i64_range by (simp add: int8_ok_def)
  ultimately have "\<forall>k \<in> s_height ` set (slots d'). int8_ok k" using assms(1) by (simp add: slots_ok_def)
  then show ?thesis using assms unique_slots_upsert by (auto simp: slots_ok_def)
qed

lemma slots_ok_heights: "slots_ok d \<Longrightarrow> map s_height (slots d') = map s_height (slots d) \<Longrightarrow> slots_ok d'"
  unfolding slots_ok_def unique_key_def by (metis (mono_tags, lifting) image_iff set_map)

lemma slots_heights:
  "flip_stmt h t d = Inr (d', n) \<Longrightarrow> map s_height (slots d') = map s_height (slots d)"
  "insert_tx_stmt row t d = Inr (d', u) \<Longrightarrow> map s_height (slots d') = map s_height (slots d)"
  "upsert_state_stmt key val t d = Inr (d', u) \<Longrightarrow> map s_height (slots d') = map s_height (slots d)"
  "frame_eq d d' \<Longrightarrow> map s_height (slots d') = map s_height (slots d)"
  by (auto simp: flip_stmt_def insert_tx_stmt_Inr upsert_state_stmt_def frame_eq_def update_where_def Let_def)

interpretation slot_table: ingest_invariant_cursor P K slots_ok for P K
  by unfold_locales (blast intro: slots_ok_upsert slots_ok_heights slots_heights)+

text \<open>So are the ranges of the columns the transaction list is ordered by.\<close>

definition tx_columns_ok :: "db \<Rightarrow> bool" where
  "tx_columns_ok d \<longleftrightarrow> (\<forall>r \<in> set (transactions d). int8_ok (t_slot r) \<and> int4_ok (t_position r))"

lemma new_tx_columns:
  "int8_ok (t_slot (new_tx_row c s i ks dec out t)) \<and> int4_ok (t_position (new_tx_row c s i ks dec out t))"
  using as_i64_range [of s] sint_ge [of i] sint_lt [of i] by (simp add: int8_ok_def int4_ok_def i32_max_def)

lemma tx_columns_insert:
  assumes "tx_columns_ok d" and "insert_tx_stmt (new_tx_row c s i ks dec out) t d = Inr (d', u)"
  shows "tx_columns_ok d'"
  unfolding tx_columns_ok_def
proof
  fix r assume "r \<in> set (transactions d')"
  then have "r \<in> set (transactions d) \<or> r = new_tx_row c s i ks dec out t \<or>
      (\<exists>old. r = merge_tx_row (new_tx_row c s i ks dec out t) t old)"
    using assms(2) upsert_members [of r] by (fastforce simp: insert_tx_stmt_Inr)
  then show "int8_ok (t_slot r) \<and> int4_ok (t_position r)"
    using assms(1) new_tx_columns by (auto simp: tx_columns_ok_def merge_tx_row_def)
qed

lemma tx_columns_cong: "tx_columns_ok d \<Longrightarrow> transactions d' = transactions d \<Longrightarrow> tx_columns_ok d'"
  by (simp add: tx_columns_ok_def)

lemma tx_rows_kept:
  "upsert_state_stmt key val t d = Inr (d', u) \<Longrightarrow> transactions d' = transactions d"
  "frame_eq d d' \<Longrightarrow> transactions d' = transactions d"
  by (auto simp: upsert_state_stmt_def frame_eq_def)

interpretation tx_columns: ingest_invariant_cursor P K tx_columns_ok for P K
  by unfold_locales (blast intro: tx_columns_insert tx_columns_cong upsert_slot_txs flip_txs tx_rows_kept)+

lemma fresh_tables:
  "slots_ok (p_db (ig_pool fresh_state))" "tx_wf (p_db (ig_pool fresh_state))"
  "all_stamped (p_db (ig_pool fresh_state))" "tx_columns_ok (p_db (ig_pool fresh_state))" "no_gap lo fresh_state"
  using fresh_state_ok
  by (simp_all add: fresh_state_def slots_ok_def unique_key_def fresh_pool_def empty_db_def tx_columns_ok_def)

definition fresh_system :: "'key app_state \<Rightarrow> 'key system" where
  "fresh_system a = \<lparr>sys_ingest = fresh_state, sys_app = a\<rparr>"

lemma fresh_system_ingest [simp]: "sys_ingest (fresh_system a) = fresh_state"
  by (simp add: fresh_system_def)

text \<open>A run of the ingest loop is a run of the process in which no request arrives.\<close>

lemma system_reach_ingest:
  assumes "ingest_reach (ae_pg (sv_api (ap_env A))) C K (cf_chain_id (ap_config A)) (cf_indexer_start_height (ap_config A)) i i'"
  shows "system_reach A C K \<lparr>sys_ingest = i, sys_app = a\<rparr> \<lparr>sys_ingest = i', sys_app = a\<rparr>"
  using assms
proof (induction rule: ingest_reach.induct)
  case (step j j')
  then show ?case using system_reach.step system_step.ingest [of A C K "\<lparr>sys_ingest = j, sys_app = a\<rparr>" j'] by fastforce
qed (rule system_reach.start)

lemma fresh_resources: "resources_ok C (p_db (ig_pool fresh_state))"
  by (simp add: resources_ok_def fresh_state_def fresh_pool_def empty_db_def unique_key_def)

lemma system_resources:
  assumes "system_reach A C K (fresh_system a) s"
  shows "resources_ok (cx_crypto K) (tables s)"
  by (rule resources.keep_system [OF assms refl]) (simp add: fresh_resources)

lemma system_tables:
  assumes "system_reach A C K (fresh_system a) s"
  shows "tx_wf (tables s)" "all_stamped (tables s)" "slots_ok (tables s)" "txs_ok (tables s)"
proof -
  show wf: "tx_wf (tables s)" by (rule txs.keep_system [OF assms refl]) (simp add: fresh_tables)
  show "all_stamped (tables s)" by (rule stamps.keep_system [OF assms refl]) (simp add: fresh_tables)
  show sl: "slots_ok (tables s)" by (rule slot_table.keep_system [OF assms refl]) (simp add: fresh_tables)
  have "tx_columns_ok (tables s)" by (rule tx_columns.keep_system [OF assms refl]) (simp add: fresh_tables)
  with wf sl show "txs_ok (tables s)" by (simp add: txs_ok_def slots_ok_def tx_columns_ok_def)
qed

section \<open>Properties\<close>

text \<open>C1. Integrity of the tables over the whole process: starting from an empty database, in every interleaving of
  the ingest task with its failures and crashes, requests of all kinds and redeployments, slot heights,
  transaction hashes and positions are unique, every transaction row points to an indexed slot,
  satisfies the constraints of the table and is a committed one, and every slot reported as finalized
  carries its stamp.\<close>

theorem system_keeps_integrity:
  assumes "system_reach A C K (fresh_system a) s"
  shows "unique_key s_height (slots (tables s)) \<and>
    unique_key t_hash (transactions (tables s)) \<and>
    unique_key (\<lambda>r. (t_slot r, t_position r)) (transactions (tables s)) \<and>
    (\<forall>r \<in> set (transactions (tables s)).
       t_outcome r = ''committed'' \<and> t_kind r \<in> set tx_kinds \<and> slot_of (tables s) (t_slot r) \<noteq> None) \<and>
    all_stamped (tables s)"
  using system_tables [OF assms]
  by (auto simp: tx_wf_def tx_check_def revert_reason_consistent_def slot_of_def slots_ok_def)

definition demo_run_env :: "(string, unit, string) app_env" where
  "demo_run_env = demo_env\<lparr>ap_env := plain_stats\<lparr>sv_api := (sv_api plain_stats)\<lparr>ae_pg := calm_pg\<rparr>\<rparr>\<rparr>"

lemma demo_run:
  "\<exists>s. system_reach demo_run_env run_node run_codec (fresh_system a) s \<and>
     done_below (ig_phase (sys_ingest s)) 1 \<and> ig_missing (sys_ingest s) = {} \<and>
     keys_of (tables s) = ([1], [(''ltx1a'', 0), (''ltx1b'', 1), (''ltx1c'', 2)], [''las1a''], [run_schema_id],
       [(run_attestation_id, run_schema_id)])"
proof -
  obtain i where i: "ingest_reach calm_pg run_node run_codec 4242 None fresh_state i" "ig_phase i = Ingested 1 1"
    "ig_missing i = {}" "keys_of (p_db (ig_pool i)) = ([1], [(''ltx1a'', 0), (''ltx1b'', 1), (''ltx1c'', 2)], [''las1a''],
       [run_schema_id], [(run_attestation_id, run_schema_id)])"
    using run_indexes by blast
  have "system_reach demo_run_env run_node run_codec \<lparr>sys_ingest = fresh_state, sys_app = a\<rparr> \<lparr>sys_ingest = i, sys_app = a\<rparr>"
    by (rule system_reach_ingest) (use i(1) in \<open>simp add: demo_run_env_def demo_env_def sample_config_def\<close>)
  then show ?thesis using i by (intro exI [of _ "\<lparr>sys_ingest = i, sys_app = a\<rparr>"]) (simp add: fresh_system_def)
qed

lemma demo_run_rows:
  "\<exists>s. system_reach demo_run_env run_node run_codec (fresh_system a) s \<and>
     done_below (ig_phase (sys_ingest s)) 1 \<and> ig_missing (sys_ingest s) = {} \<and> map s_height (slots (tables s)) = [1] \<and>
     map t_hash (transactions (tables s)) = [''ltx1a'', ''ltx1b'', ''ltx1c''] \<and>
     map as_id (attestor_sets (tables s)) = [''las1a''] \<and> map sc_id (schemas (tables s)) = [run_schema_id] \<and>
     map at_id (attestations (tables s)) = [run_attestation_id]"
  using demo_run [of a] by (elim exE, intro exI) (auto simp: keys_of_def)

theorem system_keeps_integrity_witness:
  "\<exists>s. system_reach demo_run_env run_node run_codec (fresh_system demo_state) s \<and>
     map t_hash (transactions (tables s)) = [''ltx1a'', ''ltx1b'', ''ltx1c''] \<and>
     (\<forall>r \<in> set (transactions (tables s)). t_outcome r = ''committed'' \<and> slot_of (tables s) (t_slot r) \<noteq> None) \<and>
     all_stamped (tables s)"
proof -
  obtain s where s: "system_reach demo_run_env run_node run_codec (fresh_system demo_state) s"
    "map t_hash (transactions (tables s)) = [''ltx1a'', ''ltx1b'', ''ltx1c'']" "map as_id (attestor_sets (tables s)) = [''las1a'']"
    "map at_id (attestations (tables s)) = [run_attestation_id]"
    using demo_run_rows [of demo_state] by (elim exE conjE) (rule that)
  show ?thesis
    by (rule exI [of _ s], intro conjI ballI) (use s(1,2) system_keeps_integrity [OF s(1)] in blast)+
qed

text \<open>C2. Integrity of the resource tables over the whole process, in the same runs: the identifiers of attestor
  sets, schemas, attestations, bounties, contracts and addresses are unique, as are the names and versions of the
  schemas of an owner; a schema points to an indexed attestor set, an attestation and the board of a bounty to
  an indexed schema; attestor sets, schemas and attestations point to the slot and the transaction they came
  with. An attestation carries the id of its schema and payload, so no pair is attested in two rows.
  Thresholds, fee routings, signature counts and statuses are within the constraints of the tables, and no
  counter has left the range of its column.\<close>

theorem resources_keep_integrity:
  assumes "system_reach A C K (fresh_system a) s"
  shows "unique_key as_id (attestor_sets (tables s)) \<and> unique_key sc_id (schemas (tables s)) \<and>
    unique_key (\<lambda>r. (sc_owner r, sc_name r, sc_version r)) (schemas (tables s)) \<and>
    unique_key at_id (attestations (tables s)) \<and>
    unique_key (\<lambda>r. (at_schema_id r, at_payload_hash r)) (attestations (tables s)) \<and>
    unique_key bo_id (bounties (tables s)) \<and> unique_key co_id (contracts (tables s)) \<and>
    unique_key ad_address (address_summaries (tables s)) \<and>
    (\<forall>r \<in> set (attestor_sets (tables s)). 1 \<le> as_threshold r \<and> as_threshold r \<le> 64 \<and>
       0 \<le> as_schema_count r \<and> as_schema_count r \<le> i32_max \<and> recorded (tables s) (as_slot r) (as_tx r)) \<and>
    (\<forall>r \<in> set (schemas (tables s)). (\<exists>q \<in> set (attestor_sets (tables s)). as_id q = sc_attestor_set_id r) \<and>
       sc_fee_routing_bps r \<le> 10000 \<and> (sc_fee_routing_bps r > 0 \<longleftrightarrow> sc_fee_routing_addr r \<noteq> None) \<and>
       0 \<le> sc_attestation_count r \<and> sc_attestation_count r \<le> i32_max \<and> recorded (tables s) (sc_slot r) (sc_tx r)) \<and>
    (\<forall>r \<in> set (attestations (tables s)). (\<exists>q \<in> set (schemas (tables s)). sc_id q = at_schema_id r) \<and>
       compute_attestation_id (cx_crypto K) (at_schema_id r) (at_payload_hash r) = Inr (at_id r) \<and>
       1 \<le> at_signature_count r \<and> recorded (tables s) (at_slot r) (at_tx r)) \<and>
    (\<forall>r \<in> set (bounties (tables s)). (\<exists>q \<in> set (schemas (tables s)). sc_id q = bo_board_schema_id r) \<and>
       bo_status r \<in> set bounty_statuses \<and> 0 \<le> bo_claim_count r \<and> bo_claim_count r \<le> i32_max) \<and>
    (\<forall>r \<in> set (contracts (tables s)). co_status r \<in> set contract_statuses) \<and>
    (\<forall>r \<in> set (address_summaries (tables s)). address_check r)"
proof -
  note ok = resources_okD [OF system_resources [OF assms]]
  have pairs: "unique_key (\<lambda>r. (at_schema_id r, at_payload_hash r)) (attestations (tables s))"
  proof (rule unique_key_intro)
    show "distinct (attestations (tables s))" using ok(6) by (simp add: unique_key_def distinct_map)
    show "r = r'" if "r \<in> set (attestations (tables s))" "r' \<in> set (attestations (tables s))"
      "(at_schema_id r, at_payload_hash r) = (at_schema_id r', at_payload_hash r')" for r r'
      using bspec [OF ok(7) that(1)] bspec [OF ok(7) that(2)] that(3) unique_key_inj [OF ok(6) that(1,2)]
      by (simp add: attestation_ok_def)
  qed
  have sets: "1 \<le> as_threshold r \<and> as_threshold r \<le> 64 \<and> 0 \<le> as_schema_count r \<and> as_schema_count r \<le> i32_max \<and>
      recorded (tables s) (as_slot r) (as_tx r)" if "r \<in> set (attestor_sets (tables s))" for r
    using ok(2) that by (simp add: attestor_set_ok_def attestor_set_check_def int4_ok_def)
  have schemas: "(\<exists>q \<in> set (attestor_sets (tables s)). as_id q = sc_attestor_set_id r) \<and>
      sc_fee_routing_bps r \<le> 10000 \<and> (sc_fee_routing_bps r > 0 \<longleftrightarrow> sc_fee_routing_addr r \<noteq> None) \<and>
      0 \<le> sc_attestation_count r \<and> sc_attestation_count r \<le> i32_max \<and> recorded (tables s) (sc_slot r) (sc_tx r)"
    if "r \<in> set (schemas (tables s))" for r
    using bspec [OF ok(5) that] by (auto simp: schema_ok_def schema_check_def int4_ok_def image_iff)
  have attestations: "(\<exists>q \<in> set (schemas (tables s)). sc_id q = at_schema_id r) \<and>
      compute_attestation_id (cx_crypto K) (at_schema_id r) (at_payload_hash r) = Inr (at_id r) \<and>
      1 \<le> at_signature_count r \<and> recorded (tables s) (at_slot r) (at_tx r)" if "r \<in> set (attestations (tables s))" for r
    using bspec [OF ok(7) that] by (auto simp: attestation_ok_def attestation_check_def image_iff)
  have bounties: "(\<exists>q \<in> set (schemas (tables s)). sc_id q = bo_board_schema_id r) \<and>
      bo_status r \<in> set bounty_statuses \<and> 0 \<le> bo_claim_count r \<and> bo_claim_count r \<le> i32_max"
    if "r \<in> set (bounties (tables s))" for r
    using bspec [OF ok(9) that] by (auto simp: bounty_ok_def int4_ok_def image_iff)
  have names: "unique_key (\<lambda>r. (sc_owner r, sc_name r, sc_version r)) (schemas (tables s))"
    using ok(4) by (simp add: schema_name_def [abs_def])
  have "\<forall>r \<in> set (contracts (tables s)). co_status r \<in> set contract_statuses"
    using ok(11) by (simp add: contract_ok_def)
  then show ?thesis
    using sets schemas attestations bounties pairs names ok(1,3,6,8,10,12,13) by (intro conjI ballI) blast+
qed

theorem resources_keep_integrity_witness:
  "\<exists>s. system_reach demo_run_env run_node run_codec (fresh_system demo_state) s \<and>
     map at_id (attestations (tables s)) = [run_attestation_id] \<and> map as_id (attestor_sets (tables s)) = [''las1a''] \<and>
     (\<forall>r \<in> set (attestations (tables s)). \<exists>q \<in> set (schemas (tables s)). sc_id q = at_schema_id r) \<and>
     (\<forall>r \<in> set (schemas (tables s)). \<exists>q \<in> set (attestor_sets (tables s)). as_id q = sc_attestor_set_id r)"
proof -
  obtain s where s: "system_reach demo_run_env run_node run_codec (fresh_system demo_state) s"
    "map t_hash (transactions (tables s)) = [''ltx1a'', ''ltx1b'', ''ltx1c'']" "map as_id (attestor_sets (tables s)) = [''las1a'']"
    "map at_id (attestations (tables s)) = [run_attestation_id]"
    using demo_run_rows [of demo_state] by (elim exE conjE) (rule that)
  show ?thesis
    by (rule exI [of _ s], intro conjI ballI) (use s(1,3,4) resources_keep_integrity [OF s(1)] in blast)+
qed

end
