(* ===== verification/Live.thy ===== *)
theory Live
  imports System
begin

text \<open>
  The resource endpoints on the database of a running service: the integrity that every reachable state has is
  what the lists and the lookups of \<open>Resource_Handlers\<close> rely on.
\<close>

section \<open>What the read side needs\<close>

lemma live_lists_ok:
  assumes "system_reach A C K (fresh_system a) s"
  shows "listed_ok as_slot as_id (attestor_sets (tables s))" "listed_ok bo_slot bo_id (bounties (tables s))"
    "listed_ok co_slot co_id (contracts (tables s))" "schemas_ok (tables s)" "attestations_ok (tables s)"
proof -
  note ok = resources_okD [OF system_resources [OF assms]]
  show "listed_ok as_slot as_id (attestor_sets (tables s))" "listed_ok bo_slot bo_id (bounties (tables s))"
    "listed_ok co_slot co_id (contracts (tables s))"
    using ok by (simp_all add: listed_ok_def attestor_set_ok_def recorded_def bounty_ok_def contract_ok_def)
  show "schemas_ok (tables s)"
    using ok(1,3,5) by (simp add: schemas_ok_def listed_ok_def schema_ok_def recorded_def)
  show "attestations_ok (tables s)"
    unfolding attestations_ok_def
  proof (intro conjI ballI impI)
    fix r r' assume "r \<in> set (attestations (tables s))" "r' \<in> set (attestations (tables s))"
      "at_schema_id r = at_schema_id r' \<and> at_payload_hash r = at_payload_hash r'"
    then show "at_id r = at_id r'"
      using bspec [OF ok(7), of r] bspec [OF ok(7), of r'] by (simp add: attestation_ok_def)
  qed (use ok in \<open>simp_all add: attestation_ok_def recorded_def\<close>)
qed

lemma found_by_key: "unique_key key rows \<Longrightarrow> r \<in> set rows \<Longrightarrow> find_row key (key r) rows = Some r"
  by (simp add: find_row_Some_iff)

lemma missed_by_key: "k \<notin> key ` set rows \<Longrightarrow> find_row key k rows = None"
  by (simp add: find_row_None)

text \<open>What the bech32 crate documents of its output: the prefix, the separator, and lower case throughout.\<close>

definition bech32_text :: "crypto \<Rightarrow> bool" where
  "bech32_text C \<longleftrightarrow>
     (\<forall>d s. bech32m_encode C HRP_ATTESTATION d = Inr s \<longrightarrow> starts_with (HRP_ATTESTATION @ ''1'') s \<and> to_lowercase s = s)"

lemma one_listed:
  assumes "lists_all pages store fuel key view [r]"
  shows "walk_pages pages store fuel 0 None = Some [view r]"
proof -
  from assms obtain as ks where w: "walk_pages pages store fuel 0 None = Some as"
    and l: "list_all2 (shown key view (\<lambda>_. [r])) as ks" and k: "sorted_wrt (\<lambda>a b. b < a) ks" "set ks = {key r}"
    by (auto simp: lists_all_def)
  have "ks = [key r]"
  proof (cases ks)
    case (Cons x xs)
    then show ?thesis using k by (cases xs) auto
  qed (use k in simp)
  with l have "as = [view r]" by (auto simp: list_all2_Cons2 shown_def)
  with w show ?thesis by simp
qed

lemma length_filter_less: "length xs < n \<Longrightarrow> length (filter Q xs) < n"
  using length_filter_le [of Q xs] by linarith

section \<open>Properties\<close>

text \<open>C6. The resource lists are complete on a live database: in every state the service can reach from an empty
  database, following the cursors of the lists of attestor sets, schemas (of all or of one set),
  attestations (all, of one schema, or of one attestor set), bounties and contracts, with any of their
  filters and any page size, ends and shows every matching row once, newest first. The join of a schema
  with its attestor set loses no schema, and the one of an attestation with its schema no attestation.\<close>

theorem indexed_resources_listed:
  fixes E :: "('k :: linorder) api_env"
  assumes "system_reach A C K (fresh_system a) s" and "env_ok E" and "\<And>i. reachable E (store i)"
    and "\<And>i. p_db (store i) = tables s"
    and "\<forall>n \<in> {length (attestor_sets (tables s)), length (schemas (tables s)), length (attestations (tables s)),
      length (bounties (tables s)), length (contracts (tables s))}. n < fuel"
  shows "lists_all (serve_attestor_sets E l) store fuel (attestor_set_key E) (attestor_set_row_to_response E)
      (attestor_sets (tables s)) \<and>
    lists_all (serve_schemas (E, set_id) l) store fuel (schema_key E) (schema_row_to_response E)
      (schemas_where set_id (tables s)) \<and>
    map fst (schemas_where set_id (tables s)) =
      filter (\<lambda>r. matches set_id (sc_attestor_set_id r)) (schemas (tables s)) \<and>
    lists_all (serve_attestations (E, schema) l) store fuel (attestation_key E) (attestation_row_to_response E)
      (filter (\<lambda>r. matches schema (at_schema_id r)) (attestations (tables s))) \<and>
    lists_all (serve_set_attestations (E, i) l) store fuel (attestation_key E) (attestation_row_to_response E)
      (filter (\<lambda>r. \<exists>q \<in> set (schemas (tables s)). sc_id q = at_schema_id r \<and> sc_attestor_set_id q = i)
        (attestations (tables s))) \<and>
    lists_all (serve_bounties (E, board, status) l) store fuel (bounty_key E) (bounty_row_to_response E)
      (filter (\<lambda>r. matches board (bo_board_schema_id r) \<and> matches status (bo_status r)) (bounties (tables s))) \<and>
    lists_all (serve_contracts (E, status, poster, arbiter) l) store fuel (contract_key E) (contract_row_to_response E)
      (filter (\<lambda>r. matches status (co_status r) \<and> matches poster (co_poster r) \<and> matches arbiter (co_arbiter r))
        (contracts (tables s)))"
proof -
  note ok = live_lists_ok [OF assms(1)]
  have schemas_unique: "unique_key sc_id (schemas (tables s))" using ok(5) by (simp add: attestations_ok_def)
  have join: "map fst (schemas_where set_id (tables s)) = filter (\<lambda>r. matches set_id (sc_attestor_set_id r)) (schemas (tables s))"
    unfolding schemas_where_def schemas_join_left [OF ok(4), symmetric] by (simp add: filter_map comp_def)
  have "length (schemas_where set_id (tables s)) < fuel"
    using assms(5) length_filter_less [of "schemas (tables s)"] by (metis (no_types, lifting) insertCI join length_map)
  then have "lists_all (serve_schemas (E, set_id) l) store fuel (schema_key E) (schema_row_to_response E)
      (schemas_where set_id (tables s))"
    using schema_pages.lists_everything [of "(E, set_id)" store "schemas_where set_id (tables s)" fuel l] assms(2-4) ok(4)
    by simp
  moreover have "lists_all (serve_attestor_sets E l) store fuel (attestor_set_key E) (attestor_set_row_to_response E)
      (attestor_sets (tables s))"
    by (rule attestor_set_pages.lists_everything) (use assms(2-5) ok(1) in simp_all)
  moreover have "lists_all (serve_attestations (E, schema) l) store fuel (attestation_key E) (attestation_row_to_response E)
      (filter (\<lambda>r. matches schema (at_schema_id r)) (attestations (tables s)))"
    using attestation_pages.lists_everything [of "(E, schema)" store "attestations_where schema (tables s)" fuel l]
      assms(2-5) ok(5) by (simp add: length_filter_less attestations_where_def)
  moreover have "lists_all (serve_set_attestations (E, i) l) store fuel (attestation_key E) (attestation_row_to_response E)
      (filter (\<lambda>r. \<exists>q \<in> set (schemas (tables s)). sc_id q = at_schema_id r \<and> sc_attestor_set_id q = i)
        (attestations (tables s)))"
    unfolding attestations_of_set_filter [OF schemas_unique, symmetric]
    by (rule set_attestation_pages.lists_everything [of "(E, i)", simplified])
       (use assms(2-5) ok(5) in \<open>simp_all add: attestations_of_set_filter [OF schemas_unique] length_filter_less\<close>)
  moreover have "lists_all (serve_bounties (E, board, status) l) store fuel (bounty_key E) (bounty_row_to_response E)
      (filter (\<lambda>r. matches board (bo_board_schema_id r) \<and> matches status (bo_status r)) (bounties (tables s)))"
    using bounty_pages.lists_everything [of "(E, board, status)" store "bounties_where board status (tables s)" fuel l]
      assms(2-5) ok(2) by (simp add: length_filter_less bounties_where_def)
  moreover have "lists_all (serve_contracts (E, status, poster, arbiter) l) store fuel (contract_key E) (contract_row_to_response E)
      (filter (\<lambda>r. matches status (co_status r) \<and> matches poster (co_poster r) \<and> matches arbiter (co_arbiter r))
        (contracts (tables s)))"
    using contract_pages.lists_everything [of "(E, status, poster, arbiter)" store
        "contracts_where status poster arbiter (tables s)" fuel l]
      assms(2-5) ok(3) by (simp add: length_filter_less contracts_where_def)
  ultimately show ?thesis using join by (intro conjI)
qed

theorem indexed_resources_listed_witness:
  "\<exists>s fuel r. system_reach demo_run_env run_node run_codec (fresh_system demo_state) s \<and>
     attestations (tables s) = [r] \<and> at_id r = run_attestation_id \<and>
     walk_pages (serve_attestations (sample_env, None) (Some 1)) (\<lambda>i. \<lparr>p_db = tables s, p_seq = i\<rparr>) fuel 0 None =
       Some [attestation_row_to_response sample_env r]"
proof -
  from demo_run_rows [of demo_state] obtain s r where s: "system_reach demo_run_env run_node run_codec (fresh_system demo_state) s"
    "attestations (tables s) = [r]" "at_id r = run_attestation_id" by (auto simp: map_eq_Cons_conv)
  let ?n = "Suc (length (attestor_sets (tables s)) + length (schemas (tables s)) + length (attestations (tables s)) +
    length (bounties (tables s)) + length (contracts (tables s)))"
  have "lists_all (serve_attestations (sample_env, None) (Some 1)) (\<lambda>i. \<lparr>p_db = tables s, p_seq = i\<rparr>) ?n
       (attestation_key sample_env) (attestation_row_to_response sample_env) [r]"
    using indexed_resources_listed [OF s(1) sample_env_ok(1), of "\<lambda>i. \<lparr>p_db = tables s, p_seq = i\<rparr>" ?n "Some 1" None None] s(2)
    by (simp add: matches_def)
  from one_listed [OF this] show ?thesis using s by blast
qed

text \<open>The lookups by id are lookups in the tables, and a schema is found together with its set.\<close>

lemma lookup_answers:
  assumes "\<not> pg_fault (ae_pg E) (p_seq p)"
  shows "fst (get_attestor_set_by_id E i p) = or_not_found ''attestor set not found''
       (\<lambda>r. cached (attestor_set_row_to_response E r) 300) (find_row as_id i (attestor_sets (p_db p)))"
    "fst (get_schema_by_id E i p) = or_not_found ''schema not found''
       (\<lambda>j. cached (schema_row_to_response E j) 300) (find_row (\<lambda>j. sc_id (fst j)) i (schemas_join_sets (p_db p)))"
    "fst (bounty_detail E i p) = or_not_found ''bounty not found''
       (\<lambda>r. cached (bounty_row_to_response E r) 30) (find_row bo_id i (bounties (p_db p)))"
    "fst (contract_detail E i p) = or_not_found ''contract not found''
       (\<lambda>r. cached (contract_row_to_response E r) 30) (find_row co_id i (contracts (p_db p)))"
  using assms
  by (simp_all add: get_attestor_set_by_id_def attestor_set_by_id_def get_schema_by_id_def schema_by_id_def
      bounty_detail_def bounty_by_id_def contract_detail_def contract_by_id_def read_op_simps respond_def
      TTL_IMMUTABLE_SECS_def TTL_MODEST_SECS_def)

lemma schema_joined:
  assumes "schemas_ok d" and "r \<in> set (schemas d)"
  shows "\<exists>q \<in> set (attestor_sets d). as_id q = sc_attestor_set_id r \<and>
    find_row (\<lambda>j. sc_id (fst j)) (sc_id r) (schemas_join_sets d) = Some (r, q)"
proof -
  obtain q where q: "(r, q) \<in> set (schemas_join_sets d)"
    using assms(2) unfolding schemas_join_left [OF assms(1), symmetric] by auto
  then show ?thesis
    using find_row_Some_iff [of "\<lambda>j. sc_id (fst j)" "schemas_join_sets d" "sc_id r" "(r, q)"] schemas_join_ids [OF assms(1)]
    by (intro bexI [of _ q]) (auto simp: listed_ok_def schemas_join_sets_def join_set)
qed

text \<open>C7. Resources can be looked up on a live database: in every state the service can reach from an empty
  database, a request for the id of an indexed attestor set, schema, attestation, bounty or contract is
  answered with that row, a schema together with the attestor set it names, and an attestation whatever the
  letter case of the id in the request. Ids that are not indexed get 404; an attestation id without the
  prefix \<^verbatim>\<open>lat1\<close> gets 400. That encoded ids are lower-case text with their prefix is what is assumed
  of bech32.\<close>

theorem indexed_resources_served:
  assumes "system_reach A C K (fresh_system a) s" and "p_db p = tables s" and "\<not> pg_fault (ae_pg E) (p_seq p)"
    and "bech32_text (cx_crypto K)"
  shows "(\<forall>q \<in> set (attestor_sets (tables s)).
      fst (get_attestor_set_by_id E (as_id q) p) = cached (attestor_set_row_to_response E q) 300) \<and>
    (\<forall>i. i \<notin> as_id ` set (attestor_sets (tables s)) \<longrightarrow>
      fst (get_attestor_set_by_id E i p) = not_found ''attestor set not found'') \<and>
    (\<forall>r \<in> set (schemas (tables s)). \<exists>q \<in> set (attestor_sets (tables s)). as_id q = sc_attestor_set_id r \<and>
      fst (get_schema_by_id E (sc_id r) p) = cached (schema_row_to_response E (r, q)) 300) \<and>
    (\<forall>i. i \<notin> sc_id ` set (schemas (tables s)) \<longrightarrow> fst (get_schema_by_id E i p) = not_found ''schema not found'') \<and>
    (\<forall>r \<in> set (attestations (tables s)). \<forall>i. to_lowercase i = to_lowercase (at_id r) \<longrightarrow>
      fst (attestation_by_id E i p) = cached (attestation_row_to_response E r) 300) \<and>
    (\<forall>i. starts_with ''lat1'' (to_lowercase i) \<and> to_lowercase i \<notin> at_id ` set (attestations (tables s)) \<longrightarrow>
      (\<exists>body. fst (attestation_by_id E i p) = Error_reply 404 body)) \<and>
    (\<forall>i. \<not> starts_with ''lat1'' (to_lowercase i) \<longrightarrow>
      (\<exists>body. fst (attestation_by_id E i p) = Error_reply 400 body)) \<and>
    (\<forall>r \<in> set (bounties (tables s)). fst (bounty_detail E (bo_id r) p) = cached (bounty_row_to_response E r) 30) \<and>
    (\<forall>i. i \<notin> bo_id ` set (bounties (tables s)) \<longrightarrow> fst (bounty_detail E i p) = not_found ''bounty not found'') \<and>
    (\<forall>r \<in> set (contracts (tables s)). fst (contract_detail E (co_id r) p) = cached (contract_row_to_response E r) 30) \<and>
    (\<forall>i. i \<notin> co_id ` set (contracts (tables s)) \<longrightarrow> fst (contract_detail E i p) = not_found ''contract not found'')"
proof -
  note ok = resources_okD [OF system_resources [OF assms(1)]]
  note join = schemas_join_left [OF live_lists_ok(4) [OF assms(1)]] schemas_join_ids [OF live_lists_ok(4) [OF assms(1)]]
  note answers = lookup_answers [where E = E and p = p, unfolded assms(2), OF assms(3)]
  note schema = schema_joined [OF live_lists_ok(4) [OF assms(1)]]
  have no_schema: "find_row (\<lambda>j. sc_id (fst j)) i (schemas_join_sets (tables s)) = None"
    if "i \<notin> sc_id ` set (schemas (tables s))" for i
    using that unfolding join(1) [symmetric] find_row_None by auto
  have attestation: "fst (attestation_by_id E i p) = cached (attestation_row_to_response E r) 300"
    if r: "r \<in> set (attestations (tables s))" and i: "to_lowercase i = to_lowercase (at_id r)" for r i
  proof -
    have "compute_attestation_id (cx_crypto K) (at_schema_id r) (at_payload_hash r) = Inr (at_id r)"
      using bspec [OF ok(7) r] by (simp add: attestation_ok_def)
    then have "starts_with ''lat1'' (at_id r)" "to_lowercase i = at_id r"
      using assms(4) i by (auto simp: compute_attestation_id_Inr bech32_text_def HRP_ATTESTATION_def)
    then show ?thesis
      using assms(2,3) found_by_key [OF ok(6) r]
      by (simp add: attestation_by_id_def query_attestation_by_id_def read_op_simps respond_def TTL_IMMUTABLE_SECS_def)
  qed
  have no_attestation: "\<exists>body. fst (attestation_by_id E i p) = Error_reply 404 body"
    if "starts_with ''lat1'' (to_lowercase i)" "to_lowercase i \<notin> at_id ` set (attestations (tables s))" for i
    using that assms(2,3) missed_by_key [OF that(2)]
    by (simp add: attestation_by_id_def query_attestation_by_id_def read_op_simps respond_def)
  have malformed: "\<exists>body. fst (attestation_by_id E i p) = Error_reply 400 body"
    if "\<not> starts_with ''lat1'' (to_lowercase i)" for i
    using that by (simp add: attestation_by_id_def)
  show ?thesis
    by (intro conjI ballI allI impI)
       (use schema attestation no_attestation no_schema malformed in \<open>force simp: answers or_not_found_def ok found_by_key missed_by_key\<close>)+
qed

lemma text_crypto_text: "bech32_text text_crypto"
proof -
  have "to_lowercase (bits_text d) = bits_text d" for d
    by (induction d) (simp_all add: bits_text_def to_lowercase_def lower_char_def)
  then show ?thesis
    by (auto simp: bech32_text_def text_crypto_def HRP_ATTESTATION_def to_lowercase_def lower_char_def starts_with_def)
qed

theorem indexed_resources_served_witness:
  "\<exists>s r q. system_reach demo_run_env run_node run_codec (fresh_system demo_state) s \<and>
     schemas (tables s) = [r] \<and> sc_id r = run_schema_id \<and> as_id q = ''las1a'' \<and>
     fst (get_schema_by_id sample_env run_schema_id \<lparr>p_db = tables s, p_seq = 0\<rparr>) =
       cached (schema_row_to_response sample_env (r, q)) 300"
proof -
  from demo_run_rows [of demo_state] obtain s r q where s: "system_reach demo_run_env run_node run_codec (fresh_system demo_state) s"
    "schemas (tables s) = [r]" "sc_id r = run_schema_id" "attestor_sets (tables s) = [q]" "as_id q = ''las1a''"
    by (auto simp: map_eq_Cons_conv)
  have "\<not> pg_fault (ae_pg sample_env) (p_seq \<lparr>p_db = tables s, p_seq = 0\<rparr>)" by (simp add: sample_env_def)
  then have "fst (get_schema_by_id sample_env run_schema_id \<lparr>p_db = tables s, p_seq = 0\<rparr>) =
       cached (schema_row_to_response sample_env (r, q)) 300"
    using indexed_resources_served [OF s(1), of "\<lparr>p_db = tables s, p_seq = 0\<rparr>" sample_env] s(2-) text_crypto_text
    by (simp add: run_codec_def)
  then show ?thesis using s by blast
qed

end
