(* ===== verification/Stats_Series.thy ===== *)
theory Stats_Series
  imports Stats "HOL-Library.Multiset"
begin

text \<open>
  What the daily series, the drip series and the leaderboards of \<^verbatim>\<open>crates/api/src/stats.rs\<close>
  report, in terms of the rows of the tables: every row of the window is counted once and on its day,
  and a leaderboard is the head of the whole ranking.
\<close>

section \<open>Windows\<close>

lemma takeWhile_digits: "u \<noteq> [] \<Longrightarrow> \<not> is_digit (hd u) \<Longrightarrow>
    takeWhile is_digit (show_nat n @ u) = show_nat n \<and> dropWhile is_digit (show_nat n @ u) = u"
proof -
  assume u: "u \<noteq> []" "\<not> is_digit (hd u)"
  have "\<forall>c \<in> set (show_nat n). is_digit c"
  proof (induction n rule: show_nat.induct)
    case (1 n)
    then show ?case by (auto simp: show_nat.simps [of n] is_digit_def)
  qed
  then show ?thesis using u by (cases u) (auto simp: takeWhile_append dropWhile_append dropWhile_eq_Nil_conv)
qed

definition unit_seconds :: "(string \<times> nat) list" where
  "unit_seconds = [(''s'', 1), (''m'', 60), (''h'', 3600), (''d'', 86400)]"

lemma parse_interval_show:
  assumes "(u, f) \<in> set unit_seconds" and "n < 2 ^ 64"
  shows "parse_interval (show_nat n @ u) = (if n * f < 2 ^ 64 then Inr (n * f) else Inl ''overflow'')"
proof -
  have u: "u \<noteq> []" "\<not> is_digit (hd u)" using assms(1) by (auto simp: unit_seconds_def is_digit_def digit_val_def)
  show ?thesis
    using assms takeWhile_digits [OF u, of n] parse_uint_show_nat [OF assms(2)]
    by (auto simp: parse_interval_def unit_seconds_def checked_mul_u64_def simp del: power_numeral)
qed

lemma parse_interval_bound: "parse_interval s = Inr secs \<Longrightarrow> secs < 2 ^ 64"
  by (auto simp: parse_interval_def Let_def checked_mul_u64_def simp del: power_numeral
      split: option.splits if_splits dest: parse_uint_bound)

section \<open>Groups\<close>

lemma group_count_fst: "map fst (group_count key rows) = remdups (map key rows)"
  by (simp add: group_count_def comp_def)

lemma group_count_distinct: "distinct (map fst (group_count key rows))"
  by (simp add: group_count_fst)

lemma group_count_set:
  "(g, n) \<in> set (group_count key rows) \<longleftrightarrow> g \<in> key ` set rows \<and> n = length (filter (\<lambda>r. key r = g) rows)"
  by (auto simp: group_count_def)

lemma group_count_pos: "(g, n) \<in> set (group_count key rows) \<Longrightarrow> 0 < n"
  by (auto simp: group_count_set filter_empty_conv)

text \<open>Every row is in one group.\<close>

lemma sum_count_distinct:
  assumes "distinct gs" and "key ` set rows \<subseteq> set gs"
  shows "(\<Sum>g\<leftarrow>gs. length (filter (\<lambda>r. key r = g) rows)) = length rows"
  using assms(2)
proof (induction rows)
  case (Cons r rows)
  have "(\<Sum>g\<leftarrow>gs. length (filter (\<lambda>x. key x = g) (r # rows))) =
      (\<Sum>g\<leftarrow>gs. (if key r = g then 1 else 0) + length (filter (\<lambda>x. key x = g) rows))"
    by (intro arg_cong [of _ _ sum_list] map_cong) auto
  also have "\<dots> = (\<Sum>g\<leftarrow>gs. (if key r = g then 1 else 0)) + length rows"
    using Cons by (simp add: sum_list_addf)
  also have "(\<Sum>g\<leftarrow>gs. (if key r = g then 1 else 0)) = (1 :: nat)"
    using assms(1) Cons.prems by (simp add: sum_list_distinct_conv_sum_set)
  finally show ?case by simp
qed simp

lemma group_count_total: "sum_list (map snd (group_count key rows)) = length rows"
  using sum_count_distinct [of "remdups (map key rows)" key rows] by (simp add: group_count_def comp_def)

lemma distinct_map_sort_key: "distinct (map f (sort_key k xs)) = distinct (map f xs)"
  by (simp add: distinct_map)

lemma sort_key_strict:
  assumes "distinct (map k xs)"
  shows "sorted_wrt (\<lambda>a b. k a < k b) (sort_key k xs)"
proof -
  have "sorted_wrt (<) (map k (sort_key k xs))"
    using assms distinct_map_sort_key [of k k xs] by (simp add: strict_sorted_iff)
  then show ?thesis by (simp add: sorted_wrt_map)
qed

lemma daily_distinct: "distinct (map fst (daily since ts))"
  by (simp add: daily_def distinct_map_sort_key group_count_distinct)

lemma daily_total: "sum_list (map snd (daily since ts)) = length (filter (\<lambda>t. since \<le> t) ts)"
  using group_count_total [of trunc_day "filter (\<lambda>t. since \<le> t) ts"]
  by (simp add: daily_def) (metis mset_map mset_sort sum_mset_sum_list)

lemma daily_set:
  "(day, n) \<in> set (daily since ts) \<longleftrightarrow>
     (\<exists>t \<in> set ts. since \<le> t \<and> trunc_day t = day) \<and> n = length (filter (\<lambda>t. since \<le> t \<and> trunc_day t = day) ts)"
  by (auto simp: daily_def group_count_set conj_commute)

section \<open>Drips\<close>

definition cell :: "day_map \<Rightarrow> string \<Rightarrow> int \<times> int" where
  "cell m x = (case find_row fst x m of Some e \<Rightarrow> snd e | None \<Rightarrow> (0, 0))"

lemma cells_of:
  assumes "unique_key fst m"
  shows "set m = (\<lambda>x. (x, cell m x)) ` fst ` set m"
proof -
  have "(fst e, cell m (fst e)) = e" if "e \<in> set m" for e
    using that find_row_Some_iff [OF assms, of "fst e" e] by (simp add: cell_def)
  then show ?thesis by (simp add: image_image)
qed

lemma set_cell:
  "cell (set_web E (day, n) m) x = (if x = sv_date E day then (int n, snd (cell m x)) else cell m x)"
  "cell (set_bot E (day, n) m) x = (if x = sv_date E day then (fst (cell m x), int n) else cell m x)"
  by (auto simp: cell_def set_web_def set_bot_def find_row_upsert split: option.split)

lemma set_keys:
  "fst ` set (set_web E row m) = insert (sv_date E (fst row)) (fst ` set m)"
  "fst ` set (set_bot E row m) = insert (sv_date E (fst row)) (fst ` set m)"
  by (simp_all add: set_web_def set_bot_def upsert_set_keys)

lemma set_unique:
  "unique_key fst m \<Longrightarrow> unique_key fst (set_web E row m)"
  "unique_key fst m \<Longrightarrow> unique_key fst (set_bot E row m)"
  by (simp_all add: set_web_def set_bot_def unique_key_upsert)

lemma fold_keys:
  "fst ` set (fold (set_web E) rows m) = sv_date E ` fst ` set rows \<union> fst ` set m"
  "fst ` set (fold (set_bot E) rows m) = sv_date E ` fst ` set rows \<union> fst ` set m"
  by (induction rows arbitrary: m) (simp_all add: set_keys)

lemma fold_unique:
  "unique_key fst m \<Longrightarrow> unique_key fst (fold (set_web E) rows m)"
  "unique_key fst m \<Longrightarrow> unique_key fst (fold (set_bot E) rows m)"
  by (induction rows arbitrary: m) (simp_all add: set_unique)

text \<open>The count of a day among rows with distinct days.\<close>

definition on_day :: "(time \<times> nat) list \<Rightarrow> time \<Rightarrow> int" where
  "on_day rows day = (case map_of rows day of Some n \<Rightarrow> int n | None \<Rightarrow> 0)"

lemma fold_cell:
  assumes "distinct (map fst rows)" and "inj_on (sv_date E) (insert day (fst ` set rows))"
  shows "cell (fold (set_web E) rows m) (sv_date E day) =
      (if day \<in> fst ` set rows then (on_day rows day, snd (cell m (sv_date E day))) else cell m (sv_date E day)) \<and>
    cell (fold (set_bot E) rows m) (sv_date E day) =
      (if day \<in> fst ` set rows then (fst (cell m (sv_date E day)), on_day rows day) else cell m (sv_date E day))"
  using assms
proof (induction rows arbitrary: m)
  case (Cons row rows)
  obtain d n where row: "row = (d, n)" by (cases row)
  have inj: "inj_on (sv_date E) (insert day (fst ` set rows))"
    using Cons.prems(2) by (rule inj_on_subset) auto
  have eq: "sv_date E day = sv_date E d \<longleftrightarrow> day = d"
    using Cons.prems(2) by (auto simp: row inj_on_def)
  have d: "d \<notin> fst ` set rows" "distinct (map fst rows)" using Cons.prems(1) by (simp_all add: row)
  show ?case
    using Cons.IH [OF d(2) inj, of "set_web E row m"] Cons.IH [OF d(2) inj, of "set_bot E row m"] d(1)
    by (auto simp: row set_cell eq on_day_def)
qed simp

lemma on_day_daily:
  "on_day (daily since ts) day = int (length (filter (\<lambda>t. since \<le> t \<and> trunc_day t = day) ts))"
proof (cases "map_of (daily since ts) day")
  case None
  then have "\<not> (\<exists>n. (day, n) \<in> set (daily since ts))" by (force simp: map_of_eq_None_iff image_iff)
  then have "filter (\<lambda>t. since \<le> t \<and> trunc_day t = day) ts = []"
    by (auto simp: daily_set filter_empty_conv)
  then show ?thesis using None by (simp add: on_day_def)
next
  case (Some n)
  then have "(day, n) \<in> set (daily since ts)" by (rule map_of_SomeD)
  then show ?thesis using Some by (simp add: on_day_def daily_set)
qed

lemma daily_days: "fst ` set (daily since ts) = trunc_day ` {t \<in> set ts. since \<le> t}"
proof -
  have "fst ` set (daily since ts) = set (map fst (group_count trunc_day (filter (\<lambda>t. since \<le> t) ts)))"
    by (simp add: daily_def)
  then show ?thesis by (auto simp: group_count_fst)
qed

text \<open>The merged series, in terms of the two lists of times.\<close>

lemma merge_by_day_correct:
  assumes "inj_on (sv_date E) (range trunc_day)"
  shows "sorted_wrt (\<lambda>a b. fst a < fst b) (merge_by_day E (daily since ws) (daily since bs)) \<and>
    set (merge_by_day E (daily since ws) (daily since bs)) =
      (\<lambda>day. (sv_date E day, int (length (filter (\<lambda>t. since \<le> t \<and> trunc_day t = day) ws)),
          int (length (filter (\<lambda>t. since \<le> t \<and> trunc_day t = day) bs)))) `
        trunc_day ` {t \<in> set ws \<union> set bs. since \<le> t}"
proof -
  let ?W = "daily since ws" and ?B = "daily since bs"
  let ?m = "fold (set_bot E) ?B (fold (set_web E) ?W [])"
  let ?days = "trunc_day ` {t \<in> set ws \<union> set bs. since \<le> t}"
  let ?f = "\<lambda>day. (int (length (filter (\<lambda>t. since \<le> t \<and> trunc_day t = day) ws)),
      int (length (filter (\<lambda>t. since \<le> t \<and> trunc_day t = day) bs)))"
  have u: "unique_key fst ?m" by (intro fold_unique) (simp add: unique_key_def)
  have inj: "inj_on (sv_date E) (insert day (fst ` set (daily since ts)))" if "day \<in> ?days" for day ts
    using that by (intro inj_on_subset [OF assms]) (auto simp: daily_days)
  have cell: "cell ?m (sv_date E day) = ?f day" if "day \<in> ?days" for day
  proof -
    have absent: "filter (\<lambda>t. since \<le> t \<and> trunc_day t = day) ts = []" if "day \<notin> fst ` set (daily since ts)" for ts
      using that by (auto simp: daily_days filter_empty_conv)
    show ?thesis
      using fold_cell [OF daily_distinct inj [OF that], where m = "fold (set_web E) ?W []"]
        fold_cell [OF daily_distinct inj [OF that], where m = "[]"] absent [of ws] absent [of bs]
      by (auto simp: on_day_daily cell_def [of "[]"])
  qed
  have keys: "fst ` set ?m = sv_date E ` ?days"
    unfolding fold_keys daily_days by (auto simp: image_iff)
  have "set ?m = (\<lambda>x. (x, cell ?m x)) ` fst ` set ?m" by (rule cells_of [OF u])
  also have "\<dots> = (\<lambda>day. (sv_date E day, cell ?m (sv_date E day))) ` ?days" unfolding keys by (rule image_image)
  also have "\<dots> = (\<lambda>day. (sv_date E day, ?f day)) ` ?days" by (intro image_cong) (simp_all only: cell)
  finally have "set ?m = (\<lambda>day. (sv_date E day, ?f day)) ` ?days" .
  moreover have "sorted_wrt (\<lambda>a b. fst a < fst b) (sort_key fst ?m)"
    using u by (intro sort_key_strict) (simp add: unique_key_def)
  ultimately show ?thesis by (simp add: merge_by_day_def)
qed

section \<open>Rankings\<close>

lemma nth_ranks:
  "length (ranks rows) = length rows"
  "i < length rows \<Longrightarrow> ranks rows ! i = \<lparr>rk_rank = of_nat i + 1, rk_address = fst (rows ! i), rk_count = snd (rows ! i)\<rparr>"
  by (simp_all add: ranks_def nth_enumerate_eq split_beta)

lemma ranks_view:
  "map (\<lambda>x. (rk_address x, rk_count x)) (ranks rows) = rows"
  "map rk_rank (ranks rows) = map (\<lambda>i. of_nat (Suc i)) [0..<length (ranks rows)]"
  by (auto intro!: nth_equalityI simp: nth_ranks)

lemma counted_set: "(a, n) \<in> set (counted key rows) \<longleftrightarrow>
    a \<in> key ` set rows \<and> n = int (length (filter (\<lambda>r. key r = a) rows))"
  by (auto simp: counted_def group_count_def)

lemma counted_keys: "distinct (map fst (counted key rows))" "fst ` set (counted key rows) = key ` set rows"
  "length (counted key rows) = card (key ` set rows)"
proof -
  have m: "map fst (counted key rows) = remdups (map key rows)"
    by (simp add: counted_def comp_def group_count_fst)
  then show "distinct (map fst (counted key rows))" by simp
  show "fst ` set (counted key rows) = key ` set rows" using arg_cong [OF m, of set] by simp
  show "length (counted key rows) = card (key ` set rows)"
    using arg_cong [OF m, of length] by (simp add: length_remdups_card_conv)
qed

text \<open>The head of a ranking: as long as there are candidates, in order, and nothing left out ranks higher.\<close>

lemma top_rows_correct:
  fixes E :: "('k :: linorder) stats_env"
  assumes "inj (collate (sv_api E))" and "distinct (map fst cs)"
  shows "length (top_rows E n cs) = min n (length cs) \<and> set (top_rows E n cs) \<subseteq> set cs \<and>
    distinct (map fst (top_rows E n cs)) \<and>
    sorted_wrt (\<lambda>x y. snd y < snd x \<or> (snd x = snd y \<and> collate (sv_api E) (fst x) < collate (sv_api E) (fst y))) (top_rows E n cs) \<and>
    (\<forall>c \<in> set cs. c \<notin> set (top_rows E n cs) \<longrightarrow> (\<forall>x \<in> set (top_rows E n cs). snd c \<le> snd x))"
proof -
  let ?k = "\<lambda>c. (- snd c, collate (sv_api E) (fst c))" and ?ys = "sort_key (\<lambda>(key, c). (- c, collate (sv_api E) key)) cs"
  have k: "(\<lambda>(key, c). (- c, collate (sv_api E) key)) = ?k" by auto
  have "inj_on ?k (set cs)"
    using assms by (auto simp: inj_on_def distinct_map dest: injD)
  then have dk: "distinct (map ?k cs)" using assms(2) by (simp add: distinct_map)
  have srt: "sorted_wrt (\<lambda>x y. ?k x < ?k y) ?ys"
    using sort_key_strict [OF dk] by (simp add: k)
  have df: "distinct (map fst ?ys)" using assms(2) by (simp add: distinct_map_sort_key)
  have "snd c \<le> snd x" if "c \<in> set (drop n ?ys)" "x \<in> set (take n ?ys)" for c x
  proof -
    have "sorted_wrt (\<lambda>x y. ?k x < ?k y) (take n ?ys @ drop n ?ys)" using srt by simp
    then have "?k x < ?k c" using that unfolding sorted_wrt_append by blast
    then show ?thesis by auto
  qed
  moreover have "c \<in> set (drop n ?ys)" if "c \<in> set cs" "c \<notin> set (take n ?ys)" for c
    using that by (metis Un_iff append_take_drop_id set_append set_sort)
  moreover have "sorted_wrt (\<lambda>x y. snd y < snd x \<or> (snd x = snd y \<and> collate (sv_api E) (fst x) < collate (sv_api E) (fst y))) (take n ?ys)"
    using sorted_wrt_take [OF srt] by (rule sorted_wrt_mono_rel [rotated]) (auto simp: less_prod_def)
  moreover have "set (take n ?ys) \<subseteq> set cs" using set_take_subset [of n ?ys] by simp
  ultimately show ?thesis using df by (auto simp: top_rows_def take_map [symmetric])
qed

section \<open>Properties\<close>

text \<open>C32. The drip series: one point for each day of the window on which the faucet paid, in ascending order of
  the date, with the number of transfers the faucet sent and the number of recorded bot drips of that
  day, and their sum; days without any drip are left out and no drip of the window is lost. The bot pays
  from the same wallet, so the transfer of a bot drip is in both numbers. Needs only that different days
  have different texts.\<close>

theorem drips_daily_correct:
  assumes "fst (compute_drips_daily E now days faucet p) = Inr r"
    and "inj_on (sv_date E) (range trunc_day)"
  shows "let since = days_ago now days; ws = web_drip_times faucet (p_db p); bs = map bd_dripped_at (bot_drips (p_db p)) in
    sorted_wrt (\<lambda>a b. dd_date a < dd_date b) (ddr_points r) \<and>
    set (ddr_points r) =
      (\<lambda>day. let w = int (length (filter (\<lambda>t. since \<le> t \<and> trunc_day t = day) ws));
                 b = int (length (filter (\<lambda>t. since \<le> t \<and> trunc_day t = day) bs))
             in \<lparr>dd_date = sv_date E day, dd_web = w, dd_bot = b, dd_total = w + b\<rparr>) `
        trunc_day ` {t \<in> set ws \<union> set bs. since \<le> t}"
proof -
  let ?ws = "web_drip_times faucet (p_db p)" and ?bs = "map bd_dripped_at (bot_drips (p_db p))" and ?since = "days_ago now days"
  let ?point = "\<lambda>(date, web, bot). \<lparr>dd_date = date, dd_web = web, dd_bot = bot, dd_total = web + bot\<rparr>"
  have f1: "\<not> pg_fault (ae_pg (sv_api E)) (p_seq p)"
    using assms(1) by (auto simp: compute_drips_daily_def op_bind_def Let_def)
  have f2: "\<not> pg_fault (ae_pg (sv_api E)) (Suc (p_seq p))"
    using assms(1) f1 by (cases "pg_fault (ae_pg (sv_api E)) (Suc (p_seq p))") (auto simp: compute_drips_daily_def op_bind_def Let_def)
  have r: "ddr_points r = map ?point (merge_by_day E (daily ?since ?ws) (daily ?since ?bs))"
    using assms(1) f1 f2 by (auto simp: compute_drips_daily_def op_bind_def Let_def)
  have date: "dd_date (?point e) = fst e" for e by (cases e) auto
  show ?thesis
    using merge_by_day_correct [OF assms(2), of ?since ?ws ?bs]
    by (simp add: r Let_def sorted_wrt_map date image_image)
qed

definition paid_day :: "nat \<Rightarrow> bot_drip_row" where
  "paid_day n = \<lparr>bd_address = ''lig1a'', bd_discord_user_id = ''7'', bd_amount_nano = 5, bd_tx_hash = ''ltx1'', bd_tier = ''base'',
     bd_server_tenure_days = None, bd_account_age_days = None, bd_dripped_at = int n * MICROS_PER_DAY + 17\<rparr>"

theorem drips_daily_correct_witness:
  "\<exists>r. fst (compute_drips_daily plain_stats (5 * MICROS_PER_DAY) 3 ''lig1f''
       \<lparr>p_db = empty_db\<lparr>bot_drips := [paid_day 1, paid_day 3, paid_day 3, paid_day 4]\<rparr>, p_seq = 0\<rparr>) = Inr r \<and>
     set (ddr_points r) = {\<lparr>dd_date = ''3'', dd_web = 0, dd_bot = 2, dd_total = 2\<rparr>,
                           \<lparr>dd_date = ''4'', dd_web = 0, dd_bot = 1, dd_total = 1\<rparr>}"
proof -
  let ?p = "\<lparr>p_db = empty_db\<lparr>bot_drips := [paid_day 1, paid_day 3, paid_day 3, paid_day 4]\<rparr>, p_seq = 0\<rparr>"
  obtain r where r: "fst (compute_drips_daily plain_stats (5 * MICROS_PER_DAY) 3 ''lig1f'' ?p) = Inr r"
    by (simp add: compute_drips_daily_def op_bind_def Let_def)
  have ws: "web_drip_times ''lig1f'' (p_db ?p) = []" by (simp add: web_drip_times_def empty_db_def)
  have shown: "show_int 3 = ''3''" "show_int 4 = ''4''" by code_simp+
  have times: "map bd_dripped_at (bot_drips (p_db ?p)) = [86400000017, 259200000017, 259200000017, 345600000017]"
    by (simp add: paid_day_def MICROS_PER_DAY_def)
  have since: "days_ago (5 * MICROS_PER_DAY) 3 = 172800000000" by (simp add: days_ago_def MICROS_PER_DAY_def)
  have days: "{t \<in> set [] \<union> set [86400000017, 259200000017, 259200000017, 345600000017 :: int]. 172800000000 \<le> t} =
      {259200000017, 345600000017}" by auto
  show ?thesis
    using drips_daily_correct [OF r plain_dates] r unfolding ws Let_def times since days
    by (simp add: shown trunc_day_def MICROS_PER_DAY_def)
qed

text \<open>C33. The leaderboard of attesters: as many rows as were asked for or as there are submitters, ranked from
  one, each with the exact number of its attestations, in descending order of the number and by
  address within a number; no submitter that was left out has more attestations than one that is
  listed.\<close>

theorem top_attesters_correct:
  fixes E :: "('k :: linorder) stats_env"
  assumes "fst (compute_top_attesters E n p) = Inr b" and "inj (collate (sv_api E))"
  shows "let subs = at_submitter ` set (attestations (p_db p));
      count = (\<lambda>a. int (length (filter (\<lambda>r. at_submitter r = a) (attestations (p_db p))))) in
    length (lb_rows b) = min n (card subs) \<and>
    map rk_rank (lb_rows b) = map (\<lambda>i. of_nat (Suc i)) [0..<length (lb_rows b)] \<and>
    (\<forall>x \<in> set (lb_rows b). rk_address x \<in> subs \<and> rk_count x = count (rk_address x)) \<and>
    sorted_wrt (\<lambda>x y. rk_count y < rk_count x \<or> (rk_count x = rk_count y \<and>
       collate (sv_api E) (rk_address x) < collate (sv_api E) (rk_address y))) (lb_rows b) \<and>
    (\<forall>a \<in> subs. a \<notin> rk_address ` set (lb_rows b) \<longrightarrow> (\<forall>x \<in> set (lb_rows b). count a \<le> rk_count x))"
proof -
  let ?cs = "counted at_submitter (attestations (p_db p))"
  let ?count = "\<lambda>a. int (length (filter (\<lambda>r. at_submitter r = a) (attestations (p_db p))))"
  define rows where "rows = top_rows E n ?cs"
  have b: "lb_rows b = ranks rows"
    using assms(1) by (cases "pg_fault (ae_pg (sv_api E)) (p_seq p)")
      (auto simp: compute_top_attesters_def yielding_simps leaderboard_def rows_def)
  note top = top_rows_correct [OF assms(2) counted_keys(1), of n at_submitter "attestations (p_db p)", folded rows_def]
  let ?f = "\<lambda>x. (rk_address x, rk_count x)"
  have pairs: "rows = map ?f (lb_rows b)" by (simp add: b ranks_view(1))
  note top' = top [unfolded pairs]
  have "rk_address x \<in> at_submitter ` set (attestations (p_db p)) \<and> rk_count x = ?count (rk_address x)"
    if "x \<in> set (lb_rows b)" for x
  proof -
    have "(rk_address x, rk_count x) \<in> set ?cs" using top' that by auto
    then show ?thesis by (simp add: counted_set)
  qed
  moreover have "?count a \<le> rk_count x"
    if "a \<in> at_submitter ` set (attestations (p_db p))" "a \<notin> rk_address ` set (lb_rows b)" "x \<in> set (lb_rows b)" for a x
  proof -
    have "(a, ?count a) \<in> set ?cs" using that by (simp add: counted_set)
    moreover have "(a, ?count a) \<notin> set (map ?f (lb_rows b))" using that by auto
    ultimately show ?thesis using top' that(3) by fastforce
  qed
  ultimately show ?thesis
    using top' ranks_view(2) [of rows] by (simp add: b [symmetric] Let_def counted_keys(3) sorted_wrt_map)
qed

definition attested_by :: "string \<Rightarrow> attestation_row" where
  "attested_by a = \<lparr>at_id = ''x'', at_schema_id = ''s'', at_payload_hash = ''h'', at_submitter = a, at_submitter_pubkey = None,
     at_slot = 1, at_tx = ''t'', at_timestamp = 0, at_signature_count = 1, at_indexed_at = 0\<rparr>"

lemma attested_by_submitter [simp]: "at_submitter (attested_by a) = a"
  by (simp add: attested_by_def)

theorem top_attesters_correct_witness:
  "\<exists>b. fst (compute_top_attesters plain_stats 1
       \<lparr>p_db = empty_db\<lparr>attestations := [attested_by ''a'', attested_by ''b'', attested_by ''b'']\<rparr>, p_seq = 0\<rparr>) = Inr b \<and>
     map (\<lambda>x. (rk_rank x, rk_address x, rk_count x)) (lb_rows b) = [(1, ''b'', 2)]"
proof -
  let ?p = "\<lparr>p_db = empty_db\<lparr>attestations := [attested_by ''a'', attested_by ''b'', attested_by ''b'']\<rparr>, p_seq = 0\<rparr>"
  have inj: "inj (collate (sv_api plain_stats))" by simp
  obtain b where b: "fst (compute_top_attesters plain_stats 1 ?p) = Inr b"
    by (simp add: compute_top_attesters_def yielding_simps)
  have subs: "at_submitter ` set (attestations (p_db ?p)) = {''a'', ''b''}" by (simp add: attested_by_def)
  note top = top_attesters_correct [OF b inj, unfolded subs Let_def]
  have "length (lb_rows b) = 1" using top by simp
  then obtain x where x: "lb_rows b = [x]" by (auto simp: length_Suc_conv)
  have n: "length (filter (\<lambda>r. at_submitter r = ''a'') (attestations (p_db ?p))) = 1"
      "length (filter (\<lambda>r. at_submitter r = ''b'') (attestations (p_db ?p))) = 2"
    by (simp_all add: attested_by_def)
  have rank: "rk_rank x = 1" using top by (simp add: x)
  have addr: "rk_address x = ''b''"
  proof (rule ccontr)
    assume other: "rk_address x \<noteq> ''b''"
    then have "rk_address x = ''a''" "rk_count x = 1" using top n by (simp_all add: x)
    moreover have "int (length (filter (\<lambda>r. at_submitter r = ''b'') (attestations (p_db ?p)))) \<le> rk_count x"
      using top other by (elim conjE) (auto simp: x simp del: filter.simps)
    ultimately show False unfolding n by simp
  qed
  have "rk_count x = 2" using top n unfolding x by (simp add: addr)
  then show ?thesis using b rank addr by (simp add: x)
qed

end
