(* ===== verification/Wire_Codec.thy ===== *)
theory Wire_Codec
  imports Client Db_Slots
begin

text \<open>
  The other half of the wire types, \<^verbatim>\<open>crates/types/src/lib.rs\<close>: the records of the module and rollup
  routes with their decoders, and the serialisers of all record types, with the round trip of each. The
  library documents these shapes for clients of the node; the service itself decodes the ledger types and
  stores the serialisation of a slot in its table.
\<close>

section \<open>Records of the module routes\<close>

record sync_status =
  sy_synced :: bool
  sy_synced_da_height :: "u64 option"
  sy_target_da_height :: "u64 option"

record chain_schema =
  cs_id :: string
  cs_owner :: string
  cs_name :: string
  cs_version :: nat
  cs_attestor_set :: string
  cs_fee_routing_bps :: nat
  cs_fee_routing_addr :: "string option"

record chain_attestor_set =
  ca_id :: string
  ca_members :: "string list"
  ca_threshold :: nat

record attestor_signature =
  ag_pubkey :: string
  ag_sig :: string

record chain_attestation =
  cx_schema_id :: string
  cx_payload_hash :: string
  cx_submitter :: string
  cx_timestamp :: u64
  cx_signatures :: "attestor_signature list"

record bank_balance =
  bb_amount :: string
  bb_token_id :: string

record ledger_tx_response =
  tr_hash :: string
  tr_slot_number :: "u64 option"
  tr_status :: "string option"
  tr_raw :: "(string \<times> json) list"

text \<open>
  An optional field without a default may be missing from an object but not from the array form of a
  struct.
\<close>

definition complete :: "nat \<Rightarrow> json \<Rightarrow> bool" where
  "complete n v \<longleftrightarrow> (case v of JArray vs \<Rightarrow> length vs = n | _ \<Rightarrow> True)"

definition de_sync_status :: "json \<Rightarrow> sync_status option" where
  "de_sync_status v =
     (case struct_fields [''synced'', ''synced_da_height'', ''target_da_height''] v of
        Some [f0, f1, f2] \<Rightarrow>
          do {
            x0 \<leftarrow> de_field de_bool f0;
            x1 \<leftarrow> de_field_or None (de_option de_u64) f1;
            x2 \<leftarrow> de_field_or None (de_option de_u64) f2;
            Some \<lparr>sy_synced = x0, sy_synced_da_height = x1, sy_target_da_height = x2\<rparr>
          }
      | _ \<Rightarrow> None)"

definition de_chain_schema :: "json \<Rightarrow> chain_schema option" where
  "de_chain_schema v =
     (if \<not> complete 7 v then None else
     (case struct_fields [''id'', ''owner'', ''name'', ''version'', ''attestor_set'', ''fee_routing_bps'', ''fee_routing_addr''] v of
        Some [f0, f1, f2, f3, f4, f5, f6] \<Rightarrow>
          do {
            x0 \<leftarrow> de_field de_string f0;
            x1 \<leftarrow> de_field de_string f1;
            x2 \<leftarrow> de_field de_string f2;
            x3 \<leftarrow> de_field (de_uint (2 ^ 32)) f3;
            x4 \<leftarrow> de_field de_string f4;
            x5 \<leftarrow> de_field (de_uint 65536) f5;
            x6 \<leftarrow> de_field_or None (de_option de_string) f6;
            Some \<lparr>cs_id = x0, cs_owner = x1, cs_name = x2, cs_version = x3, cs_attestor_set = x4, cs_fee_routing_bps = x5, cs_fee_routing_addr = x6\<rparr>
          }
      | _ \<Rightarrow> None))"

definition de_chain_attestor_set :: "json \<Rightarrow> chain_attestor_set option" where
  "de_chain_attestor_set v =
     (case struct_fields [''id'', ''members'', ''threshold''] v of
        Some [f0, f1, f2] \<Rightarrow>
          do {
            x0 \<leftarrow> de_field de_string f0;
            x1 \<leftarrow> de_field (de_vec de_string) f1;
            x2 \<leftarrow> de_field (de_uint (2 ^ 32)) f2;
            Some \<lparr>ca_id = x0, ca_members = x1, ca_threshold = x2\<rparr>
          }
      | _ \<Rightarrow> None)"

definition de_attestor_signature :: "json \<Rightarrow> attestor_signature option" where
  "de_attestor_signature v =
     (case struct_fields [''pubkey'', ''sig''] v of
        Some [f0, f1] \<Rightarrow>
          do {
            x0 \<leftarrow> de_field de_string f0;
            x1 \<leftarrow> de_field de_string f1;
            Some \<lparr>ag_pubkey = x0, ag_sig = x1\<rparr>
          }
      | _ \<Rightarrow> None)"

definition de_chain_attestation :: "json \<Rightarrow> chain_attestation option" where
  "de_chain_attestation v =
     (case struct_fields [''schema_id'', ''payload_hash'', ''submitter'', ''timestamp'', ''signatures''] v of
        Some [f0, f1, f2, f3, f4] \<Rightarrow>
          do {
            x0 \<leftarrow> de_field de_string f0;
            x1 \<leftarrow> de_field de_string f1;
            x2 \<leftarrow> de_field de_string f2;
            x3 \<leftarrow> de_field de_u64 f3;
            x4 \<leftarrow> de_field (de_vec de_attestor_signature) f4;
            Some \<lparr>cx_schema_id = x0, cx_payload_hash = x1, cx_submitter = x2, cx_timestamp = x3, cx_signatures = x4\<rparr>
          }
      | _ \<Rightarrow> None)"

definition de_bank_balance :: "json \<Rightarrow> bank_balance option" where
  "de_bank_balance v =
     (case struct_fields [''amount'', ''tokenId''] v of
        Some [f0, f1] \<Rightarrow>
          do {
            x0 \<leftarrow> de_field de_string f0;
            x1 \<leftarrow> de_field de_string f1;
            Some \<lparr>bb_amount = x0, bb_token_id = x1\<rparr>
          }
      | _ \<Rightarrow> None)"

definition de_ledger_tx_response :: "json \<Rightarrow> ledger_tx_response option" where
  "de_ledger_tx_response v =
     (case flat_fields [''hash'', ''slot_number'', ''status''] v of
        Some ([f0, f1, f2], rest) \<Rightarrow>
          do {
            x0 \<leftarrow> de_field de_string f0;
            x1 \<leftarrow> de_field_or None (de_option de_u64) f1;
            x2 \<leftarrow> de_field_or None (de_option de_string) f2;
            Some \<lparr>tr_hash = x0, tr_slot_number = x1, tr_status = x2, tr_raw = rest\<rparr>
          }
      | _ \<Rightarrow> None)"

text \<open>The envelopes of the routes are structs with one field.\<close>

definition de_schema_response :: "json \<Rightarrow> chain_schema option" where
  "de_schema_response = de_variant ''schema'' de_chain_schema"

definition de_attestor_set_response :: "json \<Rightarrow> chain_attestor_set option" where
  "de_attestor_set_response = de_variant ''attestor_set'' de_chain_attestor_set"

definition de_attestation_response :: "json \<Rightarrow> chain_attestation option" where
  "de_attestation_response = de_variant ''attestation'' de_chain_attestation"

definition de_bank_balance_response :: "json \<Rightarrow> bank_balance option" where
  "de_bank_balance_response = de_variant ''data'' de_bank_balance"

section \<open>Serialisers\<close>

definition ser_envelope :: "string \<Rightarrow> ('a \<Rightarrow> json) \<Rightarrow> 'a \<Rightarrow> json" where
  "ser_envelope name s x = JObject [(name, s x)]"

definition ser_sync_status :: "sync_status \<Rightarrow> json" where
  "ser_sync_status x =
     JObject [(''synced'', JBool (sy_synced x)),
       (''synced_da_height'', json_option (\<lambda>n. JInt (uint n)) (sy_synced_da_height x)),
       (''target_da_height'', json_option (\<lambda>n. JInt (uint n)) (sy_target_da_height x))]"

definition ser_chain_schema :: "chain_schema \<Rightarrow> json" where
  "ser_chain_schema x =
     JObject [(''id'', JString (cs_id x)),
       (''owner'', JString (cs_owner x)),
       (''name'', JString (cs_name x)),
       (''version'', JInt (int (cs_version x))),
       (''attestor_set'', JString (cs_attestor_set x)),
       (''fee_routing_bps'', JInt (int (cs_fee_routing_bps x))),
       (''fee_routing_addr'', json_option JString (cs_fee_routing_addr x))]"

definition ser_chain_attestor_set :: "chain_attestor_set \<Rightarrow> json" where
  "ser_chain_attestor_set x =
     JObject [(''id'', JString (ca_id x)),
       (''members'', JArray (map JString (ca_members x))),
       (''threshold'', JInt (int (ca_threshold x)))]"

definition ser_attestor_signature :: "attestor_signature \<Rightarrow> json" where
  "ser_attestor_signature x =
     JObject [(''pubkey'', JString (ag_pubkey x)),
       (''sig'', JString (ag_sig x))]"

definition ser_chain_attestation :: "chain_attestation \<Rightarrow> json" where
  "ser_chain_attestation x =
     JObject [(''schema_id'', JString (cx_schema_id x)),
       (''payload_hash'', JString (cx_payload_hash x)),
       (''submitter'', JString (cx_submitter x)),
       (''timestamp'', JInt (uint (cx_timestamp x))),
       (''signatures'', JArray (map ser_attestor_signature (cx_signatures x)))]"

definition ser_bank_balance :: "bank_balance \<Rightarrow> json" where
  "ser_bank_balance x =
     JObject [(''amount'', JString (bb_amount x)),
       (''tokenId'', JString (bb_token_id x))]"

definition ser_ledger_tx_response :: "ledger_tx_response \<Rightarrow> json" where
  "ser_ledger_tx_response x =
     JObject ((''hash'', JString (tr_hash x)) #
       (''slot_number'', json_option (\<lambda>n. JInt (uint n)) (tr_slot_number x)) #
       (''status'', json_option JString (tr_status x)) #
       tr_raw x)"

definition ser_module_ref :: "module_ref \<Rightarrow> json" where
  "ser_module_ref x =
     JObject [(''type'', JString (mr_type x)),
       (''name'', JString (mr_name x))]"

definition ser_fully_baked_tx :: "fully_baked_tx \<Rightarrow> json" where
  "ser_fully_baked_tx x =
     JObject [(''data'', JString (fb_data x)),
       (''sequencing_data'', json_option JString (fb_sequencing_data x))]"

definition ser_tx_receipt :: "tx_receipt \<Rightarrow> json" where
  "ser_tx_receipt x =
     JObject [(''result'', JString (rp_result x)),
       (''data'', rp_data x)]"

definition ser_ledger_event :: "ledger_event \<Rightarrow> json" where
  "ser_ledger_event x =
     JObject [(''type'', JString (ev_type x)),
       (''number'', JInt (uint (ev_number x))),
       (''key'', JString (ev_key x)),
       (''value'', ev_value x),
       (''module'', ser_module_ref (ev_module x)),
       (''tx_hash'', JString (ev_tx_hash x))]"

definition ser_ledger_tx :: "ledger_tx \<Rightarrow> json" where
  "ser_ledger_tx x =
     JObject [(''type'', JString (lt_type x)),
       (''hash'', JString (lt_hash x)),
       (''number'', JInt (uint (lt_number x))),
       (''event_range'', ser_uint64_range (lt_event_range x)),
       (''body'', ser_fully_baked_tx (lt_body x)),
       (''receipt'', ser_tx_receipt (lt_receipt x)),
       (''events'', JArray (map ser_ledger_event (lt_events x))),
       (''batch_number'', JInt (uint (lt_batch_number x)))]"

definition ser_ledger_batch :: "ledger_batch \<Rightarrow> json" where
  "ser_ledger_batch x =
     JObject ((''type'', JString (lb_type x)) #
       (''number'', JInt (uint (lb_number x))) #
       (''hash'', JString (lb_hash x)) #
       (''slot_number'', JInt (uint (lb_slot_number x))) #
       (''tx_range'', ser_uint64_range (lb_tx_range x)) #
       lb_raw x)"

definition ser_rollup_info :: "rollup_info \<Rightarrow> json" where
  "ser_rollup_info x =
     JObject [(''chain_id'', JString (ri_chain_id x)),
       (''chain_hash'', JString (ri_chain_hash x)),
       (''version'', JString (ri_version x))]"

section \<open>Round trips\<close>

named_theorems roundtrip "a decoder inverts a serialiser"

lemma de_string_JString [roundtrip]: "de_string (JString s) = Some s"
  by simp

lemma de_u64_uint [roundtrip]: "de_u64 (JInt (uint x)) = Some x"
proof -
  have "uint x < 2 ^ 64" using uint_lt2p [of x] by simp
  then show ?thesis by (simp add: de_u64_def nat_uint_eq)
qed

lemma de_uint_int [roundtrip]: "n < b \<Longrightarrow> de_uint b (JInt (int n)) = Some n"
  by simp

lemma de_option_json_option [roundtrip]:
  assumes "\<And>a. x = Some a \<Longrightarrow> d (s a) = Some a \<and> s a \<noteq> JNull"
  shows "de_option d (json_option s x) = Some x"
  using assms by (cases x) (auto simp: de_option_def json_option_def split: json.split)

lemma de_all_map [roundtrip]: "(\<And>x. x \<in> set xs \<Longrightarrow> d (s x) = Some x) \<Longrightarrow> de_all d (map s xs) = Some xs"
  by (induction xs) auto

lemma de_option_text [roundtrip]: "de_option de_string (json_option JString x) = Some x"
  by (rule de_option_json_option) simp

lemma de_option_number [roundtrip]: "de_option de_u64 (json_option (\<lambda>n. JInt (uint n)) x) = Some x"
  by (rule de_option_json_option) (simp add: roundtrip)

lemma de_vec_text [roundtrip]: "de_all de_string (map JString xs) = Some xs"
  by (rule de_all_map) simp

lemma de_envelope [roundtrip]: "d (s x) = Some x \<Longrightarrow> de_variant name d (ser_envelope name s x) = Some x"
  by (simp add: de_variant_def ser_envelope_def)

lemma range_roundtrip [roundtrip]: "de_uint64_range (ser_uint64_range r) = Some r"
  by (simp add: de_uint64_range_def ser_uint64_range_def roundtrip)

lemma de_option_range [roundtrip]: "de_option de_uint64_range (json_option ser_uint64_range x) = Some x"
  by (rule de_option_json_option) (simp add: range_roundtrip, simp add: ser_uint64_range_def)

lemma ledger_part_roundtrips [roundtrip]:
  "de_module_ref (ser_module_ref m) = Some m"
  "de_fully_baked_tx (ser_fully_baked_tx b) = Some b"
  "de_tx_receipt (ser_tx_receipt r) = Some r"
  "de_rollup_info (ser_rollup_info i) = Some i"
  by (simp_all add: de_module_ref_def ser_module_ref_def de_fully_baked_tx_def ser_fully_baked_tx_def de_tx_receipt_def
      ser_tx_receipt_def de_rollup_info_def ser_rollup_info_def roundtrip)

lemma event_roundtrip [roundtrip]: "de_ledger_event (ser_ledger_event e) = Some e"
  by (simp add: de_ledger_event_def ser_ledger_event_def roundtrip)

lemma de_events [roundtrip]: "de_all de_ledger_event (map ser_ledger_event es) = Some es"
  by (rule de_all_map) (rule event_roundtrip)

lemma tx_roundtrip [roundtrip]: "de_ledger_tx (ser_ledger_tx t) = Some t"
  by (simp add: de_ledger_tx_def ser_ledger_tx_def roundtrip)

lemma module_roundtrips [roundtrip]:
  "de_sync_status (ser_sync_status y) = Some y"
  "cs_version x < 2 ^ 32 \<Longrightarrow> cs_fee_routing_bps x < 65536 \<Longrightarrow> de_chain_schema (ser_chain_schema x) = Some x"
  "ca_threshold a < 2 ^ 32 \<Longrightarrow> de_chain_attestor_set (ser_chain_attestor_set a) = Some a"
  "de_attestor_signature (ser_attestor_signature g) = Some g"
  "de_bank_balance (ser_bank_balance b) = Some b"
  by (simp_all add: de_sync_status_def ser_sync_status_def de_chain_schema_def ser_chain_schema_def complete_def
      de_chain_attestor_set_def ser_chain_attestor_set_def de_attestor_signature_def ser_attestor_signature_def
      de_bank_balance_def ser_bank_balance_def roundtrip)

lemma de_signatures [roundtrip]: "de_all de_attestor_signature (map ser_attestor_signature gs) = Some gs"
  by (rule de_all_map) (rule module_roundtrips)

lemma attestation_roundtrip [roundtrip]: "de_chain_attestation (ser_chain_attestation x) = Some x"
  by (simp add: de_chain_attestation_def ser_chain_attestation_def roundtrip)

text \<open>The members a flattened struct keeps are the ones it does not name.\<close>

definition unnamed :: "string list \<Rightarrow> (string \<times> json) list \<Rightarrow> bool" where
  "unnamed names raw \<longleftrightarrow> fst ` set raw \<inter> set names = {}"

lemma filter_raw: "unnamed names raw \<Longrightarrow> filter (\<lambda>(k, _). k \<notin> set names) raw = raw"
  unfolding unnamed_def by (rule filter_True) force

abbreviation slot_names :: "string list" where
  "slot_names \<equiv> [''number'', ''hash'', ''prev_hash'', ''timestamp'', ''state_root'', ''batch_count'', ''tx_count'',
     ''batch_range'', ''finality_status'']"

lemma slot_roundtrip:
  assumes "unnamed slot_names (sl_raw s)"
  shows "de_slot_response (ser_slot_response s) = Some s"
  using filter_raw [OF assms]
  by (simp add: de_slot_response_def ser_slot_response_def flat_fields_def as_object_def roundtrip cong: filter_cong)

lemma decoded_slot_unnamed:
  assumes "de_slot_response v = Some s"
  shows "unnamed slot_names (sl_raw s)"
proof -
  obtain kvs where v: "v = JObject kvs"
    using assms by (auto simp: de_slot_response_def flat_fields_def as_object_def split: json.splits)
  have "sl_raw s = filter (\<lambda>(key, _). key \<notin> set slot_names) kvs"
    using assms by (auto simp: v de_slot_response_def flat_fields_def as_object_def bind_eq_Some_conv simp del: set_simps)
  then show ?thesis by (auto simp: unnamed_def)
qed

abbreviation batch_names :: "string list" where
  "batch_names \<equiv> [''type'', ''number'', ''hash'', ''slot_number'', ''tx_range'']"

abbreviation tx_response_names :: "string list" where
  "tx_response_names \<equiv> [''hash'', ''slot_number'', ''status'']"

lemma batch_roundtrip:
  assumes "unnamed batch_names (lb_raw b)"
  shows "de_ledger_batch (ser_ledger_batch b) = Some b"
  using filter_raw [OF assms]
  by (simp add: de_ledger_batch_def ser_ledger_batch_def flat_fields_def as_object_def roundtrip cong: filter_cong)

lemma tx_response_roundtrip:
  assumes "unnamed tx_response_names (tr_raw x)"
  shows "de_ledger_tx_response (ser_ledger_tx_response x) = Some x"
  using filter_raw [OF assms]
  by (simp add: de_ledger_tx_response_def ser_ledger_tx_response_def flat_fields_def as_object_def roundtrip
      cong: filter_cong)

section \<open>Properties\<close>

text \<open>C36. Nothing the node said about a slot is lost: after a slot whose answer was decoded has been written, by
  an insert or over an older row, the stored document decodes to that very slot, with the members the
  types do not know included. A JSONB column is taken to give back the value written to it.\<close>

theorem slot_raw_lossless:
  assumes "de_slot_response body = Some slot" and "upsert_slot P slot proposer da p = (Inr (), p')"
  shows "\<exists>r. slot_of (p_db p') (as_i64 (sl_number slot)) = Some r \<and> de_slot_response (s_raw r) = Some slot"
proof (rule upsert_slot_cases [of P slot proposer da p])
  fix t p1 d
  assume 1: "upsert_slot P slot proposer da p = (Inr (), p1)" "p_db p1 = d"
    and d: "upsert_slot_stmt P slot (fst (derive_prev_hash P slot p)) proposer da t (p_db p) = Inr (d, ())"
  obtain r where r: "slot_of d (as_i64 (sl_number slot)) = Some r" "s_raw r = ser_slot_response slot"
    using slot_of_upsert [OF d, of "as_i64 (sl_number slot)"]
    by (auto simp: new_slot_row_def merge_slot_row_def split: option.splits)
  then show ?thesis using 1 assms(2) slot_roundtrip [OF decoded_slot_unnamed [OF assms(1)]] by auto
qed (use assms(2) in simp)

theorem slot_raw_lossless_witness:
  "\<exists>slot p' r. de_slot_response (JObject [(''number'', JInt 5), (''hash'', JString ''h''), (''da'', JInt 7)]) = Some slot \<and>
     upsert_slot calm_pg slot None None \<lparr>p_db = empty_db, p_seq = 0\<rparr> = (Inr (), p') \<and>
     slot_of (p_db p') 5 = Some r \<and> de_slot_response (s_raw r) = Some slot \<and> sl_raw slot = [(''da'', JInt 7)]"
proof -
  let ?body = "JObject [(''number'', JInt 5), (''hash'', JString ''h''), (''da'', JInt 7)]"
  obtain slot where s: "de_slot_response ?body = Some slot" "sl_number slot = 5" "sl_raw slot = [(''da'', JInt 7)]"
    by (simp add: de_slot_response_def flat_fields_def as_object_def de_u64_def)
  have "as_i64 5 = 5" by (simp add: as_i64_def)
  moreover obtain p' where p': "upsert_slot calm_pg slot None None \<lparr>p_db = empty_db, p_seq = 0\<rparr> = (Inr (), p')"
    by (cases "sl_prev_hash slot")
       (auto simp: upsert_slot_def derive_prev_hash_def s exec_def upsert_slot_stmt_def Let_def select_hash_def
         split: prod.splits sum.splits)
  ultimately show ?thesis using slot_raw_lossless [OF s(1) p'] s p' by auto
qed

text \<open>The wire types round-trip: decoding what the library serialises gives the value back, for the ledger
  transactions with their events, the batches and transaction summaries with their catch-all (whose
  members the struct must not name), and the attestation, schema, attestor-set, balance and status
  records in their envelopes, within the widths of their integers.\<close>

lemma wire_roundtrips:
  assumes "unnamed batch_names (lb_raw b)" and "unnamed tx_response_names (tr_raw r)"
    and "cs_version x < 2 ^ 32" and "cs_fee_routing_bps x < 65536" and "ca_threshold a < 2 ^ 32"
  shows "de_ledger_tx (ser_ledger_tx t) = Some t \<and> de_ledger_batch (ser_ledger_batch b) = Some b \<and>
    de_ledger_tx_response (ser_ledger_tx_response r) = Some r \<and> de_sync_status (ser_sync_status y) = Some y \<and>
    de_schema_response (ser_envelope ''schema'' ser_chain_schema x) = Some x \<and>
    de_attestor_set_response (ser_envelope ''attestor_set'' ser_chain_attestor_set a) = Some a \<and>
    de_attestation_response (ser_envelope ''attestation'' ser_chain_attestation n) = Some n \<and>
    de_bank_balance_response (ser_envelope ''data'' ser_bank_balance m) = Some m"
  unfolding de_schema_response_def de_attestor_set_response_def de_attestation_response_def de_bank_balance_response_def
  by (intro conjI tx_roundtrip batch_roundtrip tx_response_roundtrip de_envelope module_roundtrips attestation_roundtrip assms)

end
