(* ===== verification/Bot_Race.thy ===== *)
theory Bot_Race
  imports Bot_Drip
begin

text \<open>
  Overlapping requests to the Discord faucet. The handler of \<^verbatim>\<open>bot_drip.rs\<close> gives up its turn at
  every \<^verbatim>\<open>await\<close>: the two cooldown queries, the submission and the insert. A task is a request
  with the stage its handler has reached, \<open>bot_advance\<close> runs it to the next await, and a schedule says
  whose turn it is. Run without interruption the stages are the handler.
\<close>

section \<open>Stages\<close>

datatype bot_stage =
    Arrived "string option"
  | Authorised
  | AddressClear
  | UserClear
  | Submitted drip_receipt
  | Answered "(bot_error_response, drip_bot_response) result"

record bot_task =
  bt_request :: drip_bot_request
  bt_utc :: "nat \<Rightarrow> time"
  bt_stage :: bot_stage

definition bot_guard :: "config \<Rightarrow> string option \<Rightarrow> drip_bot_request \<Rightarrow> (bot_error_response, unit) result" where
  "bot_guard c secret_header req =
     (case cf_faucet_bot_secret c of
        None \<Rightarrow> Inl (bot_error 503 ''bot endpoint disabled (FAUCET_BOT_SECRET unset)'')
      | Some configured \<Rightarrow>
          (let provided = (case secret_header of Some h \<Rightarrow> h | None \<Rightarrow> []);
               expected = expected_amount c (bq_tier req)
           in if \<not> constant_time_eq (as_bytes provided) (as_bytes configured) then Inl (bot_error 401 ''unauthorized'')
              else if bq_amount_nano req \<noteq> expected
                then Inl (bot_error 400 (''amount '' @ show_nat (bq_amount_nano req) @ '' doesn'' @ CHR 0x27 # ''t match tier '' @
                       CHR 0x27 # tier_as_str (bq_tier req) @ CHR 0x27 # '' configured amount '' @ show_nat expected))
              else Inr ()))"

definition bot_response :: "config \<Rightarrow> (nat \<Rightarrow> time) \<Rightarrow> drip_bot_request \<Rightarrow> drip_receipt \<Rightarrow> drip_bot_response" where
  "bot_response c utc req rc =
     \<lparr>br_address = bq_address req, br_discord_user_id = bq_discord_user_id req, br_tx_hash = rc_tx_hash rc,
      br_amount_nano = rc_amount_nano rc, br_tier = bq_tier req,
      br_next_drip_available_at = utc 4 + as_i64 (of_nat (cf_bot_drip_rate_limit_secs c)) * 1000000\<rparr>"

definition bot_advance ::
  "('key, 'addr) sdk \<Rightarrow> pg \<Rightarrow> config \<Rightarrow> bot_task \<Rightarrow> pool \<times> 'key signer \<Rightarrow> bot_stage \<times> pool \<times> 'key signer" where
  "bot_advance S P c t st =
     (let req = bt_request t; utc = bt_utc t in
      case bt_stage t of
        Arrived h \<Rightarrow> (case bot_guard c h req of Inl e \<Rightarrow> (Answered (Inl e), st) | Inr _ \<Rightarrow> (Authorised, st))
      | Authorised \<Rightarrow>
          (case cooldown_check P c (utc 0) ''address'' (bq_address req) ''address'' (fst st) of
             (Inl e, p') \<Rightarrow> (Answered (Inl e), p', snd st)
           | (Inr _, p') \<Rightarrow> (AddressClear, p', snd st))
      | AddressClear \<Rightarrow>
          (case cooldown_check P c (utc 1) ''discord_user_id'' (bq_discord_user_id req) ''Discord user'' (fst st) of
             (Inl e, p') \<Rightarrow> (Answered (Inl e), p', snd st)
           | (Inr _, p') \<Rightarrow> (UserClear, p', snd st))
      | UserClear \<Rightarrow>
          (case signer_drip S (bq_address req) (bq_amount_nano req) (snd st) of
             (Inl e, sg') \<Rightarrow> (Answered (Inl (map_bot_signer_error e)), fst st, sg')
           | (Inr rc, sg') \<Rightarrow> (Submitted rc, fst st, sg'))
      | Submitted rc \<Rightarrow>
          (Answered (Inr (bot_response c utc req rc)), snd (insert_bot_drip P req (rc_tx_hash rc) utc (fst st)), snd st)
      | Answered r \<Rightarrow> (Answered r, st))"

fun run_bot ::
  "('key, 'addr) sdk \<Rightarrow> pg \<Rightarrow> config \<Rightarrow> nat list \<Rightarrow> bot_task list \<Rightarrow> pool \<times> 'key signer \<Rightarrow> bot_task list \<times> pool \<times> 'key signer" where
  "run_bot S P c [] ts st = (ts, st)"
| "run_bot S P c (i # turns) ts st =
     (if i < length ts
      then case bot_advance S P c (ts ! i) st of (stage, st') \<Rightarrow> run_bot S P c turns (ts[i := (ts ! i)\<lparr>bt_stage := stage\<rparr>]) st'
      else run_bot S P c turns ts st)"

lemma run_bot_append:
  "run_bot S P c (xs @ ys) ts st = (case run_bot S P c xs ts st of (ts', st') \<Rightarrow> run_bot S P c ys ts' st')"
  by (induction xs arbitrary: ts st) (auto split: prod.split)

text \<open>Five turns in a row are the handler.\<close>

lemma drip_bot_stages:
  "drip_bot S P c utc h req (p, sg) =
     (case bot_guard c h req of
        Inl e \<Rightarrow> (Inl e, p, sg)
      | Inr _ \<Rightarrow>
          (case cooldown_check P c (utc 0) ''address'' (bq_address req) ''address'' p of
             (Inl e, p1) \<Rightarrow> (Inl e, p1, sg)
           | (Inr _, p1) \<Rightarrow>
               (case cooldown_check P c (utc 1) ''discord_user_id'' (bq_discord_user_id req) ''Discord user'' p1 of
                  (Inl e, p2) \<Rightarrow> (Inl e, p2, sg)
                | (Inr _, p2) \<Rightarrow> pay_bot S P c utc req (p2, sg))))"
  unfolding drip_bot_def bot_guard_def fst_conv snd_conv Let_def by (simp split: option.split)

lemma run_bot_step:
  "i < length ts \<Longrightarrow> bot_advance S P c (ts ! i) st = (stage, st') \<Longrightarrow>
   run_bot S P c (i # turns) ts st = run_bot S P c turns (ts[i := (ts ! i)\<lparr>bt_stage := stage\<rparr>]) st'"
  by simp

lemma answered_stays:
  "i < length ts \<Longrightarrow> bt_stage (ts ! i) = Answered r \<Longrightarrow> run_bot S P c (replicate n i) ts st = (ts, st)"
proof (induction n)
  case (Suc n)
  have "ts[i := (ts ! i)\<lparr>bt_stage := Answered r\<rparr>] = ts"
    using Suc.prems by (metis bot_task.surjective bot_task.update_convs(3) list_update_id)
  with Suc show ?case by (simp add: bot_advance_def)
qed simp

lemma run_bot_sequential:
  assumes i: "i < length ts" and t: "ts ! i = \<lparr>bt_request = req, bt_utc = utc, bt_stage = Arrived h\<rparr>"
  shows "run_bot S P c [i, i, i, i, i] ts (p, sg) =
    (case drip_bot S P c utc h req (p, sg) of (r, st') \<Rightarrow>
      (ts[i := \<lparr>bt_request = req, bt_utc = utc, bt_stage = Answered r\<rparr>], st'))"
proof -
  let ?t = "\<lambda>stage. \<lparr>bt_request = req, bt_utc = utc, bt_stage = stage\<rparr>"
  have stop: "run_bot S P c (replicate n i) (ts[i := ?t (Answered r)]) st = (ts[i := ?t (Answered r)], st)" for n r st
    using i by (intro answered_stays) simp_all
  note stops = stop [of 0, simplified] stop [of 1, simplified] stop [of 2, simplified numeral_2_eq_2, simplified]
    stop [of 3, simplified numeral_3_eq_3, simplified] stop [of 4, simplified eval_nat_numeral, simplified]
  show ?thesis
  proof (cases "bot_guard c h req")
    case (Inl e)
    then show ?thesis using i t stops by (simp add: drip_bot_stages bot_advance_def)
  next
    case guard: (Inr u)
    obtain a p1 where a: "cooldown_check P c (utc 0) ''address'' (bq_address req) ''address'' p = (a, p1)" by force
    show ?thesis
    proof (cases a)
      case (Inl e)
      then show ?thesis using i t guard a stops by (simp add: drip_bot_stages bot_advance_def)
    next
      case addr: (Inr u)
      obtain b p2 where b: "cooldown_check P c (utc 1) ''discord_user_id'' (bq_discord_user_id req) ''Discord user'' p1 = (b, p2)"
        by force
      obtain x sg' where x: "signer_drip S (bq_address req) (bq_amount_nano req) sg = (x, sg')" by force
      show ?thesis
        using i t guard a addr b x stops
        by (cases b; cases x) (simp_all add: drip_bot_stages bot_advance_def pay_bot_def bot_response_def)
    qed
  qed
qed

section \<open>Overlapping requests\<close>

text \<open>A request whose address and user have no recorded drip passes both checks.\<close>

lemma clear_check:
  assumes "\<not> pg_fault P (p_seq p)" and "\<forall>r \<in> set (bot_drips (p_db p)). bd_address r \<noteq> a \<and> bd_discord_user_id r \<noteq> u"
  shows "cooldown_check P c now ''address'' a lab p = (Inr (), p\<lparr>p_seq := Suc (p_seq p)\<rparr>)"
    "cooldown_check P c now ''discord_user_id'' u lab p = (Inr (), p\<lparr>p_seq := Suc (p_seq p)\<rparr>)"
proof -
  have "filter (\<lambda>r. bd_address r = a \<and> X r) (bot_drips (p_db p)) = []"
    "filter (\<lambda>r. bd_discord_user_id r = u \<and> X r) (bot_drips (p_db p)) = []" for X
    using assms(2) by (auto simp: filter_empty_conv)
  then show "cooldown_check P c now ''address'' a lab p = (Inr (), p\<lparr>p_seq := Suc (p_seq p)\<rparr>)"
    "cooldown_check P c now ''discord_user_id'' u lab p = (Inr (), p\<lparr>p_seq := Suc (p_seq p)\<rparr>)"
    using assms(1) by (simp_all add: cooldown_check_def last_drip_within_window_def exec_def Let_def)
qed

lemma run_checks:
  assumes "\<And>n. \<not> pg_fault P n" and "bot_guard c h req = Inr ()"
    and "\<forall>r \<in> set (bot_drips (p_db p)). bd_address r \<noteq> bq_address req \<and> bd_discord_user_id r \<noteq> bq_discord_user_id req"
    and "i < length ts" and "ts ! i = \<lparr>bt_request = req, bt_utc = utc, bt_stage = Arrived h\<rparr>"
  shows "\<exists>n. run_bot S P c [i, i, i] ts (p, sg) =
    (ts[i := \<lparr>bt_request = req, bt_utc = utc, bt_stage = UserClear\<rparr>], p\<lparr>p_seq := n\<rparr>, sg)"
proof -
  have "cooldown_check P c (utc 0) ''address'' (bq_address req) ''address'' p = (Inr (), p\<lparr>p_seq := Suc (p_seq p)\<rparr>)"
    by (rule clear_check(1) [OF assms(1,3)])
  moreover have "cooldown_check P c (utc 1) ''discord_user_id'' (bq_discord_user_id req) ''Discord user'' (p\<lparr>p_seq := Suc (p_seq p)\<rparr>) =
      (Inr (), p\<lparr>p_seq := Suc (Suc (p_seq p))\<rparr>)"
    using clear_check(2) [of P "p\<lparr>p_seq := Suc (p_seq p)\<rparr>" "bq_address req" "bq_discord_user_id req"] assms(1,3) by simp
  ultimately show ?thesis using assms(2,4,5) by (auto simp: bot_advance_def)
qed

lemma run_pay:
  assumes "\<And>n. \<not> pg_fault P n" and "signer_drip S (bq_address req) (bq_amount_nano req) sg = (Inr rc, sg')"
    and "i < length ts" and "ts ! i = \<lparr>bt_request = req, bt_utc = utc, bt_stage = UserClear\<rparr>"
  shows "\<exists>p'. run_bot S P c [i, i] ts (p, sg) =
      (ts[i := \<lparr>bt_request = req, bt_utc = utc, bt_stage = Answered (Inr (bot_response c utc req rc))\<rparr>], p', sg') \<and>
    bot_drips (p_db p') = bot_drips (p_db p) @ [new_bot_drip_row req (rc_tx_hash rc) utc (pg_now P (p_seq p))]"
  using assms by (simp add: bot_advance_def insert_bot_drip_def exec_def Let_def)

text \<open>Everybody checks, then everybody pays.\<close>

definition overlap :: "nat \<Rightarrow> nat list" where
  "overlap k = concat (map (\<lambda>i. [i, i, i]) [0..<k]) @ concat (map (\<lambda>i. [i, i]) [0..<k])"

lemma all_check:
  assumes "\<And>n. \<not> pg_fault P n" and "bot_guard c h req = Inr ()"
    and "\<forall>r \<in> set (bot_drips (p_db p)). bd_address r \<noteq> bq_address req \<and> bd_discord_user_id r \<noteq> bq_discord_user_id req"
    and "j \<le> k"
  shows "\<exists>n. run_bot S P c (concat (map (\<lambda>i. [i, i, i]) [0..<j]))
      (replicate k \<lparr>bt_request = req, bt_utc = utc, bt_stage = Arrived h\<rparr>) (p, sg) =
    (replicate j \<lparr>bt_request = req, bt_utc = utc, bt_stage = UserClear\<rparr> @
     replicate (k - j) \<lparr>bt_request = req, bt_utc = utc, bt_stage = Arrived h\<rparr>, p\<lparr>p_seq := n\<rparr>, sg)"
  using assms(4)
proof (induction j)
  case 0
  then show ?case by (auto intro: exI [of _ "p_seq p"])
next
  case (Suc j)
  let ?t = "\<lambda>stage. \<lparr>bt_request = req, bt_utc = utc, bt_stage = stage\<rparr>"
  let ?ts = "replicate j (?t UserClear) @ replicate (k - j) (?t (Arrived h))"
  obtain n where n: "run_bot S P c (concat (map (\<lambda>i. [i, i, i]) [0..<j])) (replicate k (?t (Arrived h))) (p, sg) =
      (?ts, p\<lparr>p_seq := n\<rparr>, sg)"
    using Suc by auto
  have "replicate (k - j) (?t (Arrived h)) = ?t (Arrived h) # replicate (k - Suc j) (?t (Arrived h))"
    using Suc.prems by (metis Suc_diff_Suc Suc_le_lessD replicate_Suc)
  then have upd: "?ts ! j = ?t (Arrived h)" "?ts[j := ?t UserClear] = replicate (Suc j) (?t UserClear) @ replicate (k - Suc j) (?t (Arrived h))"
    by (simp_all add: nth_append list_update_append replicate_app_Cons_same)
  obtain n' where "run_bot S P c [j, j, j] ?ts (p\<lparr>p_seq := n\<rparr>, sg) = (?ts[j := ?t UserClear], p\<lparr>p_seq := n\<rparr>\<lparr>p_seq := n'\<rparr>, sg)"
    using run_checks [OF assms(1,2), of "p\<lparr>p_seq := n\<rparr>" j ?ts utc S sg] assms(3) Suc.prems upd(1) by auto
  with n upd(2) show ?case by (auto simp: run_bot_append simp del: run_bot.simps(2))
qed

lemma all_pay:
  assumes "\<And>n. \<not> pg_fault P n"
    and "\<And>n. \<exists>rc. fst (signer_drip S (bq_address req) (bq_amount_nano req) (sg\<lparr>nonce := n\<rparr>)) = Inr rc" and "j \<le> k"
  shows "\<exists>ts p' rows. run_bot S P c (concat (map (\<lambda>i. [i, i]) [0..<j]))
      (replicate k \<lparr>bt_request = req, bt_utc = utc, bt_stage = UserClear\<rparr>) (p, sg) = (ts, p', sg\<lparr>nonce := nonce sg + of_nat j\<rparr>) \<and>
    length ts = k \<and> (\<forall>i < j. \<exists>rc. bt_stage (ts ! i) = Answered (Inr (bot_response c utc req rc)) \<and> rc_amount_nano rc = bq_amount_nano req) \<and>
    (\<forall>i. j \<le> i \<and> i < k \<longrightarrow> ts ! i = \<lparr>bt_request = req, bt_utc = utc, bt_stage = UserClear\<rparr>) \<and>
    bot_drips (p_db p') = bot_drips (p_db p) @ rows \<and> length rows = j \<and>
    (\<forall>r \<in> set rows. bd_address r = bq_address req \<and> bd_discord_user_id r = bq_discord_user_id req \<and>
       bd_amount_nano r = bq_amount_nano req)"
  using assms(3)
proof (induction j)
  case 0
  then show ?case by simp
next
  case (Suc j)
  let ?t = "\<lambda>stage. \<lparr>bt_request = req, bt_utc = utc, bt_stage = stage\<rparr>" and ?sg = "sg\<lparr>nonce := nonce sg + of_nat j\<rparr>"
  obtain ts p' rows where IH: "run_bot S P c (concat (map (\<lambda>i. [i, i]) [0..<j])) (replicate k (?t UserClear)) (p, sg) = (ts, p', ?sg)"
    "length ts = k" "\<forall>i < j. \<exists>rc. bt_stage (ts ! i) = Answered (Inr (bot_response c utc req rc)) \<and> rc_amount_nano rc = bq_amount_nano req"
    "\<forall>i. j \<le> i \<and> i < k \<longrightarrow> ts ! i = ?t UserClear" "bot_drips (p_db p') = bot_drips (p_db p) @ rows" "length rows = j"
    "\<forall>r \<in> set rows. bd_address r = bq_address req \<and> bd_discord_user_id r = bq_discord_user_id req \<and> bd_amount_nano r = bq_amount_nano req"
    using Suc.IH [OF Suc_leD [OF Suc.prems]] by (elim exE conjE) (rule that)
  obtain rc sg' where rc: "signer_drip S (bq_address req) (bq_amount_nano req) ?sg = (Inr rc, sg')"
    using assms(2) [of "nonce sg + of_nat j"] by (metis prod.collapse)
  then have sg': "sg' = sg\<lparr>nonce := nonce sg + of_nat (Suc j)\<rparr>" "rc_amount_nano rc = bq_amount_nano req"
    by (auto simp: signer_drip_def fetch_add_nonce_def Let_def add.assoc split: sum.splits)
  obtain p'' where pay: "run_bot S P c [j, j] ts (p', ?sg) = (ts[j := ?t (Answered (Inr (bot_response c utc req rc)))], p'', sg')"
    "bot_drips (p_db p'') = bot_drips (p_db p') @ [new_bot_drip_row req (rc_tx_hash rc) utc (pg_now P (p_seq p'))]"
    using run_pay [OF assms(1) rc, of j ts utc c p'] IH(2,4) Suc.prems by auto
  let ?row = "new_bot_drip_row req (rc_tx_hash rc) utc (pg_now P (p_seq p'))"
  let ?ts = "ts[j := ?t (Answered (Inr (bot_response c utc req rc)))]"
  have "run_bot S P c (concat (map (\<lambda>i. [i, i]) [0..<Suc j])) (replicate k (?t UserClear)) (p, sg) = (?ts, p'', sg')"
    using IH(1) pay(1) by (simp add: run_bot_append del: run_bot.simps(2))
  moreover have "\<forall>i < Suc j. \<exists>rc. bt_stage (?ts ! i) = Answered (Inr (bot_response c utc req rc)) \<and> rc_amount_nano rc = bq_amount_nano req"
    using IH(2,3) sg'(2) Suc.prems by (auto simp: less_Suc_eq nth_list_update)
  moreover have "\<forall>i. Suc j \<le> i \<and> i < k \<longrightarrow> ?ts ! i = ?t UserClear" using IH(4) by auto
  moreover have "length ?ts = k" using IH(2) by simp
  moreover have "bot_drips (p_db p'') = bot_drips (p_db p) @ (rows @ [?row])" using IH(5) pay(2) by simp
  moreover have "length (rows @ [?row]) = Suc j" using IH(6) by simp
  moreover have "\<forall>r \<in> set (rows @ [?row]). bd_address r = bq_address req \<and> bd_discord_user_id r = bq_discord_user_id req \<and>
      bd_amount_nano r = bq_amount_nano req"
    using IH(7) by (simp add: new_bot_drip_row_def)
  ultimately show ?case unfolding sg'(1) by blast
qed

section \<open>Properties\<close>

text \<open>C26. Overlapping requests escape both cooldowns of the Discord faucet: any number of requests for one address and
  one Discord user, with the right secret and the amount of their tier, are all paid when each has made its
  two checks before the first is recorded. The rows recorded for them are as many as the requests, all
  for the same address and user, and as many nonces are used; the cooldown would have allowed one.\<close>

theorem bot_overlap_all_paid:
  assumes "\<And>n. \<not> pg_fault P n" and "cf_faucet_bot_secret c = Some s" and "bq_amount_nano req = expected_amount c (bq_tier req)"
    and "\<forall>r \<in> set (bot_drips (p_db p)). bd_address r \<noteq> bq_address req \<and> bd_discord_user_id r \<noteq> bq_discord_user_id req"
    and "\<And>n. \<exists>rc. fst (signer_drip S (bq_address req) (bq_amount_nano req) (sg\<lparr>nonce := n\<rparr>)) = Inr rc"
  shows "\<exists>ts p' rows. run_bot S P c (overlap k)
      (replicate k \<lparr>bt_request = req, bt_utc = utc, bt_stage = Arrived (Some s)\<rparr>) (p, sg) =
      (ts, p', sg\<lparr>nonce := nonce sg + of_nat k\<rparr>) \<and> length ts = k \<and>
    (\<forall>t \<in> set ts. \<exists>ok. bt_stage t = Answered (Inr ok) \<and> br_amount_nano ok = expected_amount c (bq_tier req)) \<and>
    bot_drips (p_db p') = bot_drips (p_db p) @ rows \<and> length rows = k \<and>
    (\<forall>r \<in> set rows. bd_address r = bq_address req \<and> bd_discord_user_id r = bq_discord_user_id req \<and>
       bd_amount_nano r = expected_amount c (bq_tier req))"
proof -
  let ?t = "\<lambda>stage. \<lparr>bt_request = req, bt_utc = utc, bt_stage = stage\<rparr>"
  have guard: "bot_guard c (Some s) req = Inr ()" using assms(2,3) by (simp add: bot_guard_def constant_time_eq_iff)
  obtain n where n: "run_bot S P c (concat (map (\<lambda>i. [i, i, i]) [0..<k])) (replicate k (?t (Arrived (Some s)))) (p, sg) =
      (replicate k (?t UserClear), p\<lparr>p_seq := n\<rparr>, sg)"
    using all_check [OF assms(1) guard assms(4) order_refl [of k], of S utc sg] by auto
  obtain ts p' rows where r: "run_bot S P c (concat (map (\<lambda>i. [i, i]) [0..<k])) (replicate k (?t UserClear)) (p\<lparr>p_seq := n\<rparr>, sg) =
      (ts, p', sg\<lparr>nonce := nonce sg + of_nat k\<rparr>)" "length ts = k"
    "\<forall>i < k. \<exists>rc. bt_stage (ts ! i) = Answered (Inr (bot_response c utc req rc)) \<and> rc_amount_nano rc = bq_amount_nano req"
    "bot_drips (p_db p') = bot_drips (p_db p) @ rows" "length rows = k"
    "\<forall>r \<in> set rows. bd_address r = bq_address req \<and> bd_discord_user_id r = bq_discord_user_id req \<and> bd_amount_nano r = bq_amount_nano req"
    using all_pay [OF assms(1,5) order_refl [of k], of c utc "p\<lparr>p_seq := n\<rparr>"] by (elim exE conjE) (rule that, simp_all)
  have "run_bot S P c (overlap k) (replicate k (?t (Arrived (Some s)))) (p, sg) = (ts, p', sg\<lparr>nonce := nonce sg + of_nat k\<rparr>)"
    using n r(1) by (simp add: overlap_def run_bot_append)
  moreover have "\<forall>t \<in> set ts. \<exists>ok. bt_stage t = Answered (Inr ok) \<and> br_amount_nano ok = expected_amount c (bq_tier req)"
    using r(2,3) assms(3) by (fastforce simp: set_conv_nth bot_response_def)
  ultimately show ?thesis using r assms(3) by (intro exI [of _ ts] exI [of _ p'] exI [of _ rows]) simp
qed

theorem bot_overlap_all_paid_witness:
  "\<exists>ts p' sg' rows. run_bot demo_sdk slow_pg sample_config (overlap 3)
      (replicate 3 \<lparr>bt_request = bot_request ''lig1a'' ''u'', bt_utc = (\<lambda>_. 0), bt_stage = Arrived (Some ''s'')\<rparr>)
      (\<lparr>p_db = empty_db, p_seq = 0\<rparr>, demo_signer) = (ts, p', sg') \<and>
    bot_drips (p_db p') = rows \<and> length rows = 3 \<and> (\<forall>r \<in> set rows. bd_discord_user_id r = ''u'' \<and> bd_amount_nano r = 100)"
proof -
  have ok: "\<exists>rc. fst (signer_drip demo_sdk (bq_address (bot_request ''lig1a'' ''u'')) (bq_amount_nano (bot_request ''lig1a'' ''u''))
      (demo_signer\<lparr>nonce := n\<rparr>)) = Inr rc" for n
    by (simp add: signer_drip_def demo_sdk_def demo_signer_def fetch_add_nonce_def bot_request_def build_unsigned_def Let_def)
  have c: "cf_faucet_bot_secret sample_config = Some ''s''"
    "bq_amount_nano (bot_request ''lig1a'' ''u'') = expected_amount sample_config (bq_tier (bot_request ''lig1a'' ''u''))"
    by (simp_all add: sample_config_def bot_request_def expected_amount_def)
  have e: "expected_amount sample_config (bq_tier (bot_request ''lig1a'' ''u'')) = 100"
    "bq_discord_user_id (bot_request ''lig1a'' ''u'') = ''u''"
    by (simp_all add: sample_config_def bot_request_def expected_amount_def)
  show ?thesis
    using bot_overlap_all_paid [OF slow_pg_simps(2) c, of "\<lparr>p_db = empty_db, p_seq = 0\<rparr>" demo_sdk demo_signer 3 "\<lambda>_. 0"] ok
    by (elim meta_impE) (auto simp: empty_db_def e)
qed

end
