(* ===== verification/Row_Shapes.thy ===== *)
theory Row_Shapes
  imports Queries
begin

text \<open>
  How a table row becomes a struct of \<^verbatim>\<open>crates/api/src/queries.rs\<close>: a statement selects columns in an
  order of its own, the driver decodes the cells by position into a tuple of Rust types, and a function
  assigns the positions of the tuple to the fields of a struct. Nothing but the order ties the three
  together, and a cell decodes only into the type of its column: NULL into an option only, \<^verbatim>\<open>BIGINT\<close>
  into \<^verbatim>\<open>i64\<close> only, \<^verbatim>\<open>INTEGER\<close> into \<^verbatim>\<open>i32\<close> only. The queries themselves are in
  the theory of the queries, over table rows.
\<close>

section \<open>Cells\<close>

datatype sql_value =
    Int8 int
  | Int4 int
  | Text string
  | Jsonb json
  | Timestamptz time
  | Numeric int
  | Null

fun cell_i64 :: "sql_value \<Rightarrow> int option" where
  "cell_i64 (Int8 i) = Some i"
| "cell_i64 _ = None"

fun cell_i32 :: "sql_value \<Rightarrow> int option" where
  "cell_i32 (Int4 i) = Some i"
| "cell_i32 _ = None"

fun cell_string :: "sql_value \<Rightarrow> string option" where
  "cell_string (Text s) = Some s"
| "cell_string _ = None"

fun cell_value :: "sql_value \<Rightarrow> json option" where
  "cell_value (Jsonb v) = Some v"
| "cell_value _ = None"

fun cell_time :: "sql_value \<Rightarrow> time option" where
  "cell_time (Timestamptz t) = Some t"
| "cell_time _ = None"

fun cell_decimal :: "sql_value \<Rightarrow> int option" where
  "cell_decimal (Numeric i) = Some i"
| "cell_decimal _ = None"

definition cell_option :: "(sql_value \<Rightarrow> 'a option) \<Rightarrow> sql_value \<Rightarrow> 'a option option" where
  "cell_option d v = (if v = Null then Some None else map_option Some (d v))"

definition nullable :: "('a \<Rightarrow> sql_value) \<Rightarrow> 'a option \<Rightarrow> sql_value" where
  "nullable f x = (case x of None \<Rightarrow> Null | Some a \<Rightarrow> f a)"

type_synonym cells = "(string \<times> sql_value) list"

definition with_alias :: "string \<Rightarrow> cells \<Rightarrow> cells" where
  "with_alias tab = map (\<lambda>(column, v). (tab @ ''.'' @ column, v))"

text \<open>A statement over an unknown column does not run.\<close>

definition select_columns :: "string list \<Rightarrow> cells \<Rightarrow> sql_value list option" where
  "select_columns columns cs = those (map (map_of cs) columns)"

section \<open>Tables\<close>

text \<open>The columns of a table with their types, as the migrations declare and alter them.\<close>

definition slot_cells :: "slot_row \<Rightarrow> cells" where
  "slot_cells r =
     [(''height'', Int8 (s_height r)), (''hash'', Text (s_hash r)),
      (''prev_hash'', nullable Text (s_prev_hash r)), (''state_root'', nullable Text (s_state_root r)),
      (''timestamp'', Timestamptz (s_timestamp r)), (''batch_count'', Int4 (s_batch_count r)),
      (''tx_count'', Int4 (s_tx_count r)), (''raw'', Jsonb (s_raw r)),
      (''indexed_at'', Timestamptz (s_indexed_at r)), (''proposer'', nullable Text (s_proposer r)),
      (''finality_status'', nullable Text (s_finality_status r)),
      (''finalized_at'', nullable Timestamptz (s_finalized_at r)),
      (''da_block_height'', nullable Int8 (s_da_block_height r))]"

definition tx_cells :: "tx_row \<Rightarrow> cells" where
  "tx_cells r =
     [(''hash'', Text (t_hash r)), (''slot'', Int8 (t_slot r)), (''position'', Int4 (t_position r)),
      (''sender'', nullable Text (t_sender r)), (''sender_pubkey'', nullable Text (t_sender_pubkey r)),
      (''nonce'', nullable Int8 (t_nonce r)), (''fee_paid_nano'', nullable Numeric (t_fee_paid_nano r)),
      (''kind'', Text (t_kind r)), (''details'', Jsonb (t_details r)), (''raw'', Jsonb (t_raw r)),
      (''outcome'', Text (t_outcome r)), (''revert_reason'', nullable Text (t_revert_reason r)),
      (''indexed_at'', Timestamptz (t_indexed_at r)),
      (''protocol_fee_nano'', nullable Numeric (t_protocol_fee_nano r))]"

definition attestor_set_cells :: "attestor_set_row \<Rightarrow> cells" where
  "attestor_set_cells r =
     [(''id'', Text (as_id r)), (''members'', Jsonb (as_members r)), (''threshold'', Int4 (as_threshold r)),
      (''registered_at_slot'', Int8 (as_slot r)), (''registered_at_tx'', Text (as_tx r)),
      (''registered_at_timestamp'', Timestamptz (as_timestamp r)), (''schema_count'', Int4 (as_schema_count r)),
      (''indexed_at'', Timestamptz (as_indexed_at r))]"

definition schema_cells :: "schema_row \<Rightarrow> cells" where
  "schema_cells r =
     [(''id'', Text (sc_id r)), (''name'', Text (sc_name r)), (''version'', Int4 (sc_version r)),
      (''owner'', Text (sc_owner r)), (''attestor_set_id'', Text (sc_attestor_set_id r)),
      (''fee_routing_bps'', Int4 (sc_fee_routing_bps r)),
      (''fee_routing_addr'', nullable Text (sc_fee_routing_addr r)),
      (''payload_shape_hash'', Text (sc_payload_shape_hash r)), (''registered_at_slot'', Int8 (sc_slot r)),
      (''registered_at_tx'', Text (sc_tx r)), (''registered_at_timestamp'', Timestamptz (sc_timestamp r)),
      (''attestation_count'', Int4 (sc_attestation_count r)), (''indexed_at'', Timestamptz (sc_indexed_at r))]"

definition attestation_cells :: "attestation_row \<Rightarrow> cells" where
  "attestation_cells r =
     [(''schema_id'', Text (at_schema_id r)), (''payload_hash'', Text (at_payload_hash r)),
      (''submitter'', Text (at_submitter r)), (''submitter_pubkey'', nullable Text (at_submitter_pubkey r)),
      (''submitted_at_slot'', Int8 (at_slot r)), (''submitted_at_tx'', Text (at_tx r)),
      (''submitted_at_timestamp'', Timestamptz (at_timestamp r)),
      (''signature_count'', Int4 (at_signature_count r)), (''indexed_at'', Timestamptz (at_indexed_at r)),
      (''id'', Text (at_id r))]"

definition address_cells :: "address_row \<Rightarrow> cells" where
  "address_cells r =
     [(''address'', Text (ad_address r)), (''txs_sent_count'', Int8 (ad_txs_sent_count r)),
      (''txs_received_count'', Int8 (ad_txs_received_count r)),
      (''first_seen_slot'', nullable Int8 (ad_first_seen_slot r)),
      (''first_seen_tx'', nullable Text (ad_first_seen_tx r)),
      (''first_seen_timestamp'', nullable Timestamptz (ad_first_seen_timestamp r)),
      (''last_seen_slot'', nullable Int8 (ad_last_seen_slot r)),
      (''last_seen_tx'', nullable Text (ad_last_seen_tx r)),
      (''last_seen_timestamp'', nullable Timestamptz (ad_last_seen_timestamp r)),
      (''schemas_owned_count'', Int4 (ad_schemas_owned_count r)),
      (''attestor_member_count'', Int4 (ad_attestor_member_count r)),
      (''indexed_at'', Timestamptz (ad_indexed_at r))]"

definition bounty_cells :: "bounty_row \<Rightarrow> cells" where
  "bounty_cells r =
     [(''id'', Text (bo_id r)), (''poster'', Text (bo_poster r)),
      (''board_schema_id'', Text (bo_board_schema_id r)), (''pool_nano'', Text (bo_pool_nano r)),
      (''per_attestation_nano'', Text (bo_per_attestation_nano r)),
      (''escrow_remaining_nano'', Text (bo_escrow_remaining_nano r)), (''status'', Text (bo_status r)),
      (''acceptance'', Jsonb (bo_acceptance r)), (''expiry_da_height'', Int8 (bo_expiry_da_height r)),
      (''dispute_window_blocks'', Int4 (bo_dispute_window_blocks r)), (''posted_at_slot'', Int8 (bo_slot r)),
      (''posted_at_tx'', Text (bo_tx r)), (''posted_at_timestamp'', Timestamptz (bo_timestamp r)),
      (''claim_count'', Int4 (bo_claim_count r)),
      (''last_claim_at_slot'', nullable Int8 (bo_last_claim_at_slot r))]"

definition contract_cells :: "contract_row \<Rightarrow> cells" where
  "contract_cells r =
     [(''id'', Text (co_id r)), (''poster'', Text (co_poster r)), (''arbiter'', Text (co_arbiter r)),
      (''criteria_doc_hash'', Text (co_criteria_doc_hash r)), (''pool_nano'', Text (co_pool_nano r)),
      (''escrow_remaining_nano'', Text (co_escrow_remaining_nano r)),
      (''arbiter_fee_bps'', Int4 (co_arbiter_fee_bps r)), (''status'', Text (co_status r)),
      (''expiry_da_height'', Int8 (co_expiry_da_height r)),
      (''dispute_window_blocks'', Int4 (co_dispute_window_blocks r)), (''posted_at_slot'', Int8 (co_slot r)),
      (''posted_at_tx'', Text (co_tx r)), (''posted_at_timestamp'', Timestamptz (co_timestamp r))]"

section \<open>Structs\<close>

record q_slot =
  qs_height :: int
  qs_hash :: string
  qs_prev_hash :: "string option"
  qs_state_root :: "string option"
  qs_timestamp :: time
  qs_batch_count :: int
  qs_tx_count :: int
  qs_proposer :: "string option"
  qs_finality_status :: "string option"
  qs_finalized_at :: "time option"
  qs_da_block_height :: "int option"

record q_tx =
  qt_hash :: string
  qt_slot :: int
  qt_position :: int
  qt_sender :: "string option"
  qt_sender_pubkey :: "string option"
  qt_nonce :: "int option"
  qt_fee_paid_nano :: "string option"
  qt_protocol_fee_nano :: "string option"
  qt_kind :: string
  qt_details :: json
  qt_outcome :: string
  qt_revert_reason :: "string option"
  qt_block_hash :: "string option"
  qt_block_timestamp :: "time option"

record q_schema =
  qc_id :: string
  qc_name :: string
  qc_version :: int
  qc_owner :: string
  qc_attestor_set_id :: string
  qc_fee_routing_bps :: int
  qc_fee_routing_addr :: "string option"
  qc_payload_shape_hash :: string
  qc_registered_at_slot :: int
  qc_registered_at_tx :: string
  qc_registered_at_timestamp :: time
  qc_attestation_count :: int
  qc_threshold :: int

record q_attestor_set =
  qa_id :: string
  qa_members :: json
  qa_threshold :: int
  qa_registered_at_slot :: int
  qa_registered_at_tx :: string
  qa_registered_at_timestamp :: time
  qa_schema_count :: int

record q_address =
  qd_txs_sent_count :: int
  qd_txs_received_count :: int
  qd_first_seen_slot :: "int option"
  qd_first_seen_timestamp :: "time option"
  qd_last_seen_slot :: "int option"
  qd_last_seen_timestamp :: "time option"
  qd_schemas_owned_count :: int
  qd_attestor_member_count :: int

record q_attestation =
  qn_id :: string
  qn_schema_id :: string
  qn_payload_hash :: string
  qn_submitter :: string
  qn_submitter_pubkey :: "string option"
  qn_submitted_at_slot :: int
  qn_submitted_at_tx :: string
  qn_submitted_at_timestamp :: time
  qn_signature_count :: int

record q_bounty_match =
  qm_id :: string
  qm_poster :: string
  qm_board_schema_id :: string
  qm_per_attestation_nano :: string
  qm_escrow_remaining_nano :: string
  qm_pool_nano :: string
  qm_acceptance :: json
  qm_expiry_da_height :: int
  qm_posted_at_slot :: int
  qm_my_attestation_count :: int

record q_bounty =
  qb_id :: string
  qb_poster :: string
  qb_board_schema_id :: string
  qb_pool_nano :: string
  qb_per_attestation_nano :: string
  qb_escrow_remaining_nano :: string
  qb_status :: string
  qb_acceptance :: json
  qb_expiry_da_height :: int
  qb_dispute_window_blocks :: int
  qb_posted_at_slot :: int
  qb_posted_at_tx :: string
  qb_posted_at_timestamp :: time
  qb_claim_count :: int
  qb_last_claim_at_slot :: "int option"

record q_contract =
  qk_id :: string
  qk_poster :: string
  qk_arbiter :: string
  qk_criteria_doc_hash :: string
  qk_pool_nano :: string
  qk_escrow_remaining_nano :: string
  qk_arbiter_fee_bps :: int
  qk_status :: string
  qk_expiry_da_height :: int
  qk_dispute_window_blocks :: int
  qk_posted_at_slot :: int
  qk_posted_at_tx :: string
  qk_posted_at_timestamp :: time

section \<open>Statements and tuples\<close>

text \<open>The column list of the statements on each table, and the function from their tuple to the struct. Where
  several statements select for the same struct they spell out the same list; it stands here once.\<close>

definition SLOT_COLUMNS :: "string list" where
  "SLOT_COLUMNS =
     [''height'', ''hash'', ''prev_hash'', ''state_root'', ''timestamp'', ''batch_count'', ''tx_count'',
      ''proposer'', ''finality_status'', ''finalized_at'', ''da_block_height'']"

definition slot_row_from_tuple :: "sql_value list \<Rightarrow> q_slot option" where
  "slot_row_from_tuple cs =
     (case cs of
        [c0, c1, c2, c3, c4, c5, c6, c7, c8, c9, c10] \<Rightarrow>
          do {
            x0 \<leftarrow> cell_i64 c0;
            x1 \<leftarrow> cell_string c1;
            x2 \<leftarrow> cell_option cell_string c2;
            x3 \<leftarrow> cell_option cell_string c3;
            x4 \<leftarrow> cell_time c4;
            x5 \<leftarrow> cell_i32 c5;
            x6 \<leftarrow> cell_i32 c6;
            x7 \<leftarrow> cell_option cell_string c7;
            x8 \<leftarrow> cell_option cell_string c8;
            x9 \<leftarrow> cell_option cell_time c9;
            x10 \<leftarrow> cell_option cell_i64 c10;
            Some \<lparr>qs_height = x0, qs_hash = x1, qs_prev_hash = x2, qs_state_root = x3, qs_timestamp = x4,
                  qs_batch_count = x5, qs_tx_count = x6, qs_proposer = x7, qs_finality_status = x8,
                  qs_finalized_at = x9, qs_da_block_height = x10\<rparr>
          }
      | _ \<Rightarrow> None)"

definition TX_COLUMNS :: "string list" where
  "TX_COLUMNS =
     [''t.hash'', ''t.slot'', ''t.position'', ''t.sender'', ''t.sender_pubkey'', ''t.nonce'',
      ''t.fee_paid_nano'', ''t.protocol_fee_nano'', ''t.kind'', ''t.details'', ''t.outcome'',
      ''t.revert_reason'', ''s.hash'', ''s.timestamp'']"

definition tx_row_from_tuple :: "(int \<Rightarrow> string) \<Rightarrow> sql_value list \<Rightarrow> q_tx option" where
  "tx_row_from_tuple render cs =
     (case cs of
        [c0, c1, c2, c3, c4, c5, c6, c7, c8, c9, c10, c11, c12, c13] \<Rightarrow>
          do {
            x0 \<leftarrow> cell_string c0;
            x1 \<leftarrow> cell_i64 c1;
            x2 \<leftarrow> cell_i32 c2;
            x3 \<leftarrow> cell_option cell_string c3;
            x4 \<leftarrow> cell_option cell_string c4;
            x5 \<leftarrow> cell_option cell_i64 c5;
            x6 \<leftarrow> map_option (map_option render) (cell_option cell_decimal c6);
            x7 \<leftarrow> map_option (map_option render) (cell_option cell_decimal c7);
            x8 \<leftarrow> cell_string c8;
            x9 \<leftarrow> cell_value c9;
            x10 \<leftarrow> cell_string c10;
            x11 \<leftarrow> cell_option cell_string c11;
            x12 \<leftarrow> cell_option cell_string c12;
            x13 \<leftarrow> cell_option cell_time c13;
            Some \<lparr>qt_hash = x0, qt_slot = x1, qt_position = x2, qt_sender = x3, qt_sender_pubkey = x4,
                  qt_nonce = x5, qt_fee_paid_nano = x6, qt_protocol_fee_nano = x7, qt_kind = x8,
                  qt_details = x9, qt_outcome = x10, qt_revert_reason = x11, qt_block_hash = x12,
                  qt_block_timestamp = x13\<rparr>
          }
      | _ \<Rightarrow> None)"

definition SCHEMA_COLUMNS :: "string list" where
  "SCHEMA_COLUMNS =
     [''s.id'', ''s.name'', ''s.version'', ''s.owner'', ''s.attestor_set_id'', ''s.fee_routing_bps'',
      ''s.fee_routing_addr'', ''s.payload_shape_hash'', ''s.registered_at_slot'', ''s.registered_at_tx'',
      ''s.registered_at_timestamp'', ''s.attestation_count'', ''a.threshold'']"

definition schema_row_from_tuple :: "sql_value list \<Rightarrow> q_schema option" where
  "schema_row_from_tuple cs =
     (case cs of
        [c0, c1, c2, c3, c4, c5, c6, c7, c8, c9, c10, c11, c12] \<Rightarrow>
          do {
            x0 \<leftarrow> cell_string c0;
            x1 \<leftarrow> cell_string c1;
            x2 \<leftarrow> cell_i32 c2;
            x3 \<leftarrow> cell_string c3;
            x4 \<leftarrow> cell_string c4;
            x5 \<leftarrow> cell_i32 c5;
            x6 \<leftarrow> cell_option cell_string c6;
            x7 \<leftarrow> cell_string c7;
            x8 \<leftarrow> cell_i64 c8;
            x9 \<leftarrow> cell_string c9;
            x10 \<leftarrow> cell_time c10;
            x11 \<leftarrow> cell_i32 c11;
            x12 \<leftarrow> cell_i32 c12;
            Some \<lparr>qc_id = x0, qc_name = x1, qc_version = x2, qc_owner = x3, qc_attestor_set_id = x4,
                  qc_fee_routing_bps = x5, qc_fee_routing_addr = x6, qc_payload_shape_hash = x7,
                  qc_registered_at_slot = x8, qc_registered_at_tx = x9, qc_registered_at_timestamp = x10,
                  qc_attestation_count = x11, qc_threshold = x12\<rparr>
          }
      | _ \<Rightarrow> None)"

definition ATTESTOR_SET_COLUMNS :: "string list" where
  "ATTESTOR_SET_COLUMNS =
     [''id'', ''members'', ''threshold'', ''registered_at_slot'', ''registered_at_tx'',
      ''registered_at_timestamp'', ''schema_count'']"

definition attestor_set_row_from_tuple :: "sql_value list \<Rightarrow> q_attestor_set option" where
  "attestor_set_row_from_tuple cs =
     (case cs of
        [c0, c1, c2, c3, c4, c5, c6] \<Rightarrow>
          do {
            x0 \<leftarrow> cell_string c0;
            x1 \<leftarrow> cell_value c1;
            x2 \<leftarrow> cell_i32 c2;
            x3 \<leftarrow> cell_i64 c3;
            x4 \<leftarrow> cell_string c4;
            x5 \<leftarrow> cell_time c5;
            x6 \<leftarrow> cell_i32 c6;
            Some \<lparr>qa_id = x0, qa_members = x1, qa_threshold = x2, qa_registered_at_slot = x3,
                  qa_registered_at_tx = x4, qa_registered_at_timestamp = x5, qa_schema_count = x6\<rparr>
          }
      | _ \<Rightarrow> None)"

definition ADDRESS_COLUMNS :: "string list" where
  "ADDRESS_COLUMNS =
     [''txs_sent_count'', ''txs_received_count'', ''first_seen_slot'', ''first_seen_timestamp'',
      ''last_seen_slot'', ''last_seen_timestamp'', ''schemas_owned_count'', ''attestor_member_count'']"

definition address_row_from_tuple :: "sql_value list \<Rightarrow> q_address option" where
  "address_row_from_tuple cs =
     (case cs of
        [c0, c1, c2, c3, c4, c5, c6, c7] \<Rightarrow>
          do {
            x0 \<leftarrow> cell_i64 c0;
            x1 \<leftarrow> cell_i64 c1;
            x2 \<leftarrow> cell_option cell_i64 c2;
            x3 \<leftarrow> cell_option cell_time c3;
            x4 \<leftarrow> cell_option cell_i64 c4;
            x5 \<leftarrow> cell_option cell_time c5;
            x6 \<leftarrow> cell_i32 c6;
            x7 \<leftarrow> cell_i32 c7;
            Some \<lparr>qd_txs_sent_count = x0, qd_txs_received_count = x1, qd_first_seen_slot = x2,
                  qd_first_seen_timestamp = x3, qd_last_seen_slot = x4, qd_last_seen_timestamp = x5,
                  qd_schemas_owned_count = x6, qd_attestor_member_count = x7\<rparr>
          }
      | _ \<Rightarrow> None)"

definition ATTESTATION_COLUMNS :: "string list" where
  "ATTESTATION_COLUMNS =
     [''id'', ''schema_id'', ''payload_hash'', ''submitter'', ''submitter_pubkey'', ''submitted_at_slot'',
      ''submitted_at_tx'', ''submitted_at_timestamp'', ''signature_count'']"

definition attestation_row_from_tuple :: "sql_value list \<Rightarrow> q_attestation option" where
  "attestation_row_from_tuple cs =
     (case cs of
        [c0, c1, c2, c3, c4, c5, c6, c7, c8] \<Rightarrow>
          do {
            x0 \<leftarrow> cell_string c0;
            x1 \<leftarrow> cell_string c1;
            x2 \<leftarrow> cell_string c2;
            x3 \<leftarrow> cell_string c3;
            x4 \<leftarrow> cell_option cell_string c4;
            x5 \<leftarrow> cell_i64 c5;
            x6 \<leftarrow> cell_string c6;
            x7 \<leftarrow> cell_time c7;
            x8 \<leftarrow> cell_i32 c8;
            Some \<lparr>qn_id = x0, qn_schema_id = x1, qn_payload_hash = x2, qn_submitter = x3,
                  qn_submitter_pubkey = x4, qn_submitted_at_slot = x5, qn_submitted_at_tx = x6,
                  qn_submitted_at_timestamp = x7, qn_signature_count = x8\<rparr>
          }
      | _ \<Rightarrow> None)"

definition BOUNTY_MATCH_COLUMNS :: "string list" where
  "BOUNTY_MATCH_COLUMNS =
     [''b.id'', ''b.poster'', ''b.board_schema_id'', ''b.per_attestation_nano'', ''b.escrow_remaining_nano'',
      ''b.pool_nano'', ''b.acceptance'', ''b.expiry_da_height'', ''b.posted_at_slot'', ''my_attestation_count'']"

definition bounty_match_row_from_tuple :: "sql_value list \<Rightarrow> q_bounty_match option" where
  "bounty_match_row_from_tuple cs =
     (case cs of
        [c0, c1, c2, c3, c4, c5, c6, c7, c8, c9] \<Rightarrow>
          do {
            x0 \<leftarrow> cell_string c0;
            x1 \<leftarrow> cell_string c1;
            x2 \<leftarrow> cell_string c2;
            x3 \<leftarrow> cell_string c3;
            x4 \<leftarrow> cell_string c4;
            x5 \<leftarrow> cell_string c5;
            x6 \<leftarrow> cell_value c6;
            x7 \<leftarrow> cell_i64 c7;
            x8 \<leftarrow> cell_i64 c8;
            x9 \<leftarrow> cell_i64 c9;
            Some \<lparr>qm_id = x0, qm_poster = x1, qm_board_schema_id = x2, qm_per_attestation_nano = x3,
                  qm_escrow_remaining_nano = x4, qm_pool_nano = x5, qm_acceptance = x6,
                  qm_expiry_da_height = x7, qm_posted_at_slot = x8, qm_my_attestation_count = x9\<rparr>
          }
      | _ \<Rightarrow> None)"

definition BOUNTY_COLUMNS :: "string list" where
  "BOUNTY_COLUMNS =
     [''id'', ''poster'', ''board_schema_id'', ''pool_nano'', ''per_attestation_nano'',
      ''escrow_remaining_nano'', ''status'', ''acceptance'', ''expiry_da_height'', ''dispute_window_blocks'',
      ''posted_at_slot'', ''posted_at_tx'', ''posted_at_timestamp'', ''claim_count'', ''last_claim_at_slot'']"

definition bounty_row_from_tuple :: "sql_value list \<Rightarrow> q_bounty option" where
  "bounty_row_from_tuple cs =
     (case cs of
        [c0, c1, c2, c3, c4, c5, c6, c7, c8, c9, c10, c11, c12, c13, c14] \<Rightarrow>
          do {
            x0 \<leftarrow> cell_string c0;
            x1 \<leftarrow> cell_string c1;
            x2 \<leftarrow> cell_string c2;
            x3 \<leftarrow> cell_string c3;
            x4 \<leftarrow> cell_string c4;
            x5 \<leftarrow> cell_string c5;
            x6 \<leftarrow> cell_string c6;
            x7 \<leftarrow> cell_value c7;
            x8 \<leftarrow> cell_i64 c8;
            x9 \<leftarrow> cell_i32 c9;
            x10 \<leftarrow> cell_i64 c10;
            x11 \<leftarrow> cell_string c11;
            x12 \<leftarrow> cell_time c12;
            x13 \<leftarrow> cell_i32 c13;
            x14 \<leftarrow> cell_option cell_i64 c14;
            Some \<lparr>qb_id = x0, qb_poster = x1, qb_board_schema_id = x2, qb_pool_nano = x3,
                  qb_per_attestation_nano = x4, qb_escrow_remaining_nano = x5, qb_status = x6,
                  qb_acceptance = x7, qb_expiry_da_height = x8, qb_dispute_window_blocks = x9,
                  qb_posted_at_slot = x10, qb_posted_at_tx = x11, qb_posted_at_timestamp = x12,
                  qb_claim_count = x13, qb_last_claim_at_slot = x14\<rparr>
          }
      | _ \<Rightarrow> None)"

definition CONTRACT_COLUMNS :: "string list" where
  "CONTRACT_COLUMNS =
     [''id'', ''poster'', ''arbiter'', ''criteria_doc_hash'', ''pool_nano'', ''escrow_remaining_nano'',
      ''arbiter_fee_bps'', ''status'', ''expiry_da_height'', ''dispute_window_blocks'', ''posted_at_slot'',
      ''posted_at_tx'', ''posted_at_timestamp'']"

definition contract_row_from_tuple :: "sql_value list \<Rightarrow> q_contract option" where
  "contract_row_from_tuple cs =
     (case cs of
        [c0, c1, c2, c3, c4, c5, c6, c7, c8, c9, c10, c11, c12] \<Rightarrow>
          do {
            x0 \<leftarrow> cell_string c0;
            x1 \<leftarrow> cell_string c1;
            x2 \<leftarrow> cell_string c2;
            x3 \<leftarrow> cell_string c3;
            x4 \<leftarrow> cell_string c4;
            x5 \<leftarrow> cell_string c5;
            x6 \<leftarrow> cell_i32 c6;
            x7 \<leftarrow> cell_string c7;
            x8 \<leftarrow> cell_i64 c8;
            x9 \<leftarrow> cell_i32 c9;
            x10 \<leftarrow> cell_i64 c10;
            x11 \<leftarrow> cell_string c11;
            x12 \<leftarrow> cell_time c12;
            Some \<lparr>qk_id = x0, qk_poster = x1, qk_arbiter = x2, qk_criteria_doc_hash = x3, qk_pool_nano = x4,
                  qk_escrow_remaining_nano = x5, qk_arbiter_fee_bps = x6, qk_status = x7,
                  qk_expiry_da_height = x8, qk_dispute_window_blocks = x9, qk_posted_at_slot = x10,
                  qk_posted_at_tx = x11, qk_posted_at_timestamp = x12\<rparr>
          }
      | _ \<Rightarrow> None)"

section \<open>Reading a row\<close>

text \<open>The three together, and what they are meant to yield: every field is the column of its name.\<close>

definition fetch_slot :: "slot_row \<Rightarrow> q_slot option" where
  "fetch_slot r = Option.bind (select_columns SLOT_COLUMNS (slot_cells r)) (slot_row_from_tuple)"

definition view_slot :: "slot_row \<Rightarrow> q_slot" where
  "view_slot r =
     \<lparr>qs_height = s_height r, qs_hash = s_hash r, qs_prev_hash = s_prev_hash r, qs_state_root = s_state_root r,
      qs_timestamp = s_timestamp r, qs_batch_count = s_batch_count r, qs_tx_count = s_tx_count r,
      qs_proposer = s_proposer r, qs_finality_status = s_finality_status r, qs_finalized_at = s_finalized_at r,
      qs_da_block_height = s_da_block_height r\<rparr>"

definition fetch_tx :: "(int \<Rightarrow> string) \<Rightarrow> tx_row \<times> slot_row \<Rightarrow> q_tx option" where
  "fetch_tx render j = Option.bind (select_columns TX_COLUMNS (with_alias ''t'' (tx_cells (fst j)) @ with_alias ''s'' (slot_cells (snd j)))) (tx_row_from_tuple render)"

definition view_tx :: "(int \<Rightarrow> string) \<Rightarrow> tx_row \<times> slot_row \<Rightarrow> q_tx" where
  "view_tx render j =
     \<lparr>qt_hash = t_hash (fst j), qt_slot = t_slot (fst j), qt_position = t_position (fst j),
      qt_sender = t_sender (fst j), qt_sender_pubkey = t_sender_pubkey (fst j), qt_nonce = t_nonce (fst j),
      qt_fee_paid_nano = map_option render (t_fee_paid_nano (fst j)),
      qt_protocol_fee_nano = map_option render (t_protocol_fee_nano (fst j)), qt_kind = t_kind (fst j),
      qt_details = t_details (fst j), qt_outcome = t_outcome (fst j),
      qt_revert_reason = t_revert_reason (fst j), qt_block_hash = Some (s_hash (snd j)),
      qt_block_timestamp = Some (s_timestamp (snd j))\<rparr>"

definition fetch_schema :: "schema_row \<times> attestor_set_row \<Rightarrow> q_schema option" where
  "fetch_schema j = Option.bind (select_columns SCHEMA_COLUMNS (with_alias ''s'' (schema_cells (fst j)) @ with_alias ''a'' (attestor_set_cells (snd j)))) (schema_row_from_tuple)"

definition view_schema :: "schema_row \<times> attestor_set_row \<Rightarrow> q_schema" where
  "view_schema j =
     \<lparr>qc_id = sc_id (fst j), qc_name = sc_name (fst j), qc_version = sc_version (fst j),
      qc_owner = sc_owner (fst j), qc_attestor_set_id = sc_attestor_set_id (fst j),
      qc_fee_routing_bps = sc_fee_routing_bps (fst j), qc_fee_routing_addr = sc_fee_routing_addr (fst j),
      qc_payload_shape_hash = sc_payload_shape_hash (fst j), qc_registered_at_slot = sc_slot (fst j),
      qc_registered_at_tx = sc_tx (fst j), qc_registered_at_timestamp = sc_timestamp (fst j),
      qc_attestation_count = sc_attestation_count (fst j), qc_threshold = as_threshold (snd j)\<rparr>"

definition fetch_attestor_set :: "attestor_set_row \<Rightarrow> q_attestor_set option" where
  "fetch_attestor_set r = Option.bind (select_columns ATTESTOR_SET_COLUMNS (attestor_set_cells r)) (attestor_set_row_from_tuple)"

definition view_attestor_set :: "attestor_set_row \<Rightarrow> q_attestor_set" where
  "view_attestor_set r =
     \<lparr>qa_id = as_id r, qa_members = as_members r, qa_threshold = as_threshold r,
      qa_registered_at_slot = as_slot r, qa_registered_at_tx = as_tx r,
      qa_registered_at_timestamp = as_timestamp r, qa_schema_count = as_schema_count r\<rparr>"

definition fetch_address :: "address_row \<Rightarrow> q_address option" where
  "fetch_address r = Option.bind (select_columns ADDRESS_COLUMNS (address_cells r)) (address_row_from_tuple)"

definition view_address :: "address_row \<Rightarrow> q_address" where
  "view_address r =
     \<lparr>qd_txs_sent_count = ad_txs_sent_count r, qd_txs_received_count = ad_txs_received_count r,
      qd_first_seen_slot = ad_first_seen_slot r, qd_first_seen_timestamp = ad_first_seen_timestamp r,
      qd_last_seen_slot = ad_last_seen_slot r, qd_last_seen_timestamp = ad_last_seen_timestamp r,
      qd_schemas_owned_count = ad_schemas_owned_count r, qd_attestor_member_count = ad_attestor_member_count r\<rparr>"

definition fetch_attestation :: "attestation_row \<Rightarrow> q_attestation option" where
  "fetch_attestation r = Option.bind (select_columns ATTESTATION_COLUMNS (attestation_cells r)) (attestation_row_from_tuple)"

definition view_attestation :: "attestation_row \<Rightarrow> q_attestation" where
  "view_attestation r =
     \<lparr>qn_id = at_id r, qn_schema_id = at_schema_id r, qn_payload_hash = at_payload_hash r,
      qn_submitter = at_submitter r, qn_submitter_pubkey = at_submitter_pubkey r,
      qn_submitted_at_slot = at_slot r, qn_submitted_at_tx = at_tx r,
      qn_submitted_at_timestamp = at_timestamp r, qn_signature_count = at_signature_count r\<rparr>"

definition fetch_bounty_match :: "bounty_row \<times> nat \<Rightarrow> q_bounty_match option" where
  "fetch_bounty_match j = Option.bind (select_columns BOUNTY_MATCH_COLUMNS (with_alias ''b'' (bounty_cells (fst j)) @ [(''my_attestation_count'', Int8 (int (snd j)))])) (bounty_match_row_from_tuple)"

definition view_bounty_match :: "bounty_row \<times> nat \<Rightarrow> q_bounty_match" where
  "view_bounty_match j =
     \<lparr>qm_id = bo_id (fst j), qm_poster = bo_poster (fst j), qm_board_schema_id = bo_board_schema_id (fst j),
      qm_per_attestation_nano = bo_per_attestation_nano (fst j),
      qm_escrow_remaining_nano = bo_escrow_remaining_nano (fst j), qm_pool_nano = bo_pool_nano (fst j),
      qm_acceptance = bo_acceptance (fst j), qm_expiry_da_height = bo_expiry_da_height (fst j),
      qm_posted_at_slot = bo_slot (fst j), qm_my_attestation_count = int (snd j)\<rparr>"

definition fetch_bounty :: "bounty_row \<Rightarrow> q_bounty option" where
  "fetch_bounty r = Option.bind (select_columns BOUNTY_COLUMNS (bounty_cells r)) (bounty_row_from_tuple)"

definition view_bounty :: "bounty_row \<Rightarrow> q_bounty" where
  "view_bounty r =
     \<lparr>qb_id = bo_id r, qb_poster = bo_poster r, qb_board_schema_id = bo_board_schema_id r,
      qb_pool_nano = bo_pool_nano r, qb_per_attestation_nano = bo_per_attestation_nano r,
      qb_escrow_remaining_nano = bo_escrow_remaining_nano r, qb_status = bo_status r,
      qb_acceptance = bo_acceptance r, qb_expiry_da_height = bo_expiry_da_height r,
      qb_dispute_window_blocks = bo_dispute_window_blocks r, qb_posted_at_slot = bo_slot r,
      qb_posted_at_tx = bo_tx r, qb_posted_at_timestamp = bo_timestamp r, qb_claim_count = bo_claim_count r,
      qb_last_claim_at_slot = bo_last_claim_at_slot r\<rparr>"

definition fetch_contract :: "contract_row \<Rightarrow> q_contract option" where
  "fetch_contract r = Option.bind (select_columns CONTRACT_COLUMNS (contract_cells r)) (contract_row_from_tuple)"

definition view_contract :: "contract_row \<Rightarrow> q_contract" where
  "view_contract r =
     \<lparr>qk_id = co_id r, qk_poster = co_poster r, qk_arbiter = co_arbiter r,
      qk_criteria_doc_hash = co_criteria_doc_hash r, qk_pool_nano = co_pool_nano r,
      qk_escrow_remaining_nano = co_escrow_remaining_nano r, qk_arbiter_fee_bps = co_arbiter_fee_bps r,
      qk_status = co_status r, qk_expiry_da_height = co_expiry_da_height r,
      qk_dispute_window_blocks = co_dispute_window_blocks r, qk_posted_at_slot = co_slot r,
      qk_posted_at_tx = co_tx r, qk_posted_at_timestamp = co_timestamp r\<rparr>"

section \<open>Lemmas\<close>

lemma cell_option_nullable [simp]:
  "(\<And>a. d (f a) = Some a \<and> f a \<noteq> Null) \<Longrightarrow> cell_option d (nullable f x) = Some x"
  by (cases x) (simp_all add: cell_option_def nullable_def)

lemma cell_option_simps [simp]:
  "cell_option cell_string (Text s) = Some (Some s)" "cell_option cell_time (Timestamptz t) = Some (Some t)"
  by (simp_all add: cell_option_def)

lemma slot_shape: "fetch_slot r = Some (view_slot r)"
  by (simp add: fetch_slot_def view_slot_def select_columns_def SLOT_COLUMNS_def slot_cells_def slot_row_from_tuple_def)

lemma tx_shape: "fetch_tx render j = Some (view_tx render j)"
  by (simp add: fetch_tx_def view_tx_def select_columns_def TX_COLUMNS_def with_alias_def slot_cells_def tx_cells_def tx_row_from_tuple_def)

lemma schema_shape: "fetch_schema j = Some (view_schema j)"
  by (simp add: fetch_schema_def view_schema_def select_columns_def SCHEMA_COLUMNS_def with_alias_def attestor_set_cells_def schema_cells_def schema_row_from_tuple_def)

lemma attestor_set_shape: "fetch_attestor_set r = Some (view_attestor_set r)"
  by (simp add: fetch_attestor_set_def view_attestor_set_def select_columns_def ATTESTOR_SET_COLUMNS_def attestor_set_cells_def attestor_set_row_from_tuple_def)

lemma address_shape: "fetch_address r = Some (view_address r)"
  by (simp add: fetch_address_def view_address_def select_columns_def ADDRESS_COLUMNS_def address_cells_def address_row_from_tuple_def)

lemma attestation_shape: "fetch_attestation r = Some (view_attestation r)"
  by (simp add: fetch_attestation_def view_attestation_def select_columns_def ATTESTATION_COLUMNS_def attestation_cells_def attestation_row_from_tuple_def)

lemma bounty_match_shape: "fetch_bounty_match j = Some (view_bounty_match j)"
  by (simp add: fetch_bounty_match_def view_bounty_match_def select_columns_def BOUNTY_MATCH_COLUMNS_def with_alias_def bounty_cells_def bounty_match_row_from_tuple_def)

lemma bounty_shape: "fetch_bounty r = Some (view_bounty r)"
  by (simp add: fetch_bounty_def view_bounty_def select_columns_def BOUNTY_COLUMNS_def bounty_cells_def bounty_row_from_tuple_def)

lemma contract_shape: "fetch_contract r = Some (view_contract r)"
  by (simp add: fetch_contract_def view_contract_def select_columns_def CONTRACT_COLUMNS_def contract_cells_def contract_row_from_tuple_def)

section \<open>Properties\<close>

text \<open>C37. The structs of the read side carry the columns they name: for every row of the nine shapes the column
  list exists in the table, every cell decodes into the Rust type at its position, NULL included, and
  every field of the struct is the column of that name.\<close>

theorem row_shapes:
  "fetch_slot s = Some (view_slot s) \<and> fetch_tx render t = Some (view_tx render t) \<and>
   fetch_schema c = Some (view_schema c) \<and> fetch_attestor_set a = Some (view_attestor_set a) \<and>
   fetch_address d = Some (view_address d) \<and> fetch_attestation n = Some (view_attestation n) \<and>
   fetch_bounty_match m = Some (view_bounty_match m) \<and> fetch_bounty b = Some (view_bounty b) \<and>
   fetch_contract k = Some (view_contract k)"
  by (simp only: slot_shape tx_shape schema_shape attestor_set_shape address_shape attestation_shape
      bounty_match_shape bounty_shape contract_shape simp_thms)

end
