(* ===== verification/Migrations.thy ===== *)
theory Migrations
  imports Row_Shapes Ingest
begin

text \<open>
  The migrations under \<^verbatim>\<open>migrations/\<close>: their statements on the catalog, applied in the order of their
  versions, and the backfills they run on the rows that are already there. The catalog they leave is
  compared with the model of the tables: columns, types and nullability with the cells of the rows, the
  CHECK constraints with the checks of \<open>Store\<close>, the foreign keys with the lookups of the statements.
  Plain indexes and defaults do not show in the model and are left out.
\<close>

section \<open>The catalog\<close>

datatype sql_type = BIGINT | INTEGER | TEXT | JSONB | TIMESTAMPTZ | NUMERIC

record column_def =
  cd_name :: string
  cd_type :: sql_type
  cd_not_null :: bool

datatype sql_cond =
    In_list string "string list"
  | Is_null string
  | Is_not_null string
  | Text_is string string
  | At_least string int
  | At_most string int
  | Above string int
  | Equals string int
  | Conj sql_cond sql_cond
  | Disj sql_cond sql_cond

record table_def =
  td_columns :: "column_def list"
  td_key :: "string list"
  td_unique :: "(string \<times> string list) list"
  td_refs :: "(string \<times> string \<times> string) list"
  td_checks :: "(string \<times> sql_cond) list"

type_synonym catalog = "(string \<times> table_def) list"

datatype ddl =
    Create_table bool string table_def
  | Add_column bool string column_def
  | Drop_not_null string string
  | Drop_constraint string string
  | Add_check string string sql_cond
  | Create_unique_index string string "string list"

datatype ddl_error =
    Duplicate_table string
  | Undefined_table string
  | Duplicate_column string
  | Undefined_column string
  | Undefined_object string
  | Duplicate_object string

definition col_names :: "table_def \<Rightarrow> string list" where
  "col_names td = map cd_name (td_columns td)"

definition alter :: "string \<Rightarrow> (table_def \<Rightarrow> (ddl_error, table_def) result) \<Rightarrow> catalog \<Rightarrow> (ddl_error, catalog) result" where
  "alter tab f cat =
     (case map_of cat tab of
        None \<Rightarrow> Inl (Undefined_table tab)
      | Some td \<Rightarrow> bind_result (f td) (\<lambda>td'. Inr (map (\<lambda>(n, t). if n = tab then (n, td') else (n, t)) cat)))"

text \<open>A foreign key needs a unique column to point to.\<close>

definition dangling :: "catalog \<Rightarrow> table_def \<Rightarrow> string option" where
  "dangling cat td =
     map_option (\<lambda>(_, tab, _). tab)
       (List.find (\<lambda>(_, tab, col). case map_of cat tab of None \<Rightarrow> True | Some t \<Rightarrow> td_key t \<noteq> [col]) (td_refs td))"

fun apply_ddl :: "ddl \<Rightarrow> catalog \<Rightarrow> (ddl_error, catalog) result" where
  "apply_ddl (Create_table if_not_exists tab td) cat =
     (if map_of cat tab \<noteq> None then (if if_not_exists then Inr cat else Inl (Duplicate_table tab))
      else case dangling cat td of Some t \<Rightarrow> Inl (Undefined_table t) | None \<Rightarrow> Inr (cat @ [(tab, td)]))"
| "apply_ddl (Add_column if_not_exists tab col) cat =
     alter tab (\<lambda>td. if cd_name col \<in> set (col_names td)
       then (if if_not_exists then Inr td else Inl (Duplicate_column (cd_name col)))
       else Inr (td\<lparr>td_columns := td_columns td @ [col]\<rparr>)) cat"
| "apply_ddl (Drop_not_null tab col) cat =
     alter tab (\<lambda>td. if col \<notin> set (col_names td) then Inl (Undefined_column col)
       else Inr (td\<lparr>td_columns := map (\<lambda>c. if cd_name c = col then c\<lparr>cd_not_null := False\<rparr> else c) (td_columns td)\<rparr>)) cat"
| "apply_ddl (Drop_constraint tab name) cat =
     alter tab (\<lambda>td. if name \<notin> fst ` set (td_checks td) then Inl (Undefined_object name)
       else Inr (td\<lparr>td_checks := filter (\<lambda>(n, _). n \<noteq> name) (td_checks td)\<rparr>)) cat"
| "apply_ddl (Add_check tab name e) cat =
     alter tab (\<lambda>td. if name \<in> fst ` set (td_checks td) then Inl (Duplicate_object name)
       else Inr (td\<lparr>td_checks := td_checks td @ [(name, e)]\<rparr>)) cat"
| "apply_ddl (Create_unique_index tab name cols) cat =
     alter tab (\<lambda>td. Inr (td\<lparr>td_unique := td_unique td @ [(name, cols)]\<rparr>)) cat"

fun apply_all :: "ddl list \<Rightarrow> catalog \<Rightarrow> (ddl_error, catalog) result" where
  "apply_all [] cat = Inr cat"
| "apply_all (s # ss) cat = bind_result (apply_ddl s cat) (apply_all ss)"

section \<open>The migrations\<close>

definition required :: "string \<Rightarrow> sql_type \<Rightarrow> column_def" where
  "required n t = \<lparr>cd_name = n, cd_type = t, cd_not_null = True\<rparr>"

definition optional :: "string \<Rightarrow> sql_type \<Rightarrow> column_def" where
  "optional n t = \<lparr>cd_name = n, cd_type = t, cd_not_null = False\<rparr>"

definition m_init :: "ddl list" where
  "m_init =
     [Create_table True ''slots''
        \<lparr>td_columns = [required ''height'' BIGINT, required ''hash'' TEXT, optional ''prev_hash'' TEXT,
           optional ''state_root'' TEXT, required ''timestamp'' TIMESTAMPTZ, required ''batch_count'' INTEGER,
           required ''tx_count'' INTEGER, required ''raw'' JSONB, required ''indexed_at'' TIMESTAMPTZ],
         td_key = [''height''], td_unique = [], td_refs = [], td_checks = []\<rparr>,
      Create_table True ''indexer_state''
        \<lparr>td_columns = [required ''k'' TEXT, required ''v'' TEXT, required ''updated_at'' TIMESTAMPTZ],
         td_key = [''k''], td_unique = [], td_refs = [], td_checks = []\<rparr>]"

definition m_transactions :: table_def where
  "m_transactions =
     \<lparr>td_columns = [required ''hash'' TEXT, required ''slot'' BIGINT, required ''position'' INTEGER,
        required ''sender'' TEXT, required ''sender_pubkey'' TEXT, required ''nonce'' BIGINT,
        required ''fee_paid_nano'' NUMERIC, required ''kind'' TEXT, required ''details'' JSONB, required ''raw'' JSONB,
        required ''outcome'' TEXT, optional ''revert_reason'' TEXT, required ''indexed_at'' TIMESTAMPTZ],
      td_key = [''hash''], td_unique = [(''transactions_slot_position_unique'', [''slot'', ''position''])],
      td_refs = [(''slot'', ''slots'', ''height'')],
      td_checks =
        [(''transactions_kind_known'', In_list ''kind'' [''transfer'', ''register_attestor_set'', ''register_schema'',
            ''submit_attestation'', ''unknown'']),
         (''transactions_outcome_known'', In_list ''outcome'' [''committed'', ''reverted'']),
         (''transactions_revert_reason_consistent'',
            Disj (Conj (Text_is ''outcome'' ''reverted'') (Is_not_null ''revert_reason''))
                 (Conj (Text_is ''outcome'' ''committed'') (Is_null ''revert_reason'')))]\<rparr>"

definition m_attestor_sets :: table_def where
  "m_attestor_sets =
     \<lparr>td_columns = [required ''id'' TEXT, required ''members'' JSONB, required ''threshold'' INTEGER,
        required ''registered_at_slot'' BIGINT, required ''registered_at_tx'' TEXT,
        required ''registered_at_timestamp'' TIMESTAMPTZ, required ''schema_count'' INTEGER,
        required ''indexed_at'' TIMESTAMPTZ],
      td_key = [''id''], td_unique = [],
      td_refs = [(''registered_at_slot'', ''slots'', ''height''), (''registered_at_tx'', ''transactions'', ''hash'')],
      td_checks = [(''attestor_sets_threshold_range'', Conj (At_least ''threshold'' 1) (At_most ''threshold'' 64)),
        (''attestor_sets_schema_count_nonneg'', At_least ''schema_count'' 0)]\<rparr>"

definition m_schemas :: table_def where
  "m_schemas =
     \<lparr>td_columns = [required ''id'' TEXT, required ''name'' TEXT, required ''version'' INTEGER, required ''owner'' TEXT,
        required ''attestor_set_id'' TEXT, required ''fee_routing_bps'' INTEGER, optional ''fee_routing_addr'' TEXT,
        required ''payload_shape_hash'' TEXT, required ''registered_at_slot'' BIGINT, required ''registered_at_tx'' TEXT,
        required ''registered_at_timestamp'' TIMESTAMPTZ, required ''attestation_count'' INTEGER,
        required ''indexed_at'' TIMESTAMPTZ],
      td_key = [''id''], td_unique = [(''schemas_owner_name_version_unique'', [''owner'', ''name'', ''version''])],
      td_refs = [(''attestor_set_id'', ''attestor_sets'', ''id''), (''registered_at_slot'', ''slots'', ''height''),
        (''registered_at_tx'', ''transactions'', ''hash'')],
      td_checks =
        [(''schemas_fee_routing_bps_range'', Conj (At_least ''fee_routing_bps'' 0) (At_most ''fee_routing_bps'' 10000)),
         (''schemas_fee_routing_addr_consistent'',
            Disj (Conj (Above ''fee_routing_bps'' 0) (Is_not_null ''fee_routing_addr''))
                 (Conj (Equals ''fee_routing_bps'' 0) (Is_null ''fee_routing_addr''))),
         (''schemas_attestation_count_nonneg'', At_least ''attestation_count'' 0)]\<rparr>"

definition m_attestations :: table_def where
  "m_attestations =
     \<lparr>td_columns = [required ''schema_id'' TEXT, required ''payload_hash'' TEXT, required ''submitter'' TEXT,
        required ''submitter_pubkey'' TEXT, required ''submitted_at_slot'' BIGINT, required ''submitted_at_tx'' TEXT,
        required ''submitted_at_timestamp'' TIMESTAMPTZ, required ''signature_count'' INTEGER,
        required ''indexed_at'' TIMESTAMPTZ],
      td_key = [''schema_id'', ''payload_hash'', ''submitted_at_tx''], td_unique = [],
      td_refs = [(''schema_id'', ''schemas'', ''id''), (''submitted_at_slot'', ''slots'', ''height''),
        (''submitted_at_tx'', ''transactions'', ''hash'')],
      td_checks = [(''attestations_signature_count_pos'', At_least ''signature_count'' 1)]\<rparr>"

definition all_null :: "string \<Rightarrow> string \<Rightarrow> string \<Rightarrow> sql_cond" where
  "all_null a b c = Conj (Is_null a) (Conj (Is_null b) (Is_null c))"

definition none_null :: "string \<Rightarrow> string \<Rightarrow> string \<Rightarrow> sql_cond" where
  "none_null a b c = Conj (Is_not_null a) (Conj (Is_not_null b) (Is_not_null c))"

definition m_address_summaries :: table_def where
  "m_address_summaries =
     \<lparr>td_columns = [required ''address'' TEXT, required ''txs_sent_count'' BIGINT, required ''txs_received_count'' BIGINT,
        optional ''first_seen_slot'' BIGINT, optional ''first_seen_tx'' TEXT, optional ''first_seen_timestamp'' TIMESTAMPTZ,
        optional ''last_seen_slot'' BIGINT, optional ''last_seen_tx'' TEXT, optional ''last_seen_timestamp'' TIMESTAMPTZ,
        required ''schemas_owned_count'' INTEGER, required ''attestor_member_count'' INTEGER,
        required ''indexed_at'' TIMESTAMPTZ],
      td_key = [''address''], td_unique = [], td_refs = [],
      td_checks =
        [(''address_summaries_counts_nonneg'',
            Conj (At_least ''txs_sent_count'' 0) (Conj (At_least ''txs_received_count'' 0)
              (Conj (At_least ''schemas_owned_count'' 0) (At_least ''attestor_member_count'' 0)))),
         (''address_summaries_first_seen_consistent'',
            Disj (all_null ''first_seen_slot'' ''first_seen_tx'' ''first_seen_timestamp'')
                 (none_null ''first_seen_slot'' ''first_seen_tx'' ''first_seen_timestamp'')),
         (''address_summaries_last_seen_consistent'',
            Disj (all_null ''last_seen_slot'' ''last_seen_tx'' ''last_seen_timestamp'')
                 (none_null ''last_seen_slot'' ''last_seen_tx'' ''last_seen_timestamp''))]\<rparr>"

definition m_query_tables :: "ddl list" where
  "m_query_tables =
     [Create_table True ''transactions'' m_transactions, Create_table True ''attestor_sets'' m_attestor_sets,
      Create_table True ''schemas'' m_schemas, Create_table True ''attestations'' m_attestations,
      Create_table True ''address_summaries'' m_address_summaries]"

definition m_bot_drips :: "ddl list" where
  "m_bot_drips =
     [Create_table False ''bot_drips''
        \<lparr>td_columns = [required ''id'' BIGINT, required ''address'' TEXT, required ''discord_user_id'' TEXT,
           required ''amount_nano'' NUMERIC, required ''tx_hash'' TEXT, required ''tier'' TEXT,
           optional ''server_tenure_days'' INTEGER, optional ''account_age_days'' INTEGER, required ''dripped_at'' TIMESTAMPTZ],
         td_key = [''id''], td_unique = [], td_refs = [], td_checks = []\<rparr>]"

definition m_bounties :: "ddl list" where
  "m_bounties =
     [Create_table True ''bounties''
        \<lparr>td_columns = [required ''id'' TEXT, required ''poster'' TEXT, required ''board_schema_id'' TEXT,
           required ''pool_nano'' TEXT, required ''per_attestation_nano'' TEXT, required ''escrow_remaining_nano'' TEXT,
           required ''status'' TEXT, required ''acceptance'' JSONB, required ''expiry_da_height'' BIGINT,
           required ''dispute_window_blocks'' INTEGER, required ''posted_at_slot'' BIGINT, required ''posted_at_tx'' TEXT,
           required ''posted_at_timestamp'' TIMESTAMPTZ, required ''claim_count'' INTEGER, optional ''last_claim_at_slot'' BIGINT],
         td_key = [''id''], td_unique = [], td_refs = [(''board_schema_id'', ''schemas'', ''id'')],
         td_checks = [(''bounties_status_check'',
           In_list ''status'' [''open'', ''exhausted'', ''expired'', ''cancelled'', ''finalised''])]\<rparr>]"

definition m_contracts :: "ddl list" where
  "m_contracts =
     [Create_table True ''contracts''
        \<lparr>td_columns = [required ''id'' TEXT, required ''poster'' TEXT, required ''arbiter'' TEXT,
           required ''criteria_doc_hash'' TEXT, required ''pool_nano'' TEXT, required ''escrow_remaining_nano'' TEXT,
           required ''arbiter_fee_bps'' INTEGER, required ''status'' TEXT, required ''expiry_da_height'' BIGINT,
           required ''dispute_window_blocks'' INTEGER, required ''posted_at_slot'' BIGINT, required ''posted_at_tx'' TEXT,
           required ''posted_at_timestamp'' TIMESTAMPTZ],
         td_key = [''id''], td_unique = [], td_refs = [],
         td_checks = [(''contracts_status_check'', In_list ''status'' [''open'', ''committed'', ''delivered'', ''accepted'',
           ''rejected'', ''disputed'', ''cancelled'', ''expired''])]\<rparr>]"

definition m_elided_columns :: "ddl list" where
  "m_elided_columns =
     [Drop_not_null ''transactions'' ''sender_pubkey'', Drop_not_null ''transactions'' ''nonce'',
      Drop_not_null ''transactions'' ''fee_paid_nano'']"

definition m_pubkey_nullable :: "ddl list" where
  "m_pubkey_nullable = [Drop_not_null ''attestations'' ''submitter_pubkey'']"

definition m_protocol_fee :: "ddl list" where
  "m_protocol_fee = [Add_column True ''transactions'' (optional ''protocol_fee_nano'' NUMERIC)]"

definition m_settlement_columns :: "ddl list" where
  "m_settlement_columns =
     [Add_column True ''slots'' (optional ''proposer'' TEXT),
      Add_column True ''slots'' (optional ''finality_status'' TEXT),
      Add_column True ''slots'' (optional ''finalized_at'' TIMESTAMPTZ)]"

definition m_attestation_id :: "ddl list" where
  "m_attestation_id =
     [Add_column False ''attestations'' (required ''id'' TEXT),
      Create_unique_index ''attestations'' ''attestations_id_unique'' [''id'']]"

definition m_da_block_height :: "ddl list" where
  "m_da_block_height = [Add_column True ''slots'' (optional ''da_block_height'' BIGINT)]"

definition m_sender_nullable :: "ddl list" where
  "m_sender_nullable = [Drop_not_null ''transactions'' ''sender'']"

definition m_kinds :: "ddl list" where
  "m_kinds =
     [Drop_constraint ''transactions'' ''transactions_kind_known'',
      Add_check ''transactions'' ''transactions_kind_known'' (In_list ''kind'' [''transfer'', ''register_attestor_set'',
        ''register_schema'', ''submit_attestation'', ''bounty_event'', ''contract_event'', ''unknown''])]"

text \<open>Version 20260516000003 only fills rows.\<close>

definition migrations :: "(string \<times> ddl list) list" where
  "migrations =
     [(''20260507000001'', m_init), (''20260509000001'', m_query_tables), (''20260509000002'', m_elided_columns),
      (''20260512000001'', m_pubkey_nullable), (''20260516000001'', m_protocol_fee), (''20260516000002'', m_settlement_columns),
      (''20260516000003'', []), (''20260517000001'', m_attestation_id), (''20260518000001'', m_bot_drips),
      (''20260518000002'', m_da_block_height), (''20260528000001'', m_bounties), (''20260529000001'', m_contracts),
      (''20260529000002'', m_sender_nullable), (''20260529000003'', m_kinds)]"

definition migrated :: "(ddl_error, catalog) result" where
  "migrated = apply_all (concat (map snd migrations)) []"

definition final_table :: "string \<Rightarrow> table_def option" where
  "final_table tab = (case migrated of Inl _ \<Rightarrow> None | Inr cat \<Rightarrow> map_of cat tab)"

section \<open>Rows against the catalog\<close>

fun has_type :: "sql_type \<Rightarrow> sql_value \<Rightarrow> bool" where
  "has_type BIGINT (Int8 _) = True"
| "has_type INTEGER (Int4 _) = True"
| "has_type TEXT (Text _) = True"
| "has_type JSONB (Jsonb _) = True"
| "has_type TIMESTAMPTZ (Timestamptz _) = True"
| "has_type NUMERIC (Numeric _) = True"
| "has_type _ _ = False"

definition fits :: "column_def \<Rightarrow> string \<times> sql_value \<Rightarrow> bool" where
  "fits col cell \<longleftrightarrow> fst cell = cd_name col \<and>
     (if snd cell = Null then \<not> cd_not_null col else has_type (cd_type col) (snd cell))"

definition conforms :: "table_def \<Rightarrow> cells \<Rightarrow> bool" where
  "conforms td cs \<longleftrightarrow> list_all2 fits (td_columns td) cs"

text \<open>SQL conditions are three-valued, and a CHECK rejects a row only when it is false.\<close>

fun and3 :: "bool option \<Rightarrow> bool option \<Rightarrow> bool option" where
  "and3 (Some a) (Some b) = Some (a \<and> b)"
| "and3 (Some False) None = Some False"
| "and3 None (Some False) = Some False"
| "and3 _ _ = None"

fun or3 :: "bool option \<Rightarrow> bool option \<Rightarrow> bool option" where
  "or3 (Some a) (Some b) = Some (a \<or> b)"
| "or3 (Some True) None = Some True"
| "or3 None (Some True) = Some True"
| "or3 _ _ = None"

fun number_in :: "cells \<Rightarrow> string \<Rightarrow> int option" where
  "number_in cs c = (case map_of cs c of Some (Int4 i) \<Rightarrow> Some i | Some (Int8 i) \<Rightarrow> Some i | _ \<Rightarrow> None)"

fun text_in :: "cells \<Rightarrow> string \<Rightarrow> string option" where
  "text_in cs c = (case map_of cs c of Some (Text s) \<Rightarrow> Some s | _ \<Rightarrow> None)"

fun holds :: "cells \<Rightarrow> sql_cond \<Rightarrow> bool option" where
  "holds cs (In_list c xs) = map_option (\<lambda>s. s \<in> set xs) (text_in cs c)"
| "holds cs (Is_null c) = Some (map_of cs c = Some Null)"
| "holds cs (Is_not_null c) = Some (map_of cs c \<noteq> Some Null)"
| "holds cs (Text_is c s) = map_option (\<lambda>x. x = s) (text_in cs c)"
| "holds cs (At_least c n) = map_option (\<lambda>i. n \<le> i) (number_in cs c)"
| "holds cs (At_most c n) = map_option (\<lambda>i. i \<le> n) (number_in cs c)"
| "holds cs (Above c n) = map_option (\<lambda>i. n < i) (number_in cs c)"
| "holds cs (Equals c n) = map_option (\<lambda>i. i = n) (number_in cs c)"
| "holds cs (Conj a b) = and3 (holds cs a) (holds cs b)"
| "holds cs (Disj a b) = or3 (holds cs a) (holds cs b)"

definition checks_pass :: "table_def \<Rightarrow> cells \<Rightarrow> bool" where
  "checks_pass td cs \<longleftrightarrow> (\<forall>(n, e) \<in> set (td_checks td). holds cs e \<noteq> Some False)"

text \<open>Foreign keys and unique keys, on the cells of the tables.\<close>

definition table_cells :: "db \<Rightarrow> string \<Rightarrow> cells list" where
  "table_cells d tab =
     (if tab = ''slots'' then map slot_cells (slots d)
      else if tab = ''transactions'' then map tx_cells (transactions d)
      else if tab = ''attestor_sets'' then map attestor_set_cells (attestor_sets d)
      else if tab = ''schemas'' then map schema_cells (schemas d)
      else if tab = ''attestations'' then map attestation_cells (attestations d)
      else [])"

definition refs_resolve :: "table_def \<Rightarrow> db \<Rightarrow> cells \<Rightarrow> bool" where
  "refs_resolve td d cs \<longleftrightarrow>
     (\<forall>(c, tab, k) \<in> set (td_refs td). map_of cs c = Some Null \<or> (\<exists>row \<in> set (table_cells d tab). map_of row k = map_of cs c))"

section \<open>What the migrations leave\<close>

definition final_slots :: table_def where
  "final_slots =
     \<lparr>td_columns = [required ''height'' BIGINT, required ''hash'' TEXT, optional ''prev_hash'' TEXT,
        optional ''state_root'' TEXT, required ''timestamp'' TIMESTAMPTZ, required ''batch_count'' INTEGER,
        required ''tx_count'' INTEGER, required ''raw'' JSONB, required ''indexed_at'' TIMESTAMPTZ, optional ''proposer'' TEXT,
        optional ''finality_status'' TEXT, optional ''finalized_at'' TIMESTAMPTZ, optional ''da_block_height'' BIGINT],
      td_key = [''height''], td_unique = [], td_refs = [], td_checks = []\<rparr>"

definition final_transactions :: table_def where
  "final_transactions =
     \<lparr>td_columns = [required ''hash'' TEXT, required ''slot'' BIGINT, required ''position'' INTEGER,
        optional ''sender'' TEXT, optional ''sender_pubkey'' TEXT, optional ''nonce'' BIGINT,
        optional ''fee_paid_nano'' NUMERIC, required ''kind'' TEXT, required ''details'' JSONB, required ''raw'' JSONB,
        required ''outcome'' TEXT, optional ''revert_reason'' TEXT, required ''indexed_at'' TIMESTAMPTZ,
        optional ''protocol_fee_nano'' NUMERIC],
      td_key = [''hash''], td_unique = [(''transactions_slot_position_unique'', [''slot'', ''position''])],
      td_refs = [(''slot'', ''slots'', ''height'')],
      td_checks =
        [(''transactions_outcome_known'', In_list ''outcome'' [''committed'', ''reverted'']),
         (''transactions_revert_reason_consistent'',
            Disj (Conj (Text_is ''outcome'' ''reverted'') (Is_not_null ''revert_reason''))
                 (Conj (Text_is ''outcome'' ''committed'') (Is_null ''revert_reason''))),
         (''transactions_kind_known'', In_list ''kind'' [''transfer'', ''register_attestor_set'', ''register_schema'',
            ''submit_attestation'', ''bounty_event'', ''contract_event'', ''unknown''])]\<rparr>"

definition final_attestations :: table_def where
  "final_attestations =
     \<lparr>td_columns = [required ''schema_id'' TEXT, required ''payload_hash'' TEXT, required ''submitter'' TEXT,
        optional ''submitter_pubkey'' TEXT, required ''submitted_at_slot'' BIGINT, required ''submitted_at_tx'' TEXT,
        required ''submitted_at_timestamp'' TIMESTAMPTZ, required ''signature_count'' INTEGER,
        required ''indexed_at'' TIMESTAMPTZ, required ''id'' TEXT],
      td_key = [''schema_id'', ''payload_hash'', ''submitted_at_tx''], td_unique = [(''attestations_id_unique'', [''id''])],
      td_refs = [(''schema_id'', ''schemas'', ''id''), (''submitted_at_slot'', ''slots'', ''height''),
        (''submitted_at_tx'', ''transactions'', ''hash'')],
      td_checks = [(''attestations_signature_count_pos'', At_least ''signature_count'' 1)]\<rparr>"

definition created :: "ddl list \<Rightarrow> (string \<times> table_def) list" where
  "created ss = concat (map (\<lambda>s. case s of Create_table _ tab td \<Rightarrow> [(tab, td)] | _ \<Rightarrow> []) ss)"

lemma nullable_cells:
  "nullable Int8 a = Null \<longleftrightarrow> a = None" "nullable Int4 a = Null \<longleftrightarrow> a = None" "nullable Text b = Null \<longleftrightarrow> b = None"
  "nullable Timestamptz a = Null \<longleftrightarrow> a = None" "nullable Numeric a = Null \<longleftrightarrow> a = None"
  by (simp_all add: nullable_def split: option.split)

lemma fits_required:
  "fits (required n BIGINT) (m, Int8 i) \<longleftrightarrow> m = n" "fits (required n INTEGER) (m, Int4 i) \<longleftrightarrow> m = n"
  "fits (required n TEXT) (m, Text x) \<longleftrightarrow> m = n" "fits (required n JSONB) (m, Jsonb v) \<longleftrightarrow> m = n"
  "fits (required n TIMESTAMPTZ) (m, Timestamptz t) \<longleftrightarrow> m = n" "fits (required n NUMERIC) (m, Numeric i) \<longleftrightarrow> m = n"
  by (simp_all add: fits_def required_def)

lemma fits_optional:
  "fits (optional n BIGINT) (m, nullable Int8 a) \<longleftrightarrow> m = n" "fits (optional n INTEGER) (m, nullable Int4 a) \<longleftrightarrow> m = n"
  "fits (optional n TEXT) (m, nullable Text x) \<longleftrightarrow> m = n"
  "fits (optional n TIMESTAMPTZ) (m, nullable Timestamptz a) \<longleftrightarrow> m = n"
  "fits (optional n NUMERIC) (m, nullable Numeric a) \<longleftrightarrow> m = n"
  by (simp_all add: fits_def optional_def nullable_def split: option.split)

lemma migrated_catalog:
  "migrated = Inr ([(''slots'', final_slots)] @ drop 1 (created m_init) @
     [(''transactions'', final_transactions), (''attestor_sets'', m_attestor_sets), (''schemas'', m_schemas),
      (''attestations'', final_attestations), (''address_summaries'', m_address_summaries)] @
     created m_bot_drips @ created m_bounties @ created m_contracts)"
  by code_simp

definition table_of :: "ddl list \<Rightarrow> string \<Rightarrow> table_def" where
  "table_of ss tab = the (map_of (created ss) tab)"

lemma catalog_tables:
  "final_table ''slots'' = Some final_slots" "final_table ''indexer_state'' = Some (table_of m_init ''indexer_state'')"
  "final_table ''transactions'' = Some final_transactions" "final_table ''attestor_sets'' = Some m_attestor_sets"
  "final_table ''schemas'' = Some m_schemas" "final_table ''attestations'' = Some final_attestations"
  "final_table ''address_summaries'' = Some m_address_summaries"
  "final_table ''bot_drips'' = Some (table_of m_bot_drips ''bot_drips'')"
  "final_table ''bounties'' = Some (table_of m_bounties ''bounties'')"
  "final_table ''contracts'' = Some (table_of m_contracts ''contracts'')"
  by (simp_all add: final_table_def migrated_catalog table_of_def created_def m_init_def m_bot_drips_def m_bounties_def m_contracts_def)

lemmas catalog_columns = conforms_def fits_required fits_optional nullable_cells final_slots_def final_transactions_def
  m_attestor_sets_def m_schemas_def final_attestations_def m_address_summaries_def

text \<open>The cells of the two tables whose rows the read side never decodes as a whole. The serial id of a drip is the database's.\<close>

definition state_cells :: "state_row \<Rightarrow> cells" where
  "state_cells r = [(''k'', Text (st_k r)), (''v'', Text (st_v r)), (''updated_at'', Timestamptz (st_updated_at r))]"

definition bot_drip_cells :: "int \<Rightarrow> bot_drip_row \<Rightarrow> cells" where
  "bot_drip_cells i r =
     [(''id'', Int8 i), (''address'', Text (bd_address r)), (''discord_user_id'', Text (bd_discord_user_id r)),
      (''amount_nano'', Numeric (int (bd_amount_nano r))), (''tx_hash'', Text (bd_tx_hash r)), (''tier'', Text (bd_tier r)),
      (''server_tenure_days'', nullable Int4 (bd_server_tenure_days r)),
      (''account_age_days'', nullable Int4 (bd_account_age_days r)), (''dripped_at'', Timestamptz (bd_dripped_at r))]"

text \<open>A row as the catalog has it: it fits the columns, passes the checks and resolves its references.\<close>

definition declared :: "string \<Rightarrow> cells \<Rightarrow> db \<Rightarrow> bool \<Rightarrow> bool \<Rightarrow> bool" where
  "declared tab cs d check refs \<longleftrightarrow>
     (case final_table tab of
        None \<Rightarrow> False
      | Some td \<Rightarrow> conforms td cs \<and> (checks_pass td cs \<longleftrightarrow> check) \<and> (refs_resolve td d cs \<longleftrightarrow> refs))"

lemma found_iff: "find_row key k rows \<noteq> None \<longleftrightarrow> (\<exists>r \<in> set rows. key r = k)"
  by (induction rows) auto

lemma referenced:
  "(\<exists>row \<in> set (table_cells d ''slots''). map_of row ''height'' = Some (Int8 h)) \<longleftrightarrow> find_row s_height h (slots d) \<noteq> None"
  "(\<exists>row \<in> set (table_cells d ''transactions''). map_of row ''hash'' = Some (Text x)) \<longleftrightarrow> find_row t_hash x (transactions d) \<noteq> None"
  "(\<exists>row \<in> set (table_cells d ''attestor_sets''). map_of row ''id'' = Some (Text x)) \<longleftrightarrow> find_row as_id x (attestor_sets d) \<noteq> None"
  "(\<exists>row \<in> set (table_cells d ''schemas''). map_of row ''id'' = Some (Text x)) \<longleftrightarrow> find_row sc_id x (schemas d) \<noteq> None"
  unfolding found_iff
  by (simp_all add: table_cells_def slot_cells_def tx_cells_def attestor_set_cells_def schema_cells_def)

lemmas declared_simps = declared_def catalog_tables catalog_columns checks_pass_def refs_resolve_def

lemmas created_tables = table_of_def created_def m_init_def m_bot_drips_def m_bounties_def m_contracts_def

lemma declared_slots: "declared ''slots'' (slot_cells r) d True True"
  by (simp add: declared_simps slot_cells_def)

lemma declared_state: "declared ''indexer_state'' (state_cells r) d True True"
  by (simp add: declared_simps created_tables state_cells_def)

lemma declared_bot_drips: "declared ''bot_drips'' (bot_drip_cells i r) d True True"
  by (simp add: declared_simps created_tables bot_drip_cells_def)

lemma declared_transactions:
  "declared ''transactions'' (tx_cells r) d (tx_check r) (find_row s_height (t_slot r) (slots d) \<noteq> None)"
  by (auto simp: declared_simps tx_cells_def referenced tx_check_def tx_kinds_def revert_reason_consistent_def)

lemma declared_attestor_sets:
  "declared ''attestor_sets'' (attestor_set_cells r) d (attestor_set_check r)
     (find_row s_height (as_slot r) (slots d) \<noteq> None \<and> find_row t_hash (as_tx r) (transactions d) \<noteq> None)"
  by (auto simp: declared_simps attestor_set_cells_def referenced attestor_set_check_def)

lemma declared_schemas:
  "declared ''schemas'' (schema_cells r) d (schema_check r)
     (find_row as_id (sc_attestor_set_id r) (attestor_sets d) \<noteq> None \<and> find_row s_height (sc_slot r) (slots d) \<noteq> None \<and>
      find_row t_hash (sc_tx r) (transactions d) \<noteq> None)"
  by (auto simp: declared_simps schema_cells_def referenced schema_check_def)

lemma declared_attestations:
  "declared ''attestations'' (attestation_cells r) d (attestation_check r)
     (find_row sc_id (at_schema_id r) (schemas d) \<noteq> None \<and> find_row s_height (at_slot r) (slots d) \<noteq> None \<and>
      find_row t_hash (at_tx r) (transactions d) \<noteq> None)"
  by (auto simp: declared_simps attestation_cells_def referenced attestation_check_def)

lemma declared_addresses: "declared ''address_summaries'' (address_cells r) d (address_check r) True"
  by (auto simp: declared_simps address_cells_def address_check_def all_or_nothing_def all_null_def none_null_def)

lemma declared_bounties:
  "declared ''bounties'' (bounty_cells r) d (bo_status r \<in> set bounty_statuses)
     (find_row sc_id (bo_board_schema_id r) (schemas d) \<noteq> None)"
  by (auto simp: declared_simps created_tables bounty_cells_def referenced bounty_statuses_def)

lemma declared_contracts: "declared ''contracts'' (contract_cells r) d (co_status r \<in> set contract_statuses) True"
  by (auto simp: declared_simps created_tables contract_cells_def contract_statuses_def)

section \<open>Backfills\<close>

definition protocol_fee_of_kind :: "string \<Rightarrow> int option" where
  "protocol_fee_of_kind kind =
     (if kind = ''register_attestor_set'' then Some 50000000
      else if kind = ''register_schema'' then Some 100000000
      else if kind = ''submit_attestation'' then Some 100000
      else if kind = ''transfer'' then Some 0
      else None)"

definition backfill_protocol_fee :: "db \<Rightarrow> db" where
  "backfill_protocol_fee d =
     d\<lparr>transactions := update_where (\<lambda>r. t_protocol_fee_nano r = None)
        (\<lambda>r. r\<lparr>t_protocol_fee_nano := protocol_fee_of_kind (t_kind r)\<rparr>) (transactions d)\<rparr>"

definition backfill_prev_hash :: "db \<Rightarrow> db" where
  "backfill_prev_hash d =
     d\<lparr>slots := update_where (\<lambda>r. s_prev_hash r = None \<and> s_height r > 0)
        (\<lambda>r. r\<lparr>s_prev_hash := map_option s_hash (find_row s_height (s_height r - 1) (slots d))\<rparr>) (slots d)\<rparr>"

definition backfill_finality :: "db \<Rightarrow> db" where
  "backfill_finality d =
     d\<lparr>slots := update_where
        (\<lambda>r. s_finality_status r = None \<and> s_height r < Max (s_height ` set (slots d)) - 5)
        (\<lambda>r. r\<lparr>s_finality_status := Some finalized\<rparr>) (slots d)\<rparr>"

definition backfill_fee_paid :: "db \<Rightarrow> db" where
  "backfill_fee_paid d =
     d\<lparr>transactions := update_where (\<lambda>r. t_fee_paid_nano r = None) (\<lambda>r. r\<lparr>t_fee_paid_nano := Some 0\<rparr>) (transactions d)\<rparr>"

definition truncate_attestations :: "db \<Rightarrow> db" where
  "truncate_attestations d = d\<lparr>attestations := []\<rparr>"

text \<open>The backfill of the protocol fee writes what the indexer would have written.\<close>

lemma backfill_fee_agrees: "protocol_fee_of_kind (kind_label k) = protocol_fee_nano k"
  by (cases k) (simp_all add: protocol_fee_of_kind_def)

text \<open>The rows are filled in the order of the versions; the truncation comes last. A database created by these
  migrations starts empty, with nothing for them to fill.\<close>

definition run_backfills :: "db \<Rightarrow> db" where
  "run_backfills d =
     truncate_attestations (backfill_fee_paid (backfill_finality (backfill_prev_hash (backfill_protocol_fee d))))"

lemma run_backfills_empty: "run_backfills empty_db = empty_db"
  by (simp add: run_backfills_def backfill_protocol_fee_def backfill_prev_hash_def backfill_finality_def
      backfill_fee_paid_def truncate_attestations_def update_where_def empty_db_def)

lemma run_backfills_fees:
  "r \<in> set (transactions (run_backfills d)) \<Longrightarrow> t_fee_paid_nano r \<noteq> None \<and>
     (t_kind r \<in> {''transfer'', ''register_attestor_set'', ''register_schema'', ''submit_attestation''} \<longrightarrow>
        t_protocol_fee_nano r \<noteq> None)"
  by (auto simp: run_backfills_def backfill_protocol_fee_def backfill_prev_hash_def backfill_finality_def
      backfill_fee_paid_def truncate_attestations_def update_where_def protocol_fee_of_kind_def split: if_splits)

text \<open>The re-poll task looks at pending rows only.\<close>

lemma repoll_not_pending:
  assumes "slot_of (p_db p) h = Some r" and "s_finality_status r \<noteq> Some ''pending''"
  shows "slot_of (p_db (repoll_tick P C p)) h = Some r"
proof -
  have flip: "slot_of (p_db (snd (flip_pending_slots P obs q))) h = Some r" if "slot_of (p_db q) h = Some r" for obs q
    unfolding flip_pending_slots_def
    by (rule flip_from_induct [where I = "\<lambda>d. slot_of d h = Some r"]) (use that assms(2) in \<open>auto simp: slot_of_flip\<close>)
  obtain res q where q: "pending_slot_heights P p = (res, q)" by force
  then have "p_db q = p_db p"
    by (auto simp: pending_slot_heights_def exec_def Let_def split: if_splits)
  with assms(1) have sl: "slot_of (p_db (snd (observe_pending C hs q))) h = Some r" for hs
    using present.observe_pending_db by (simp add: present.observe_pending_db)
  show ?thesis
  proof (cases res)
    case (Inl e)
    with q \<open>p_db q = p_db p\<close> assms(1) show ?thesis by (simp add: repoll_tick_def)
  next
    case (Inr hs)
    with q \<open>p_db q = p_db p\<close> assms(1) flip [OF sl] show ?thesis by (simp add: repoll_tick_def case_prod_unfold)
  qed
qed

lemma repolls_not_pending:
  assumes "slot_of (p_db p) h = Some r" and "s_finality_status r \<noteq> Some ''pending''"
  shows "slot_of (p_db (((repoll_tick P C) ^^ n) p)) h = Some r"
  by (induction n) (use assms in \<open>simp_all add: repoll_not_pending\<close>)

section \<open>Properties\<close>

text \<open>C38. The catalog the migrations leave is the one the model of the database has: applied in their order to an empty
  catalog all of them succeed, and for every table the columns, their order, types and nullability are those of
  the cells of its rows, the CHECK constraints that remain hold of a row exactly when the check of the model
  does, and its foreign keys resolve exactly when the lookups of the writing statement succeed. Dropping the
  old list of transaction kinds and adding the new one is part of it, as is the nullability relaxed later.\<close>

theorem tables_as_declared:
  "declared ''slots'' (slot_cells r1) d True True \<and> declared ''indexer_state'' (state_cells r2) d True True \<and>
   declared ''transactions'' (tx_cells r3) d (tx_check r3) (find_row s_height (t_slot r3) (slots d) \<noteq> None) \<and>
   declared ''attestor_sets'' (attestor_set_cells r4) d (attestor_set_check r4)
     (find_row s_height (as_slot r4) (slots d) \<noteq> None \<and> find_row t_hash (as_tx r4) (transactions d) \<noteq> None) \<and>
   declared ''schemas'' (schema_cells r5) d (schema_check r5)
     (find_row as_id (sc_attestor_set_id r5) (attestor_sets d) \<noteq> None \<and> find_row s_height (sc_slot r5) (slots d) \<noteq> None \<and>
      find_row t_hash (sc_tx r5) (transactions d) \<noteq> None) \<and>
   declared ''attestations'' (attestation_cells r6) d (attestation_check r6)
     (find_row sc_id (at_schema_id r6) (schemas d) \<noteq> None \<and> find_row s_height (at_slot r6) (slots d) \<noteq> None \<and>
      find_row t_hash (at_tx r6) (transactions d) \<noteq> None) \<and>
   declared ''address_summaries'' (address_cells r7) d (address_check r7) True \<and>
   declared ''bounties'' (bounty_cells r8) d (bo_status r8 \<in> set bounty_statuses)
     (find_row sc_id (bo_board_schema_id r8) (schemas d) \<noteq> None) \<and>
   declared ''contracts'' (contract_cells r9) d (co_status r9 \<in> set contract_statuses) True \<and>
   declared ''bot_drips'' (bot_drip_cells i r10) d True True"
  by (intro conjI declared_slots declared_state declared_transactions declared_attestor_sets declared_schemas
      declared_attestations declared_addresses declared_bounties declared_contracts declared_bot_drips)

text \<open>C39. What the settlement migration does to a database that has slots but no finality yet, and that nothing revises it:
  a slot more than five below the head is marked finalized without a stamp, the newer ones stay without a status,
  a missing parent hash is taken from the slot below, and however often the re-poll task then runs, every
  one of these rows stays as the migration left it, since the task reads pending rows only.\<close>

theorem settlement_backfill_stays:
  assumes "unique_key s_height (slots d)" and "\<forall>r \<in> set (slots d). s_finality_status r = None \<and> s_finalized_at r = None"
    and "p_db p = backfill_finality (backfill_prev_hash d)"
  shows "\<forall>r \<in> set (slots d). \<exists>r'. slot_of (p_db (((repoll_tick P C) ^^ n) p)) (s_height r) = Some r' \<and>
    s_hash r' = s_hash r \<and> s_finalized_at r' = None \<and>
    s_finality_status r' = (if s_height r < Max (s_height ` set (slots d)) - 5 then Some finalized else None) \<and>
    s_prev_hash r' = (if s_prev_hash r = None \<and> s_height r > 0 then map_option s_hash (slot_of d (s_height r - 1))
                      else s_prev_hash r)"
proof
  fix r assume r: "r \<in> set (slots d)"
  let ?linked = "if s_prev_hash r = None \<and> s_height r > 0
    then r\<lparr>s_prev_hash := map_option s_hash (find_row s_height (s_height r - 1) (slots d))\<rparr> else r"
  let ?r' = "if s_height r < Max (s_height ` set (slots d)) - 5 then ?linked\<lparr>s_finality_status := Some finalized\<rparr> else ?linked"
  have st: "s_finality_status r = None" "s_finalized_at r = None" using r assms(2) by auto
  have "find_row s_height (s_height r) (slots d) = Some r"
    using r find_row_Some_iff [OF assms(1), of "s_height r" r] by simp
  then have linked: "find_row s_height (s_height r) (slots (backfill_prev_hash d)) = Some ?linked"
    by (simp add: backfill_prev_hash_def find_row_update_where)
  have heights: "s_height ` set (slots (backfill_prev_hash d)) = s_height ` set (slots d)"
    by (simp add: backfill_prev_hash_def update_where_keys)
  have "slot_of (p_db p) (s_height r) = Some ?r'"
    using linked st by (simp add: assms(3) backfill_finality_def slot_of_def find_row_update_where heights)
  moreover have "s_finality_status ?r' \<noteq> Some ''pending''" using st by (simp add: finalized_def)
  ultimately have "slot_of (p_db (((repoll_tick P C) ^^ n) p)) (s_height r) = Some ?r'" by (rule repolls_not_pending)
  then show "\<exists>r'. slot_of (p_db (((repoll_tick P C) ^^ n) p)) (s_height r) = Some r' \<and>
    s_hash r' = s_hash r \<and> s_finalized_at r' = None \<and>
    s_finality_status r' = (if s_height r < Max (s_height ` set (slots d)) - 5 then Some finalized else None) \<and>
    s_prev_hash r' = (if s_prev_hash r = None \<and> s_height r > 0 then map_option s_hash (slot_of d (s_height r - 1))
                      else s_prev_hash r)"
    using st by (intro exI [of _ ?r']) (auto simp: slot_of_def)
qed

definition legacy_slot :: "int \<Rightarrow> string \<Rightarrow> slot_row" where
  "legacy_slot h x = \<lparr>s_height = h, s_hash = x, s_prev_hash = None, s_state_root = None, s_timestamp = 0, s_batch_count = 0,
     s_tx_count = 0, s_raw = JNull, s_indexed_at = 0, s_proposer = None, s_finality_status = None, s_finalized_at = None,
     s_da_block_height = None\<rparr>"

definition legacy_db :: db where
  "legacy_db = empty_db\<lparr>slots := [legacy_slot 1 ''a'', legacy_slot 2 ''b'', legacy_slot 9 ''c'']\<rparr>"

theorem settlement_backfill_stays_witness:
  "\<exists>r. slot_of (p_db (((repoll_tick calm_pg one_slot_node) ^^ 3)
       \<lparr>p_db = backfill_finality (backfill_prev_hash legacy_db), p_seq = 0\<rparr>)) 2 = Some r \<and>
     s_finality_status r = Some finalized \<and> s_finalized_at r = None \<and> s_prev_hash r = Some ''a''"
proof -
  have rows: "slots legacy_db = [legacy_slot 1 ''a'', legacy_slot 2 ''b'', legacy_slot 9 ''c'']" by (simp add: legacy_db_def)
  have "unique_key s_height (slots legacy_db)"
    "\<forall>r \<in> set (slots legacy_db). s_finality_status r = None \<and> s_finalized_at r = None"
    by (simp_all add: rows legacy_slot_def unique_key_def)
  from settlement_backfill_stays [OF this, where P = calm_pg and C = one_slot_node and n = 3
      and p = "\<lparr>p_db = backfill_finality (backfill_prev_hash legacy_db), p_seq = 0\<rparr>"]
  have "\<exists>r'. slot_of (p_db (((repoll_tick calm_pg one_slot_node) ^^ 3)
       \<lparr>p_db = backfill_finality (backfill_prev_hash legacy_db), p_seq = 0\<rparr>)) 2 = Some r' \<and>
      s_finalized_at r' = None \<and> s_finality_status r' = Some finalized \<and> s_prev_hash r' = map_option s_hash (slot_of legacy_db 1)"
    by (simp add: rows legacy_slot_def) blast
  moreover have "slot_of legacy_db 1 = Some (legacy_slot 1 ''a'')" by (simp add: slot_of_def rows legacy_slot_def)
  ultimately show ?thesis by (auto simp: legacy_slot_def)
qed

end
