(* ===== verification/Spec2Isabelle.thy ===== *)
theory Spec2Isabelle
  imports Live Stats_Series Wire_Codec Bot_Race Migrations
begin

text \<open>
  Verification of \<^bold>\<open>ligate-api\<close>, the indexer, read API and faucet of the Ligate chain.

  \<^bold>\<open>The program.\<close> One process runs three parts around a Postgres database. The \<^emph>\<open>indexer\<close>
  (\<^verbatim>\<open>crates/indexer\<close>) walks the slots of a chain node over REST, classifies the
  transactions by their events and writes slots, transactions, address summaries and the attestation,
  bounty and contract tables; a second task re-polls pending slots for finality. The \<^emph>\<open>API\<close>
  (\<^verbatim>\<open>crates/api\<close>) serves the tables as paged lists, lookups, a search, statistics and the
  cluster topology. The \<^emph>\<open>faucet\<close> (\<^verbatim>\<open>crates/drip\<close> and the drip endpoints of the API)
  pays from a hot key, rate-limited per address for the web and per address and Discord user for the
  bot. \<^verbatim>\<open>crates/types\<close> holds the wire types all of them share.

  \<^bold>\<open>Theories and what they model.\<close>

  \<^item> Foundations: \<open>Prelude\<close> (integer types and casts, decimal text, string helpers), \<open>Json\<close>
    (values and serde's rules), \<open>Table\<close> (keyed rows: lookup, update, upsert), \<open>Store\<close> (the tables,
    the run of statements with a clock and faults), \<open>Migrations\<close> (the statements of \<^verbatim>\<open>migrations/\<close> on
    the catalog and their backfills).
  \<^item> Indexer: \<open>Wire\<close> and \<open>Wire_Codec\<close> (\<^verbatim>\<open>types/src/lib.rs\<close>: records, decoders, serialisers),
    \<open>Decode\<close>, \<open>Attestation_Id\<close>, \<open>Parser\<close>, \<open>Client\<close>, \<open>Db_Slots\<close> / \<open>Db_Tx\<close> / \<open>Db_Resources\<close>
    (\<^verbatim>\<open>db.rs\<close> by table) and \<open>Ingest\<close>, each for the source file of that name. The state is the record
    \<open>ingest_state\<close>: the pool, the phase of the walk and the heights the node answered with 404; the loops
    are the relation \<open>ingest_step\<close>. \<open>Integrity\<close> states what the resource tables keep, \<open>Demo_Run\<close> is a
    node whose slots register an attestor set, a schema and an attestation, for the witnesses.
  \<^item> Faucet: \<open>Cooldown\<close> (the contract of a rate limit), \<open>Ratelimit\<close>, \<open>Signer\<close> and \<open>Bank\<close>
    (\<^verbatim>\<open>signer.rs\<close>), \<open>Faucet\<close> (\<^verbatim>\<open>/v1/drip\<close>, \<^verbatim>\<open>/v1/drip/status\<close>, also as
    interleaved steps), \<open>Bot_Drip\<close> and \<open>Bot_Race\<close> (\<^verbatim>\<open>bot_drip.rs\<close>, as one call and as interleaved stages).
  \<^item> Read side: \<open>Cursor\<close>, \<open>Pagination\<close> (the scheme of all lists), \<open>Queries\<close> and \<open>Row_Shapes\<close>
    (\<^verbatim>\<open>queries.rs\<close>: the statements, and the way from columns to structs), \<open>Handlers\<close>,
    \<open>Resource_Handlers\<close>, \<open>Search\<close> (\<^verbatim>\<open>handlers.rs\<close>, \<^verbatim>\<open>responses.rs\<close>).
  \<^item> Cached endpoints: \<open>Ttl_Cache\<close> (the contract of both response caches), \<open>Cluster\<close>
    (\<^verbatim>\<open>cluster.rs\<close>), \<open>Stats\<close>, \<open>Estimates\<close>, \<open>Stats_Series\<close>, \<open>Stats_Api\<close> (\<^verbatim>\<open>stats.rs\<close>).
  \<^item> The process (\<^verbatim>\<open>config.rs\<close>, \<^verbatim>\<open>main.rs\<close>): \<open>Config\<close>, \<open>Socket_Addr\<close> (the bind address),
    \<open>Router\<close> (the route table), \<open>App\<close> (the shared state \<open>app_state\<close> and \<open>handle\<close>, which gives every
    request to its handler), \<open>Startup\<close> (\<open>boot_process\<close>, the sequence of \<^verbatim>\<open>main\<close> with its failures)
    and \<open>System\<close>: ingest steps, requests and redeployments on one database, as the relation \<open>system_step\<close>. \<open>Live\<close> and this theory
    join the two sides: what the reachable states of \<open>System\<close> serve.

  \<^bold>\<open>Interfaces.\<close> Locales carry the proofs that several components share. \<open>cooldown_gate\<close>
  (grants to a key are a window apart) is interpreted by the web limiter and by the two cooldowns of
  the bot, and \<open>ttl_cache\<close> (a stamped entry is served for its lifetime), by the statistics and cluster
  caches, is a sublocale of it. \<open>keyset_endpoint\<close> (a page below a cursor) is interpreted by ten lists.
  \<open>ingest_statements\<close> asks of a table invariant that it survives the statements on slots, transactions and
  the chain identity. \<open>ingest_kept\<close> adds the writes of the summary and resource tables;
  \<open>ingest_invariant\<close>, for an invariant that does not look at those tables, is a sublocale of it; both
  have an extension by the write of the cursor. What they yield is that the invariant holds in every
  reachable state, of the loop and of the whole service. Their
  instances are the integrity of transactions, the finality stamps, the presence of a slot, the cursor,
  the shape of the slot table and, through \<open>resource_invariant\<close>, the integrity of the resource tables.
  \<open>path_router\<close> is what the dispatch needs of the path matching of axum, interpreted by a scan of the table.

  \<^bold>\<open>What is shown.\<close>

  \<^item> The service: through failures, crashes, redeployments and requests in any order no height
    from the configured start on is skipped, the tables keep their integrity, every height gone past is shown to a client that follows the block
    list, and every indexed transaction and slot can be looked up (\<open>System\<close> and this theory). Attestor
    sets, schemas, attestations, bounties and contracts keep their references, ids and ranges, their
    lists are complete and each is served by its id (\<open>System\<close>, \<open>Live\<close>). A request
    changes only what its route is allowed to; every route can be reached; a process that serves was
    started soundly.
  \<^item> Schema: the migrations apply in order and leave the columns, constraints and references the model of
    the tables has; the finality they backfill is never revised by the re-poll task (a finding).
  \<^item> Ingest: slot upserts, finality stamps, transaction rows, address summaries, bounty and contract escrow
    do what they document, the stored document of a slot is lossless, re-ingestion of a schema is not
    neutral (a finding).
  \<^item> Decoding: the transaction-body round trip, the anchoring of the nonce and where it is misread;
    attestation ids; priority and tallies of the event classification; round trips of the wire types.
  \<^item> Faucets: spacing of grants, effects of every branch, agreement of the status endpoint, distinct
    nonces under interleaving, the overlaps that are paid more than once on both endpoints (findings),
    termination of the inclusion poll, the guards of the bot endpoint.
  \<^item> Read side: walking the cursors of a list ends and shows every row once, while rows are added above;
    the row structs carry the columns they name; matched bounties, the lag, the search.
  \<^item> Cached endpoints: what is served is what the asked endpoint computed less than a lifetime ago; the
    public topology hides addresses; the drip series and the leaderboard are exact; the percentiles lie
    within the samples.

  \<^bold>\<open>Bounds and fuel.\<close> Unsigned integers are words, signed columns are integers with their ranges
  checked at the casts, 128-bit amounts are natural numbers with the bound written out. The inclusion
  poll has 26 rounds of fuel, the quotient of its two constants plus one, and is proved to return within
  them. A walk over pages has fuel above the number of rows, and is proved to end with it. The ingest
  loop, which never ends, is a relation without fuel.

  \<^bold>\<open>Parameters.\<close> Code outside the repository is a parameter: the chain SDK, base64, bech32m, SHA-256,
  serde_json's text, chrono's renderings and ranges, the collation of Postgres, sqlx's connecting and
  migrating, axum's path matching and extraction, the HTTP transport, the listening socket and all
  clocks. Hypotheses name what is needed of them (for instance that decoding inverts encoding, or that
  collation keys are distinct), and each has an instance in a witness.

  \<^bold>\<open>Not modelled.\<close> Logging and tracing, the CORS layer, sleeps between polls; plain indexes and
  column defaults of the migrations (they change no result); OpenAPI documents and tests. The runs of
  \<open>System\<close> start from the empty database the migrations leave; a database that already had rows when a
  later migration ran is looked at in \<open>Migrations\<close> only. In \<open>App\<close> a request runs to its end before
  the next step, and the transactions of one slot are one step of the ingest loop (the
  interleavings that matter to the faucets are in \<open>Faucet\<close> and \<open>Bot_Race\<close>). Floating-point numbers: the
  convenience fields of responses are left out, the statistics are computed in exact rationals (for the
  at most 99 intervals of the block estimate the rounded percentile index equals the exact one).
\<close>

section \<open>From the node to the block list\<close>

text \<open>C3. From the node to the client: take any state the service can reach from an empty database, through
  failures, crashes, redeployments and requests. A client that follows the cursors of the block list on
  it gets to the end and is shown, newest first and each once, exactly the indexed slots. If the node
  answers a request for a height with the slot of that number, then every height from the configured
  \<^verbatim>\<open>INDEXER_START_HEIGHT\<close> on, or from 1 when none is configured, that the ingest loop has gone past
  or that the stored cursor covers is among them, unless the node answered 404 for it. Heights below the
  configured start are not claimed: the loop begins above them.\<close>

theorem indexed_blocks_listed:
  assumes "system_reach A C K (fresh_system a) s"
    and "env_ok E" and "\<And>i. reachable E (store i)" and "\<And>i. p_db (store i) = tables s"
    and "length (slots (tables s)) < fuel"
  shows "\<exists>blocks heights. walk_pages (serve_blocks E l) store fuel 0 None = Some blocks \<and>
    list_all2 (shown s_height (slot_to_block_response E) (\<lambda>i. slots (p_db (store i)))) blocks heights \<and>
    sorted_wrt (\<lambda>a b. b < a) heights \<and> set heights = s_height ` set (slots (tables s)) \<and>
    (node_numbers C \<longrightarrow>
      (\<forall>h \<ge> (case cf_indexer_start_height (ap_config A) of Some lo \<Rightarrow> lo | None \<Rightarrow> 1).
         done_below (ig_phase (sys_ingest s)) h \<or> (\<exists>c. cursor (tables s) = Some c \<and> h \<le> c) \<longrightarrow>
         as_i64 h \<in> set heights \<or> h \<in> ig_missing (sys_ingest s)))"
proof -
  have ok: "slots_ok (tables s)" by (rule system_tables [OF assms(1)])
  have gap: "no_gap (first_height (cf_indexer_start_height (ap_config A))) (sys_ingest s)" if "node_numbers C"
    by (rule no_gap_system [OF assms(1) that]) (simp add: fresh_tables)
  obtain blocks heights where walk: "walk_pages (serve_blocks E l) store fuel 0 None = Some blocks"
    "list_all2 (shown s_height (slot_to_block_response E) (\<lambda>i. slots (p_db (store i)))) blocks heights"
    "sorted_wrt (\<lambda>a b. b < a) heights" "set heights = s_height ` set (slots (p_db (store 0)))"
    using block_pages.walk_complete [of E store fuel l] assms ok by (auto simp: stays_below_def)
  have listed: "as_i64 h \<in> set heights" if "slot_of (tables s) (as_i64 h) \<noteq> None" for h
    using that walk(4) assms(4) by (auto simp: slot_of_def dest!: find_row_SomeD) (metis imageI)
  have covered: "as_i64 h \<in> set heights \<or> h \<in> ig_missing (sys_ingest s)"
    if "node_numbers C" "(case cf_indexer_start_height (ap_config A) of Some lo \<Rightarrow> lo | None \<Rightarrow> 1) \<le> h"
      "done_below (ig_phase (sys_ingest s)) h \<or> (\<exists>c. cursor (tables s) = Some c \<and> h \<le> c)" for h
    using gap [OF that(1)] that(2,3) listed [of h] by (auto simp: no_gap_def first_height_def accounted_def)
  show ?thesis
    by (intro exI [of _ blocks] exI [of _ heights] conjI allI impI)
       (use walk covered assms(4) in simp_all)
qed

theorem indexed_blocks_listed_witness:
  "\<exists>s blocks heights. system_reach demo_run_env run_node run_codec (fresh_system demo_state) s \<and>
     walk_pages (serve_blocks sample_env (Some 1)) (\<lambda>i. \<lparr>p_db = tables s, p_seq = i\<rparr>)
       (Suc (length (slots (tables s)))) 0 None = Some blocks \<and>
     length heights = length blocks \<and> (1 :: int) \<in> set heights"
proof -
  from demo_run [of demo_state] obtain s where s: "system_reach demo_run_env run_node run_codec (fresh_system demo_state) s"
    "done_below (ig_phase (sys_ingest s)) 1" "ig_missing (sys_ingest s) = {}" by (elim exE conjE) (rule that)
  have one: "as_i64 1 = 1" by (simp add: as_i64_def)
  have none: "cf_indexer_start_height (ap_config demo_run_env) = None"
    by (simp add: demo_run_env_def demo_env_def sample_config_def)
  let ?store = "\<lambda>i. \<lparr>p_db = tables s, p_seq = i\<rparr>" and ?n = "length (slots (tables s))"
  obtain blocks heights where w: "walk_pages (serve_blocks sample_env (Some 1)) ?store (Suc ?n) 0 None = Some blocks"
    and l: "length blocks = length heights"
    and d: "\<forall>h \<ge> (case cf_indexer_start_height (ap_config demo_run_env) of Some lo \<Rightarrow> lo | None \<Rightarrow> 1). done_below (ig_phase (sys_ingest s)) h \<or> (\<exists>c. cursor (tables s) = Some c \<and> h \<le> c) \<longrightarrow>
       as_i64 h \<in> set heights \<or> h \<in> ig_missing (sys_ingest s)"
    using indexed_blocks_listed [OF s(1) sample_env_ok(1), of ?store "Suc ?n" "Some 1"] run_node_numbers
    by (auto dest: list_all2_lengthD)
  from d s(2,3) have "1 \<in> set heights" using one none by (auto dest!: spec [of _ 1])
  then show ?thesis using s(1) w l [symmetric] by (intro exI [of _ s] exI [of _ blocks] exI [of _ heights] conjI)
qed

section \<open>Lookups on a live database\<close>

text \<open>C4. What is indexed can be looked up: in every state the service can reach from an empty database, a request
  for the hash of an indexed transaction is answered with that transaction and the slot it points to,
  the join never loses it, and a request for the height of an indexed slot with that slot; hashes and
  heights that are not indexed get 404.\<close>

theorem indexed_rows_served:
  assumes "system_reach A C K (fresh_system a) s" and "p_db p = tables s" and "\<not> pg_fault (ae_pg E) (p_seq p)"
  shows "(\<forall>t \<in> set (transactions (tables s)). \<exists>sl. slot_of (tables s) (t_slot t) = Some sl \<and>
      fst (get_tx_by_hash E (t_hash t) p) = Reply (tx_row_to_response E (t, sl)) (Some TTL_IMMUTABLE_SECS)) \<and>
    (\<forall>h. h \<notin> t_hash ` set (transactions (tables s)) \<longrightarrow>
      fst (get_tx_by_hash E h p) = not_found ''tx not found'') \<and>
    (\<forall>r \<in> set (slots (tables s)).
      fst (block_by_height E (as_u64 (s_height r)) p) = Reply (slot_to_block_response E r) (Some TTL_IMMUTABLE_SECS)) \<and>
    (\<forall>h. as_i64 h \<notin> s_height ` set (slots (tables s)) \<longrightarrow>
      fst (block_by_height E h p) = not_found ''block not found'')"
proof -
  note ok = system_tables [OF assms(1)]
  have block: "fst (block_by_height E h p) =
      or_not_found ''block not found'' (\<lambda>row. cached (slot_to_block_response E row) TTL_IMMUTABLE_SECS)
        (find_row s_height (as_i64 h) (slots (tables s)))" for h
    using assms(2,3) by (simp add: block_by_height_def slot_by_height_def read_op_simps respond_def)
  have hit: "find_row s_height (as_i64 (as_u64 (s_height r))) (slots (tables s)) = Some r" if "r \<in> set (slots (tables s))" for r
    using ok(3) that find_row_Some_iff [of s_height "slots (tables s)"] by (simp add: slots_ok_def as_i64_as_u64)
  have gone: "find_row s_height h (slots (tables s)) = None" if "h \<notin> s_height ` set (slots (tables s))" for h
    using that unfolding find_row_None .
  have found: "\<exists>sl. slot_of (tables s) (t_slot t) = Some sl \<and>
      fst (get_tx_by_hash E (t_hash t) p) = Reply (tx_row_to_response E (t, sl)) (Some TTL_IMMUTABLE_SECS)"
    if "t \<in> set (transactions (tables s))" for t
  proof -
    have "tx_of (tables s) (t_hash t) = Some t"
      using ok(1) that find_row_Some_iff [of t_hash "transactions (tables s)"] by (simp add: tx_wf_def tx_of_def)
    then obtain sl where "sl \<in> set (slots (tables s))" "s_height sl = t_slot t"
      "fst (get_tx_by_hash E (t_hash t) p) = cached (tx_row_to_response E (t, sl)) 300"
      using get_tx_by_hash_correct [of p E "t_hash t"] ok(4) assms(2,3) by auto
    then show ?thesis
      using ok(3) find_row_Some_iff [of s_height "slots (tables s)"]
      by (intro exI [of _ sl]) (simp add: slot_of_def slots_ok_def cached_def TTL_IMMUTABLE_SECS_def)
  qed
  have missed: "fst (get_tx_by_hash E h p) = not_found ''tx not found''" if "h \<notin> t_hash ` set (transactions (tables s))" for h
  proof -
    have "tx_of (tables s) h = None" using that unfolding tx_of_def find_row_None .
    then show ?thesis using get_tx_by_hash_correct [of p E h] ok(4) assms(2,3) by simp
  qed
  show ?thesis
    unfolding block by (intro conjI ballI allI impI) (simp_all add: found missed or_not_found_def cached_def hit gone)
qed

theorem indexed_rows_served_witness:
  "\<exists>s r. system_reach demo_run_env run_node run_codec (fresh_system demo_state) s \<and> slot_of (tables s) 1 = Some r \<and>
     fst (block_by_height sample_env 1 \<lparr>p_db = tables s, p_seq = 0\<rparr>) =
       Reply (slot_to_block_response sample_env r) (Some TTL_IMMUTABLE_SECS)"
proof -
  from demo_run [of demo_state] obtain s where s: "system_reach demo_run_env run_node run_codec (fresh_system demo_state) s"
    "done_below (ig_phase (sys_ingest s)) 1" "ig_missing (sys_ingest s) = {}" by (elim exE conjE) (rule that)
  have one: "as_i64 1 = 1" "as_u64 1 = 1" by (simp_all add: as_i64_def as_u64_def)
  have "no_gap (first_height (cf_indexer_start_height (ap_config demo_run_env))) (sys_ingest s)"
    by (rule no_gap_system [OF s(1) run_node_numbers]) (simp add: fresh_tables)
  moreover have "first_height (cf_indexer_start_height (ap_config demo_run_env)) = 1"
    by (simp add: first_height_def demo_run_env_def demo_env_def sample_config_def)
  ultimately obtain r where r: "slot_of (tables s) 1 = Some r"
    using s(2,3) one(1) by (fastforce simp: no_gap_def accounted_def)
  then have "r \<in> set (slots (tables s))" "s_height r = 1" by (auto simp: slot_of_def dest: find_row_SomeD)
  moreover have "\<not> pg_fault (ae_pg sample_env) (p_seq \<lparr>p_db = tables s, p_seq = 0\<rparr>)" by (simp add: sample_env_def)
  ultimately show ?thesis
    using indexed_rows_served [OF s(1), of "\<lparr>p_db = tables s, p_seq = 0\<rparr>" sample_env] s(1) r one(2) by (metis pool.select_convs(1))
qed

text \<open>C5. The transaction list is complete on a live database: in every state the service can reach from an empty
  database, following the cursors of the list, with any combination of its filters, ends and shows
  every matching transaction once, newest first; without filters that is every indexed transaction.\<close>

theorem indexed_txs_listed:
  assumes "system_reach A C K (fresh_system a) s" and "env_ok E" and "\<And>i. reachable E (store i)"
    and "\<And>i. p_db (store i) = tables s" and "length (txs_where kind height (tables s)) < fuel"
  shows "\<exists>txs keys. walk_pages (serve_txs (E, kind, height) l) store fuel 0 None = Some txs \<and>
    list_all2 (shown tx_key (tx_row_to_response E) (\<lambda>_. txs_where kind height (tables s))) txs keys \<and>
    sorted_wrt (\<lambda>a b. b < a) keys \<and> set keys = tx_key ` set (txs_where kind height (tables s)) \<and>
    (kind = None \<longrightarrow> height = None \<longrightarrow> set keys = (\<lambda>r. (t_slot r, t_position r)) ` set (transactions (tables s)))"
proof -
  note ok = system_tables(4) [OF assms(1)]
  have all: "tx_key ` set (txs_where None None (tables s)) = (\<lambda>r. (t_slot r, t_position r)) ` set (transactions (tables s))"
    using arg_cong [OF join_map [OF ok, of "\<lambda>r. (t_slot r, t_position r)"], of set]
    by (simp add: txs_where_def matches_def tx_key_def)
  obtain txs keys where "walk_pages (serve_txs (E, kind, height) l) store fuel 0 None = Some txs"
    "list_all2 (shown tx_key (tx_row_to_response E) (\<lambda>_. txs_where kind height (tables s))) txs keys"
    "sorted_wrt (\<lambda>a b. b < a) keys" "set keys = tx_key ` set (txs_where kind height (tables s))"
    using txs_walk_complete [of E store kind height fuel l] ok assms(2-5) by (auto simp: stays_below_def)
  then show ?thesis using all by (intro exI [of _ txs] exI [of _ keys]) simp
qed

theorem indexed_txs_listed_witness:
  "\<exists>s txs keys. system_reach demo_run_env run_node run_codec (fresh_system demo_state) s \<and>
     map t_hash (transactions (tables s)) = [''ltx1a'', ''ltx1b'', ''ltx1c''] \<and>
     walk_pages (serve_txs (sample_env, None, None) (Some 1)) (\<lambda>i. \<lparr>p_db = tables s, p_seq = i\<rparr>)
       (Suc (length (txs_where None None (tables s)))) 0 None = Some txs \<and> length txs = length keys \<and>
     set keys = (\<lambda>r. (t_slot r, t_position r)) ` set (transactions (tables s))"
proof -
  obtain s where s: "system_reach demo_run_env run_node run_codec (fresh_system demo_state) s"
    "map t_hash (transactions (tables s)) = [''ltx1a'', ''ltx1b'', ''ltx1c'']"
    using demo_run_rows [of demo_state] by (elim exE conjE) (rule that)
  obtain txs keys where "walk_pages (serve_txs (sample_env, None, None) (Some 1)) (\<lambda>i. \<lparr>p_db = tables s, p_seq = i\<rparr>)
       (Suc (length (txs_where None None (tables s)))) 0 None = Some txs" "length txs = length keys"
    "set keys = (\<lambda>r. (t_slot r, t_position r)) ` set (transactions (tables s))"
    using indexed_txs_listed [OF s(1) sample_env_ok(1), of "\<lambda>i. \<lparr>p_db = tables s, p_seq = i\<rparr>" None None
        "Suc (length (txs_where None None (tables s)))" "Some 1"]
    by (fastforce dest: list_all2_lengthD)
  with s show ?thesis by (intro exI [of _ s] exI [of _ txs] exI [of _ keys] conjI)
qed

end
